(* ===== verification/Namei_Prelude.thy ===== *)
theory Namei_Prelude
  imports Main "HOL-Library.Word"
begin

text \<open>
  Shared vocabulary of the development: the C integer types at their widths, the
  error numbers the kernel and the harness return, byte strings, the two shapes of
  loop the sources use over fixed arrays (a store per index, a scan that stops
  early), the BPF array map of counters, and the theorem collections the component
  theories add to.

  A byte (\<open>__u8\<close>, \<open>char\<close>) is a HOL \<open>char\<close>, which has exactly eight bits, so a
  component name is a \<open>string\<close> and a C string literal is written as it is in the
  source.
\<close>

unbundle bit_operations_syntax

named_theorems policy_defs \<open>definitions of the BPF policies\<close>
named_theorems policy_simps \<open>evaluation of the policy library\<close>
named_theorems kernel_defs \<open>definitions of the kernel mechanism\<close>

type_synonym u32 = "32 word"
type_synonym u64 = "64 word"
type_synonym bytes = string

text \<open>The error numbers that occur in the modelled code.\<close>

datatype errno =
    EPERM | ENOENT | EIO | E2BIG | EBADF | ECHILD | EAGAIN | ENOMEM | EFAULT | EEXIST
  | EXDEV | ENODEV | ENOTDIR | EISDIR | EINVAL | ENAMETOOLONG | ENOLINK | EOVERFLOW
  | EOPNOTSUPP | ESTALE | ETIMEDOUT | ESRCH | EINTR | EACCES | ENOSPC | ELOOP
  | ENOTRECOVERABLE | EPIPE | EPROTO | EBADMSG | ENOMSG | ENODATA | EROFS | EBUSY | ENOTEMPTY
  | EOPENSTALE

abbreviation UINT_MAX :: u32 where
  "UINT_MAX \<equiv> 0xFFFFFFFF"

abbreviation NUL :: char where
  "NUL \<equiv> CHR 0x00"

subsection \<open>Words\<close>

lemma unat_less_64_numeral:
  "unat (x :: u32) < unat (64 :: u32) \<longleftrightarrow> unat x < 64"
  by simp

lemma u32_le_64 [simp]: "(x :: u32) \<le> 64 \<longleftrightarrow> unat x \<le> 64"
  by (simp add: word_le_nat_alt)

lemma unat_of_nat_u32: "n < 2 ^ 32 \<Longrightarrow> unat (of_nat n :: u32) = n"
  by (simp add: unat_of_nat take_bit_nat_eq_self)

lemma u32_zero_unat: "(x :: u32) = 0 \<longleftrightarrow> unat x = 0"
  by (simp add: unat_eq_0)

lemma unat_add_u32: "unat x + unat y < 2 ^ 32 \<Longrightarrow> unat ((x :: u32) + y) = unat x + unat y"
  by (simp add: unat_word_ariths)

lemma unat_sub_u32: "y \<le> x \<Longrightarrow> unat ((x :: u32) - y) = unat x - unat y"
  by (rule unat_sub)

lemma unat_UINT_MAX: "unat UINT_MAX = 4294967295"
  by simp

lemma u32_neq_UINT_MAX: "(x :: u32) \<noteq> UINT_MAX \<longleftrightarrow> unat x < 4294967295"
proof -
  have "unat x < 4294967296"
    using unsigned_less [of x] by simp
  then show ?thesis
    by (auto simp: word_unat_eq_iff)
qed

subsection \<open>Loops over fixed arrays\<close>

text \<open>
  \<^verbatim>\<open>for (i = 0; i < n; i++) if (p(i)) a[i] = f(i);\<close>
  as a fold over the indices, and its closed form.
\<close>

definition store_loop :: "nat \<Rightarrow> (nat \<Rightarrow> bool) \<Rightarrow> (nat \<Rightarrow> 'a) \<Rightarrow> 'a list \<Rightarrow> 'a list" where
  "store_loop n p f xs = fold (\<lambda>i a. if p i then a[i := f i] else a) [0..<n] xs"

lemma length_store_loop [simp]: "length (store_loop n p f xs) = length xs"
proof -
  have "length (fold (\<lambda>i a. if p i then a[i := f i] else a) is xs) = length xs" for "is"
    by (induction "is" arbitrary: xs) auto
  then show ?thesis by (simp add: store_loop_def)
qed

lemma store_loop_Suc:
  "store_loop (Suc n) p f xs =
     (if p n then (store_loop n p f xs)[n := f n] else store_loop n p f xs)"
  by (simp add: store_loop_def)

lemma nth_store_loop:
  "i < length xs \<Longrightarrow>
     store_loop n p f xs ! i = (if i < n \<and> p i then f i else xs ! i)"
proof (induction n)
  case 0
  then show ?case by (simp add: store_loop_def)
next
  case (Suc n)
  then show ?case by (auto simp: store_loop_Suc nth_list_update less_Suc_eq)
qed

lemma store_loop_take_drop:
  assumes "m \<le> n" "n \<le> length xs" "m \<le> length ys"
  shows "store_loop n (\<lambda>i. i < m) (\<lambda>i. ys ! i) xs = take m ys @ drop m xs"
proof (rule nth_equalityI)
  show "length (store_loop n (\<lambda>i. i < m) (\<lambda>i. ys ! i) xs) = length (take m ys @ drop m xs)"
    using assms by simp
next
  fix i assume "i < length (store_loop n (\<lambda>i. i < m) (\<lambda>i. ys ! i) xs)"
  then show "store_loop n (\<lambda>i. i < m) (\<lambda>i. ys ! i) xs ! i = (take m ys @ drop m xs) ! i"
    using assms by (auto simp: nth_store_loop nth_append)
qed

text \<open>
  \<^verbatim>\<open>for (i = lo; i < hi; i++) if (!p(i)) return false; return true;\<close>
\<close>

function scan_loop :: "(nat \<Rightarrow> bool) \<Rightarrow> nat \<Rightarrow> nat \<Rightarrow> bool" where
  "scan_loop p i n = (if i < n then (if p i then scan_loop p (Suc i) n else False) else True)"
  by pat_completeness auto
termination
  by (relation "measure (\<lambda>(p, i, n). n - i)") auto

declare scan_loop.simps [simp del]

lemma scan_loop_iff: "scan_loop p i n \<longleftrightarrow> (\<forall>j. i \<le> j \<and> j < n \<longrightarrow> p j)"
proof (induction p i n rule: scan_loop.induct)
  case (1 p i n)
  show ?case
  proof (cases "i < n \<and> p i")
    case True
    then have "scan_loop p i n = scan_loop p (Suc i) n"
      by (subst scan_loop.simps) simp
    also have "\<dots> \<longleftrightarrow> (\<forall>j. Suc i \<le> j \<and> j < n \<longrightarrow> p j)"
      using 1 True by simp
    also have "\<dots> \<longleftrightarrow> (\<forall>j. i \<le> j \<and> j < n \<longrightarrow> p j)"
      using True by (metis Suc_leD Suc_leI le_neq_implies_less)
    finally show ?thesis .
  next
    case False
    then show ?thesis by (subst scan_loop.simps) auto
  qed
qed

lemma scan_loop_0: "scan_loop p 0 n \<longleftrightarrow> (\<forall>j<n. p j)"
  by (simp add: scan_loop_iff)

lemma scan_loop_take:
  "n \<le> length xs \<Longrightarrow> scan_loop (\<lambda>i. q (xs ! i)) 0 n \<longleftrightarrow> (\<forall>x\<in>set (take n xs). q x)"
  by (auto simp: scan_loop_0 set_conv_nth)

lemma scan_loop_zero [simp]: "scan_loop p 0 0"
  by (simp add: scan_loop_0)

lemma scan_loop_Suc: "scan_loop p 0 (Suc n) \<longleftrightarrow> scan_loop p 0 n \<and> p n"
  by (auto simp: scan_loop_0 less_Suc_eq)

lemma scan_loop_one: "scan_loop p 0 1 \<longleftrightarrow> p 0"
  by (simp add: scan_loop_0)

lemma scan_loop_numeral:
  "scan_loop p 0 (numeral k) \<longleftrightarrow> scan_loop p 0 (pred_numeral k) \<and> p (pred_numeral k)"
  by (simp add: numeral_eq_Suc scan_loop_Suc)

text \<open>Small indices as successors, without unfolding the array bound 64.\<close>

lemma small_nats:
  "(2::nat) = Suc (Suc 0)" "(3::nat) = Suc 2" "(4::nat) = Suc 3" "(5::nat) = Suc 4"
  "(6::nat) = Suc 5" "(7::nat) = Suc 6" "(8::nat) = Suc 7" "(9::nat) = Suc 8"
  by simp_all

subsection \<open>Array maps of counters\<close>

text \<open>
  A \<open>BPF_MAP_TYPE_ARRAY\<close> map with \<open>__u64\<close> values: \<open>bpf_map_lookup_elem\<close> returns
  \<open>NULL\<close> for a key at or past \<open>max_entries\<close>, so the increment is skipped, and
  \<open>__sync_fetch_and_add\<close> wraps at 64 bits.
\<close>

definition count_array :: "u32 \<Rightarrow> u64 list \<Rightarrow> u64 list" where
  "count_array key m =
     (if unat key < length m then m[unat key := m ! unat key + 1] else m)"

lemma length_count_array [simp]: "length (count_array key m) = length m"
  by (simp add: count_array_def)

lemma count_array_nth:
  "i < length m \<Longrightarrow> count_array key m ! i = m ! i + of_bool (unat key = i)"
  by (simp add: count_array_def)

subsection \<open>Association of list positions and elements\<close>

lemma take_eq_iff_nth:
  "n \<le> length xs \<Longrightarrow> n \<le> length ys \<Longrightarrow> take n xs = take n ys \<longleftrightarrow> (\<forall>i<n. xs ! i = ys ! i)"
  by (auto simp: list_eq_iff_nth_eq)

lemma count_list_filter_other:
  "\<not> p x \<Longrightarrow> count_list (filter p xs) x = 0"
  by (induction xs) auto

lemma distinct_map_filter_inj:
  "distinct (map f xs) \<Longrightarrow> x \<in> set xs \<Longrightarrow> y \<in> set xs \<Longrightarrow> f x = f y \<Longrightarrow> x = y"
  by (induction xs) (auto simp: image_iff)

text \<open>An invariant of a step is one of every sequence of steps.\<close>

lemma fold_inv: "P s \<Longrightarrow> (\<And>x s. P s \<Longrightarrow> P (f x s)) \<Longrightarrow> P (fold f xs s)"
  by (induction xs arbitrary: s) auto

end
