(* ===== verification/Namei_Abi.thy ===== *)
theory Namei_Abi
  imports Namei_Prelude
begin

text \<open>
  The ABI between the kernel and a policy: \<open>struct bpf_namei_ext_ctx\<close> with its event
  and action codes, how the kernel fills it for one component
  (\<open>namei_ext_init_ctx\<close>), how it validates a replacement component
  (\<open>namei_ext_redirect_valid\<close>), and which bytes of it the verifier lets a program read
  and write (\<open>namei_ext_is_valid_access\<close>).
\<close>

subsection \<open>Codes and structures\<close>

definition BPF_NAMEI_EXT_NAME_MAX :: nat where "BPF_NAMEI_EXT_NAME_MAX = 64"

definition BPF_NAMEI_EXT_LOOKUP :: u32 where "BPF_NAMEI_EXT_LOOKUP = 0"
definition BPF_NAMEI_EXT_READDIR :: u32 where "BPF_NAMEI_EXT_READDIR = 1"

definition BPF_NAMEI_EXT_PASS :: u32 where "BPF_NAMEI_EXT_PASS = 0"
definition BPF_NAMEI_EXT_REDIRECT :: u32 where "BPF_NAMEI_EXT_REDIRECT = 1"
definition BPF_NAMEI_EXT_HIDE :: u32 where "BPF_NAMEI_EXT_HIDE = 2"
definition BPF_NAMEI_EXT_SELECT_TARGET :: u32 where "BPF_NAMEI_EXT_SELECT_TARGET = 3"

lemmas abi_codes [simp] =
  BPF_NAMEI_EXT_NAME_MAX_def BPF_NAMEI_EXT_LOOKUP_def BPF_NAMEI_EXT_READDIR_def
  BPF_NAMEI_EXT_PASS_def BPF_NAMEI_EXT_REDIRECT_def BPF_NAMEI_EXT_HIDE_def
  BPF_NAMEI_EXT_SELECT_TARGET_def

record bpf_namei_ext_ctx =
  c_event :: u32
  c_flags :: u32
  c_name_len :: u32
  c_name_hash :: u32
  c_cgroup_id :: u64
  c_name :: bytes
  c_redirect_name_len :: u32
  c_target_id :: u32
  c_redirect_name :: bytes
  c_parent_dev :: u64
  c_parent_ino :: u64
  c_parent_generation :: u32
  c_parent_flags :: u32

type_synonym ctx = bpf_namei_ext_ctx

text \<open>
  A policy run takes the context and the maps the program owns and returns the
  program's return value, the context it leaves and the maps it leaves.
\<close>

type_synonym 'm policy = "ctx \<Rightarrow> 'm \<Rightarrow> u32 \<times> ctx \<times> 'm"

definition ctx_wf :: "ctx \<Rightarrow> bool" where
  "ctx_wf c \<longleftrightarrow> length (c_name c) = 64 \<and> length (c_redirect_name c) = 64"

text \<open>The part of the context a program may not write.\<close>

definition same_input :: "ctx \<Rightarrow> ctx \<Rightarrow> bool" where
  "same_input c c' \<longleftrightarrow>
     c_event c' = c_event c \<and> c_flags c' = c_flags c \<and> c_name_len c' = c_name_len c \<and>
     c_name_hash c' = c_name_hash c \<and> c_cgroup_id c' = c_cgroup_id c \<and>
     c_name c' = c_name c \<and> c_parent_dev c' = c_parent_dev c \<and>
     c_parent_ino c' = c_parent_ino c \<and> c_parent_generation c' = c_parent_generation c \<and>
     c_parent_flags c' = c_parent_flags c"

lemma same_input_refl [simp]: "same_input c c"
  by (simp add: same_input_def)

lemma same_input_trans: "same_input a b \<Longrightarrow> same_input b c \<Longrightarrow> same_input a c"
  by (simp add: same_input_def)

lemma same_input_upd [simp]:
  "same_input c (c\<lparr>c_target_id := t\<rparr>)"
  "same_input c (c\<lparr>c_redirect_name_len := l\<rparr>)"
  "same_input c (c\<lparr>c_redirect_name := n\<rparr>)"
  "same_input c (c\<lparr>c_redirect_name_len := l, c_redirect_name := n\<rparr>)"
  by (simp_all add: same_input_def)

subsection \<open>Filling the context\<close>

text \<open>
  \<open>struct qstr\<close>: the component starts at \<open>q_name\<close> and is \<open>q_len\<close> bytes long; the memory
  behind \<open>q_name\<close> may be longer (the rest of the pathname).
\<close>

record qstr =
  q_name :: bytes
  q_len :: u32
  q_hash :: u32

definition qstr_wf :: "qstr \<Rightarrow> bool" where
  "qstr_wf q \<longleftrightarrow> unat (q_len q) \<le> length (q_name q)"

definition qstr_text :: "qstr \<Rightarrow> bytes" where
  "qstr_text q = take (unat (q_len q)) (q_name q)"

text \<open>\<open>struct path\<close>: the two pointers, \<open>0\<close> for \<open>NULL\<close>.\<close>

record path =
  p_mnt :: u64
  p_dentry :: u64

definition path_equal :: "path \<Rightarrow> path \<Rightarrow> bool" where
  "path_equal p q \<longleftrightarrow> p_mnt p = p_mnt q \<and> p_dentry p = p_dentry q"

lemma path_equal_iff [simp]: "path_equal p q \<longleftrightarrow> p = q"
  by (auto simp: path_equal_def)

record inode =
  i_sb_dev :: "u64 option"
  i_ino :: u64
  i_generation :: u32

text \<open>
  \<open>d_backing_inode\<close> belongs to the dcache, which is outside the sources: it is the
  parameter \<open>backing\<close>, from a dentry to its inode if it has one.
\<close>

definition namei_ext_init_ctx ::
  "(u64 \<Rightarrow> inode option) \<Rightarrow> path option \<Rightarrow> inode option \<Rightarrow> u32 \<Rightarrow> u32 \<Rightarrow> qstr \<Rightarrow> ctx" where
  "namei_ext_init_ctx backing parent parent_inode event flags name =
     (let copied = min (unat (q_len name)) BPF_NAMEI_EXT_NAME_MAX;
          ino = (case parent_inode of
                   Some i \<Rightarrow> Some i
                 | None \<Rightarrow>
                     (case parent of
                        None \<Rightarrow> None
                      | Some p \<Rightarrow> if p_dentry p \<noteq> 0 then backing (p_dentry p) else None))
      in \<lparr> c_event = event, c_flags = flags, c_name_len = q_len name,
           c_name_hash = q_hash name, c_cgroup_id = 0,
           c_name = take copied (q_name name) @ replicate (BPF_NAMEI_EXT_NAME_MAX - copied) NUL,
           c_redirect_name_len = 0, c_target_id = 0,
           c_redirect_name = replicate BPF_NAMEI_EXT_NAME_MAX NUL,
           c_parent_dev = (case ino of None \<Rightarrow> 0
                           | Some i \<Rightarrow> (case i_sb_dev i of None \<Rightarrow> 0 | Some d \<Rightarrow> d)),
           c_parent_ino = (case ino of None \<Rightarrow> 0 | Some i \<Rightarrow> i_ino i),
           c_parent_generation = (case ino of None \<Rightarrow> 0 | Some i \<Rightarrow> i_generation i),
           c_parent_flags = 0 \<rparr>)"

lemma namei_ext_init_ctx_simps [simp]:
  "c_event (namei_ext_init_ctx b p pi ev fl q) = ev"
  "c_flags (namei_ext_init_ctx b p pi ev fl q) = fl"
  "c_name_len (namei_ext_init_ctx b p pi ev fl q) = q_len q"
  "c_name_hash (namei_ext_init_ctx b p pi ev fl q) = q_hash q"
  "c_cgroup_id (namei_ext_init_ctx b p pi ev fl q) = 0"
  "c_redirect_name_len (namei_ext_init_ctx b p pi ev fl q) = 0"
  "c_target_id (namei_ext_init_ctx b p pi ev fl q) = 0"
  "c_redirect_name (namei_ext_init_ctx b p pi ev fl q) = replicate 64 NUL"
  "c_parent_flags (namei_ext_init_ctx b p pi ev fl q) = 0"
  by (simp_all add: namei_ext_init_ctx_def Let_def)

lemma namei_ext_init_ctx_wf:
  "qstr_wf q \<Longrightarrow> ctx_wf (namei_ext_init_ctx b p pi ev fl q)"
  by (auto simp: ctx_wf_def namei_ext_init_ctx_def Let_def qstr_wf_def)

lemma namei_ext_init_ctx_name:
  assumes "qstr_wf q" "unat (q_len q) \<le> 64"
  shows "c_name (namei_ext_init_ctx b p pi ev fl q) =
           qstr_text q @ replicate (64 - unat (q_len q)) NUL"
  using assms by (simp add: namei_ext_init_ctx_def Let_def qstr_text_def qstr_wf_def)

lemma namei_ext_init_ctx_inode:
  assumes "i_sb_dev i = Some d"
  shows "c_parent_dev (namei_ext_init_ctx b p (Some i) ev fl q) = d"
    and "c_parent_ino (namei_ext_init_ctx b p (Some i) ev fl q) = i_ino i"
  using assms by (simp_all add: namei_ext_init_ctx_def Let_def)

subsection \<open>Validating a replacement component\<close>

definition namei_ext_redirect_valid :: "ctx \<Rightarrow> bool" where
  "namei_ext_redirect_valid c =
     (let len = c_redirect_name_len c; nm = c_redirect_name c
      in if len = 0 \<or> unat len > BPF_NAMEI_EXT_NAME_MAX then False
         else if len = 1 \<and> nm ! 0 = CHR ''.'' then False
         else if len = 2 \<and> nm ! 0 = CHR ''.'' \<and> nm ! 1 = CHR ''.'' then False
         else scan_loop (\<lambda>i. \<not> (nm ! i = CHR ''/'' \<or> nm ! i = NUL)) 0 (unat len))"

text \<open>
  What the check is for: the replacement names one entry of the same directory. It is
  not empty, fits the array, is neither of the two entries that lead elsewhere and
  contains no separator and no terminator.
\<close>

definition single_component :: "bytes \<Rightarrow> bool" where
  "single_component s \<longleftrightarrow>
     s \<noteq> [] \<and> length s \<le> 64 \<and> s \<noteq> ''.'' \<and> s \<noteq> ''..'' \<and>
     CHR ''/'' \<notin> set s \<and> NUL \<notin> set s"

definition redirect_text :: "ctx \<Rightarrow> bytes" where
  "redirect_text c = take (unat (c_redirect_name_len c)) (c_redirect_name c)"

lemma take_eq_dot_iff:
  assumes "length nm = 64" "unat len \<le> 64" "len \<noteq> (0 :: u32)"
  shows "take (unat len) nm = [a] \<longleftrightarrow> len = 1 \<and> nm ! 0 = a"
    and "take (unat len) nm = [a, b] \<longleftrightarrow> len = 2 \<and> nm ! 0 = a \<and> nm ! 1 = b"
proof -
  have n1: "unat len = 1 \<longleftrightarrow> len = 1" and n2: "unat len = 2 \<longleftrightarrow> len = 2"
    by (simp_all add: word_unat_eq_iff)
  show "take (unat len) nm = [a] \<longleftrightarrow> len = 1 \<and> nm ! 0 = a"
  proof
    assume *: "take (unat len) nm = [a]"
    then have "length (take (unat len) nm) = 1" by simp
    then have l: "unat len = 1" using assms by simp
    have "nm ! 0 = take (unat len) nm ! 0" by (subst nth_take) (simp_all add: l)
    also have "\<dots> = a" by (simp only: *) simp
    finally show "len = 1 \<and> nm ! 0 = a" using l n1 by simp
  next
    assume "len = 1 \<and> nm ! 0 = a"
    then show "take (unat len) nm = [a]" using assms by (cases nm) auto
  qed
  show "take (unat len) nm = [a, b] \<longleftrightarrow> len = 2 \<and> nm ! 0 = a \<and> nm ! 1 = b"
  proof
    assume *: "take (unat len) nm = [a, b]"
    then have "length (take (unat len) nm) = 2" by simp
    then have l: "unat len = 2" using assms by simp
    have "nm ! 0 = take (unat len) nm ! 0" "nm ! 1 = take (unat len) nm ! 1"
      by (subst nth_take; simp add: l)+
    then have "nm ! 0 = a" "nm ! 1 = b" by (simp_all only: *) simp_all
    with l n2 show "len = 2 \<and> nm ! 0 = a \<and> nm ! 1 = b" by simp
  next
    assume *: "len = 2 \<and> nm ! 0 = a \<and> nm ! 1 = b"
    have "Suc (Suc 0) \<le> length nm" using assms by simp
    then obtain x y r where "nm = x # y # r" by (auto simp: Suc_le_length_iff)
    with * show "take (unat len) nm = [a, b]" by (simp add: take_Cons')
  qed
qed

lemma redirect_valid_iff:
  assumes "ctx_wf c"
  shows "namei_ext_redirect_valid c \<longleftrightarrow>
           unat (c_redirect_name_len c) \<le> 64 \<and> single_component (redirect_text c)"
proof (cases "c_redirect_name_len c = 0 \<or> unat (c_redirect_name_len c) > 64")
  case True
  then show ?thesis
    by (auto simp: namei_ext_redirect_valid_def Let_def single_component_def redirect_text_def)
next
  case False
  let ?len = "c_redirect_name_len c" and ?nm = "c_redirect_name c"
  from assms have l64: "length ?nm = 64" by (simp add: ctx_wf_def)
  from False have len: "unat ?len \<le> 64" "?len \<noteq> 0" "unat ?len \<noteq> 0" by (auto simp: unat_eq_0)
  have ne: "redirect_text c \<noteq> []"
    using len l64 by (auto simp: redirect_text_def)
  have scan: "scan_loop (\<lambda>i. \<not> (?nm ! i = CHR ''/'' \<or> ?nm ! i = NUL)) 0 (unat ?len) \<longleftrightarrow>
      CHR ''/'' \<notin> set (redirect_text c) \<and> NUL \<notin> set (redirect_text c)"
    using len l64 scan_loop_take [of "unat ?len" ?nm "\<lambda>b. \<not> (b = CHR ''/'' \<or> b = NUL)"]
    by (auto simp: redirect_text_def)
  show ?thesis
    using False ne scan len take_eq_dot_iff [OF l64 len(1,2)]
    by (auto simp: namei_ext_redirect_valid_def Let_def single_component_def redirect_text_def)
qed

subsection \<open>Verifier access rules\<close>

datatype ctx_field =
    F_event | F_flags | F_name_len | F_name_hash | F_cgroup_id | F_name
  | F_redirect_name_len | F_target_id | F_redirect_name | F_parent_dev | F_parent_ino
  | F_parent_generation | F_parent_flags

datatype bpf_access_type = BPF_READ | BPF_WRITE

fun ctx_offsetof :: "ctx_field \<Rightarrow> int" where
  "ctx_offsetof F_event = 0"
| "ctx_offsetof F_flags = 4"
| "ctx_offsetof F_name_len = 8"
| "ctx_offsetof F_name_hash = 12"
| "ctx_offsetof F_cgroup_id = 16"
| "ctx_offsetof F_name = 24"
| "ctx_offsetof F_redirect_name_len = 88"
| "ctx_offsetof F_target_id = 92"
| "ctx_offsetof F_redirect_name = 96"
| "ctx_offsetof F_parent_dev = 160"
| "ctx_offsetof F_parent_ino = 168"
| "ctx_offsetof F_parent_generation = 176"
| "ctx_offsetof F_parent_flags = 180"

fun ctx_sizeof :: "ctx_field \<Rightarrow> int" where
  "ctx_sizeof F_cgroup_id = 8"
| "ctx_sizeof F_name = 64"
| "ctx_sizeof F_redirect_name = 64"
| "ctx_sizeof F_parent_dev = 8"
| "ctx_sizeof F_parent_ino = 8"
| "ctx_sizeof _ = 4"

definition sizeof_bpf_namei_ext_ctx :: int where
  "sizeof_bpf_namei_ext_ctx = 184"

definition bpf_ctx_range :: "ctx_field \<Rightarrow> int \<Rightarrow> bool" where
  "bpf_ctx_range f off \<longleftrightarrow> ctx_offsetof f \<le> off \<and> off \<le> ctx_offsetof f + ctx_sizeof f - 1"

text \<open>
  \<open>bpf_ctx_narrow_access_ok\<close> is a macro of the BPF core outside the sources: the
  parameter \<open>narrow_ok off sz size_default\<close>.
\<close>

definition namei_ext_is_valid_access ::
  "(int \<Rightarrow> int \<Rightarrow> int \<Rightarrow> bool) \<Rightarrow> int \<Rightarrow> int \<Rightarrow> bpf_access_type \<Rightarrow> bool" where
  "namei_ext_is_valid_access narrow_ok off sz type =
     (let size_default = 4;
          name_off = ctx_offsetof F_name;
          redirect_off = ctx_offsetof F_redirect_name
      in
      if off < 0 \<or> off + sz > sizeof_bpf_namei_ext_ctx then False
      else if type = BPF_WRITE then
        (if off = ctx_offsetof F_redirect_name_len \<and> sz = 4 then True
         else if off = ctx_offsetof F_target_id \<and> sz = 4 then True
         else if off \<ge> redirect_off \<and> off + sz \<le> redirect_off + int BPF_NAMEI_EXT_NAME_MAX
           then sz = 1 \<or> sz = 2 \<or> sz = 4 \<or> sz = 8
         else False)
      else if off \<ge> name_off \<and> off + sz \<le> name_off + int BPF_NAMEI_EXT_NAME_MAX then sz = 1
      else if off \<ge> redirect_off \<and> off + sz \<le> redirect_off + int BPF_NAMEI_EXT_NAME_MAX
        then sz = 1
      else if off mod sz \<noteq> 0 then False
      else if bpf_ctx_range F_event off \<or> bpf_ctx_range F_flags off \<or>
              bpf_ctx_range F_name_len off \<or> bpf_ctx_range F_name_hash off \<or>
              bpf_ctx_range F_redirect_name_len off \<or> bpf_ctx_range F_target_id off
        then narrow_ok off sz size_default
      else if bpf_ctx_range F_cgroup_id off \<or> bpf_ctx_range F_parent_dev off \<or>
              bpf_ctx_range F_parent_ino off
        then narrow_ok off sz 8
      else if bpf_ctx_range F_parent_generation off \<or> bpf_ctx_range F_parent_flags off
        then narrow_ok off sz size_default
      else False)"

text \<open>An access of \<open>sz\<close> bytes at \<open>off\<close> touches a field when the byte ranges meet.\<close>

definition touches :: "int \<Rightarrow> int \<Rightarrow> ctx_field \<Rightarrow> bool" where
  "touches off sz f \<longleftrightarrow>
     (\<exists>b. off \<le> b \<and> b < off + sz \<and> ctx_offsetof f \<le> b \<and> b < ctx_offsetof f + ctx_sizeof f)"

lemma touches_iff:
  "0 < ctx_sizeof f \<Longrightarrow> 0 < sz \<Longrightarrow>
     touches off sz f \<longleftrightarrow> off < ctx_offsetof f + ctx_sizeof f \<and> ctx_offsetof f < off + sz"
proof
  assume "0 < ctx_sizeof f" "0 < sz"
    and "off < ctx_offsetof f + ctx_sizeof f \<and> ctx_offsetof f < off + sz"
  then show "touches off sz f"
    unfolding touches_def by (intro exI [of _ "max off (ctx_offsetof f)"]) auto
qed (auto simp: touches_def)

lemma ctx_sizeof_pos: "0 < ctx_sizeof f"
  by (cases f) auto

lemma valid_write_fields:
  assumes "namei_ext_is_valid_access nw off sz BPF_WRITE" "touches off sz f"
  shows "f = F_redirect_name_len \<or> f = F_target_id \<or> f = F_redirect_name"
  using assms
  by (cases f) (auto simp: namei_ext_is_valid_access_def touches_def Let_def split: if_splits)

lemma valid_write_size:
  "namei_ext_is_valid_access nw off sz BPF_WRITE \<Longrightarrow> 0 < sz"
  by (auto simp: namei_ext_is_valid_access_def Let_def split: if_splits)

end
