(* ===== verification/Policy_Lib.thy ===== *)
theory Policy_Lib
  imports Namei_Abi
begin

text \<open>
  The library every policy is written with (\<open>bpf/include/namei_ext_policy.h\<close>): the
  exact component key, the literal comparison, writing a replacement component, and
  applying a redirect rule. The locale \<open>namei_policy\<close> is what the kernel relies on of a
  loaded program; every shipped policy is an interpretation of it.
\<close>

subsection \<open>Keys and rules\<close>

record namei_ext_component_key =
  k_event :: u32
  k_name_len :: u32
  k_cgroup_id :: u64
  k_parent_dev :: u64
  k_parent_ino :: u64
  k_name :: bytes

type_synonym ckey = namei_ext_component_key

record namei_ext_redirect_rule =
  r_action :: u32
  r_target_len :: u32
  r_branch :: u32
  r_flags :: u32
  r_target :: bytes

type_synonym rrule = namei_ext_redirect_rule

text \<open>\<^verbatim>\<open>struct namei_ext_component_key key = {};\<close>\<close>

definition zero_component_key :: ckey where
  "zero_component_key =
     \<lparr> k_event = 0, k_name_len = 0, k_cgroup_id = 0, k_parent_dev = 0, k_parent_ino = 0,
       k_name = replicate 64 NUL \<rparr>"

definition namei_ext_build_component_key :: "ctx \<Rightarrow> ckey \<Rightarrow> ckey" where
  "namei_ext_build_component_key c key =
     key\<lparr> k_event := c_event c, k_name_len := c_name_len c, k_cgroup_id := c_cgroup_id c,
          k_parent_dev := c_parent_dev c, k_parent_ino := c_parent_ino c,
          k_name := store_loop BPF_NAMEI_EXT_NAME_MAX (\<lambda>i. True)
                      (\<lambda>i. if i < unat (c_name_len c) then c_name c ! i else NUL) (k_name key) \<rparr>"

definition namei_ext_name_is :: "ctx \<Rightarrow> bytes \<Rightarrow> u32 \<Rightarrow> bool" where
  "namei_ext_name_is c nm len =
     (if c_name_len c \<noteq> len then False
      else scan_loop (\<lambda>i. c_name c ! i = nm ! i) 0 (min BPF_NAMEI_EXT_NAME_MAX (unat len)))"

definition namei_ext_is :: "ctx \<Rightarrow> bytes \<Rightarrow> bool" where
  "namei_ext_is c literal = namei_ext_name_is c literal (of_nat (length literal))"

definition namei_ext_set_redirect :: "ctx \<Rightarrow> bytes \<Rightarrow> u32 \<Rightarrow> ctx" where
  "namei_ext_set_redirect c target len =
     c\<lparr> c_redirect_name_len := len,
        c_redirect_name := store_loop BPF_NAMEI_EXT_NAME_MAX (\<lambda>i. i < unat len)
                             (\<lambda>i. target ! i) (c_redirect_name c) \<rparr>"

definition namei_ext_redirect_literal :: "ctx \<Rightarrow> bytes \<Rightarrow> ctx" where
  "namei_ext_redirect_literal c literal =
     namei_ext_set_redirect c literal (of_nat (length literal))"

definition namei_ext_apply_rule :: "ctx \<Rightarrow> rrule option \<Rightarrow> u32 \<times> ctx" where
  "namei_ext_apply_rule c rule =
     (case rule of
        None \<Rightarrow> (BPF_NAMEI_EXT_PASS, c)
      | Some r \<Rightarrow>
          if r_action r = BPF_NAMEI_EXT_HIDE then (BPF_NAMEI_EXT_HIDE, c)
          else if r_action r \<noteq> BPF_NAMEI_EXT_REDIRECT then (BPF_NAMEI_EXT_PASS, c)
          else (BPF_NAMEI_EXT_REDIRECT, namei_ext_set_redirect c (r_target r) (r_target_len r)))"

subsection \<open>What a component is called\<close>

text \<open>
  \<open>ctx_text\<close> is the component name the context carries. The kernel stores the true
  length but at most 64 bytes, so a context of a longer component has a length past 64
  and only a prefix of the name.
\<close>

definition ctx_text :: "ctx \<Rightarrow> bytes" where
  "ctx_text c = take (unat (c_name_len c)) (c_name c)"

definition ctx_named :: "ctx \<Rightarrow> bytes \<Rightarrow> bool" where
  "ctx_named c s \<longleftrightarrow> ctx_wf c \<and> length s \<le> 64 \<and> unat (c_name_len c) = length s \<and> ctx_text c = s"

lemma namei_ext_is_iff:
  assumes "ctx_wf c" "length lit \<le> 64"
  shows "namei_ext_is c lit \<longleftrightarrow> ctx_named c lit"
proof -
  have len: "c_name_len c = of_nat (length lit) \<longleftrightarrow> unat (c_name_len c) = length lit"
    using assms by (auto simp: word_unat_eq_iff unat_of_nat_u32)
  show ?thesis
  proof (cases "unat (c_name_len c) = length lit")
    case True
    have "namei_ext_is c lit \<longleftrightarrow> (\<forall>j<length lit. c_name c ! j = lit ! j)"
      using True len assms
      by (simp add: namei_ext_is_def namei_ext_name_is_def scan_loop_0 min_def unat_of_nat_u32)
    also have "\<dots> \<longleftrightarrow> take (length lit) (c_name c) = lit"
      using assms take_eq_iff_nth [of "length lit" "c_name c" lit] by (simp add: ctx_wf_def)
    finally show ?thesis
      using True assms by (simp add: ctx_named_def ctx_text_def)
  next
    case False
    then show ?thesis
      using len by (auto simp: namei_ext_is_def namei_ext_name_is_def ctx_named_def)
  qed
qed

lemma namei_ext_is_named [policy_simps]:
  assumes "ctx_named c s" "length lit \<le> 64"
  shows "namei_ext_is c lit \<longleftrightarrow> s = lit"
proof -
  from assms have "ctx_wf c" by (simp add: ctx_named_def)
  with assms show ?thesis
    by (auto simp: namei_ext_is_iff ctx_named_def)
qed

lemma namei_ext_is_unique:
  assumes "namei_ext_is c a" "namei_ext_is c b" "length a \<le> 64" "length b \<le> 64"
  shows "a = b"
proof -
  have "(of_nat (length a) :: u32) = of_nat (length b)"
    using assms(1,2) by (simp add: namei_ext_is_def namei_ext_name_is_def split: if_splits)
  then have "unat (of_nat (length a) :: u32) = unat (of_nat (length b) :: u32)" by simp
  then have len: "length a = length b"
    using assms(3,4) by (simp add: unat_of_nat_u32)
  show ?thesis
  proof (rule nth_equalityI [OF len])
    fix i assume "i < length a"
    then have "c_name c ! i = a ! i" "c_name c ! i = b ! i"
      using assms len
      by (auto simp: namei_ext_is_def namei_ext_name_is_def scan_loop_0 unat_of_nat_u32
          split: if_splits)
    then show "a ! i = b ! i" by simp
  qed
qed

lemma init_ctx_named:
  assumes "qstr_wf q" "unat (q_len q) \<le> 64"
  shows "ctx_named (namei_ext_init_ctx b p pi ev fl q) (qstr_text q)"
  using assms namei_ext_init_ctx_wf [OF assms(1)]
  by (simp add: ctx_named_def ctx_text_def namei_ext_init_ctx_name qstr_text_def qstr_wf_def)

lemma ctx_named_cong:
  "same_input c c' \<Longrightarrow> ctx_wf c' \<Longrightarrow> ctx_named c s \<Longrightarrow> ctx_named c' s"
  by (auto simp: ctx_named_def same_input_def ctx_text_def)

lemma ctx_namedD:
  assumes "ctx_named c s"
  shows "ctx_wf c" "length s \<le> 64" "unat (c_name_len c) = length s"
    "take (length s) (c_name c) = s"
  using assms by (auto simp: ctx_named_def ctx_text_def)

lemma ctx_named_upd [simp]:
  "ctx_named (c\<lparr>c_cgroup_id := g\<rparr>) s = ctx_named c s"
  "ctx_named (c\<lparr>c_event := e\<rparr>) s = ctx_named c s"
  "ctx_named (c\<lparr>c_target_id := t\<rparr>) s = ctx_named c s"
  by (simp_all add: ctx_named_def ctx_wf_def ctx_text_def)

lemma namei_ext_is_upd [simp]:
  "namei_ext_is (c\<lparr>c_event := e\<rparr>) s = namei_ext_is c s"
  "namei_ext_is (c\<lparr>c_cgroup_id := g\<rparr>) s = namei_ext_is c s"
  "namei_ext_is (c\<lparr>c_flags := f\<rparr>) s = namei_ext_is c s"
  "namei_ext_is (c\<lparr>c_name_hash := h\<rparr>) s = namei_ext_is c s"
  by (simp_all add: namei_ext_is_def namei_ext_name_is_def)

subsection \<open>The exact component key\<close>

lemma store_loop_all:
  assumes "length xs = n"
  shows "store_loop n (\<lambda>i. True) f xs = map f [0..<n]"
  by (rule nth_equalityI) (use assms in \<open>auto simp: nth_store_loop\<close>)

lemma build_component_key_name:
  assumes "ctx_wf c" "length (k_name key) = 64"
  shows "k_name (namei_ext_build_component_key c key) =
           take (unat (c_name_len c)) (c_name c) @ replicate (64 - unat (c_name_len c)) NUL"
proof (rule nth_equalityI)
  show "length (k_name (namei_ext_build_component_key c key)) =
      length (take (unat (c_name_len c)) (c_name c) @ replicate (64 - unat (c_name_len c)) NUL)"
    using assms by (auto simp: namei_ext_build_component_key_def ctx_wf_def)
next
  fix i assume "i < length (k_name (namei_ext_build_component_key c key))"
  then show "k_name (namei_ext_build_component_key c key) ! i =
      (take (unat (c_name_len c)) (c_name c) @ replicate (64 - unat (c_name_len c)) NUL) ! i"
    using assms
    by (auto simp: namei_ext_build_component_key_def ctx_wf_def store_loop_all nth_append)
qed

definition component_key_of :: "u32 \<Rightarrow> u64 \<Rightarrow> u64 \<Rightarrow> u64 \<Rightarrow> bytes \<Rightarrow> ckey" where
  "component_key_of ev cg dev ino s =
     \<lparr> k_event = ev, k_name_len = of_nat (length s), k_cgroup_id = cg, k_parent_dev = dev,
       k_parent_ino = ino, k_name = s @ replicate (64 - length s) NUL \<rparr>"

lemma build_component_key_named:
  assumes "ctx_named c s"
  shows "namei_ext_build_component_key c zero_component_key =
           component_key_of (c_event c) (c_cgroup_id c) (c_parent_dev c) (c_parent_ino c) s"
proof -
  have l: "c_name_len c = of_nat (length s)"
    using assms by (auto simp: ctx_named_def word_unat_eq_iff unat_of_nat_u32)
  have n: "k_name (namei_ext_build_component_key c zero_component_key) =
      s @ replicate (64 - length s) NUL"
    using ctx_namedD [OF assms] build_component_key_name [of c zero_component_key]
    by (simp add: zero_component_key_def)
  show ?thesis
    using l n
    by (simp add: namei_ext_build_component_key_def component_key_of_def zero_component_key_def)
qed

lemma component_key_of_inject:
  assumes "length s \<le> 64" "length t \<le> 64"
  shows "component_key_of ev cg d i s = component_key_of ev' cg' d' i' t \<longleftrightarrow>
           ev = ev' \<and> cg = cg' \<and> d = d' \<and> i = i' \<and> s = t"
proof -
  have "(of_nat (length s) :: u32) = of_nat (length t) \<longleftrightarrow> length s = length t"
    using assms by (simp add: word_unat_eq_iff unat_of_nat_u32)
  then show ?thesis
    using assms by (auto simp: component_key_of_def)
qed

lemma build_component_key_fields [simp]:
  "k_event (namei_ext_build_component_key c k) = c_event c"
  "k_name_len (namei_ext_build_component_key c k) = c_name_len c"
  "k_cgroup_id (namei_ext_build_component_key c k) = c_cgroup_id c"
  "k_parent_dev (namei_ext_build_component_key c k) = c_parent_dev c"
  "k_parent_ino (namei_ext_build_component_key c k) = c_parent_ino c"
  by (simp_all add: namei_ext_build_component_key_def)

lemma build_component_key_event [simp]:
  "(namei_ext_build_component_key (c\<lparr>c_event := e\<rparr>) k)\<lparr>k_event := e'\<rparr> =
   (namei_ext_build_component_key c k)\<lparr>k_event := e'\<rparr>"
  by (simp add: namei_ext_build_component_key_def cong: if_cong)

lemma build_component_key_flags [simp]:
  "namei_ext_build_component_key (c\<lparr>c_flags := f\<rparr>) k = namei_ext_build_component_key c k"
  "namei_ext_build_component_key (c\<lparr>c_name_hash := h\<rparr>) k = namei_ext_build_component_key c k"
  by (simp_all add: namei_ext_build_component_key_def cong: if_cong)

subsection \<open>Writing a replacement\<close>

lemma set_redirect_input [simp]: "same_input c (namei_ext_set_redirect c t l)"
  by (simp add: namei_ext_set_redirect_def)

lemma set_redirect_wf [simp]: "ctx_wf (namei_ext_set_redirect c t l) = ctx_wf c"
  by (simp add: namei_ext_set_redirect_def ctx_wf_def)

lemma redirect_literal_input [simp]: "same_input c (namei_ext_redirect_literal c l)"
  by (simp add: namei_ext_redirect_literal_def)

lemma redirect_literal_wf [simp]: "ctx_wf (namei_ext_redirect_literal c l) = ctx_wf c"
  by (simp add: namei_ext_redirect_literal_def)

lemma set_redirect_text:
  assumes "ctx_wf c" "unat len \<le> length t" "unat len \<le> 64"
  shows "redirect_text (namei_ext_set_redirect c t len) = take (unat len) t"
  using assms
  by (simp add: redirect_text_def namei_ext_set_redirect_def ctx_wf_def store_loop_take_drop)

lemma redirect_literal_text:
  assumes "ctx_wf c" "length lit \<le> 64"
  shows "redirect_text (namei_ext_redirect_literal c lit) = lit"
  using assms set_redirect_text [of c "of_nat (length lit)" lit]
  by (simp add: namei_ext_redirect_literal_def unat_of_nat_u32)

lemma redirect_literal_len:
  "length lit \<le> 64 \<Longrightarrow> unat (c_redirect_name_len (namei_ext_redirect_literal c lit)) = length lit"
  by (simp add: namei_ext_redirect_literal_def namei_ext_set_redirect_def unat_of_nat_u32)

lemma redirect_literal_valid:
  assumes "ctx_wf c" "single_component lit"
  shows "namei_ext_redirect_valid (namei_ext_redirect_literal c lit)"
  using assms redirect_literal_text [of c lit] redirect_literal_len [of lit c]
  by (simp add: redirect_valid_iff single_component_def)

lemma apply_rule_cases:
  obtains (PASS) "namei_ext_apply_rule c r = (BPF_NAMEI_EXT_PASS, c)"
  | (HIDE) "namei_ext_apply_rule c r = (BPF_NAMEI_EXT_HIDE, c)"
  | (REDIRECT) q where "r = Some q" "r_action q = BPF_NAMEI_EXT_REDIRECT"
      "namei_ext_apply_rule c r =
         (BPF_NAMEI_EXT_REDIRECT, namei_ext_set_redirect c (r_target q) (r_target_len q))"
proof (cases r)
  case None
  then show thesis by (intro PASS) (simp add: namei_ext_apply_rule_def)
next
  case (Some q)
  then show thesis
    by (cases "r_action q = BPF_NAMEI_EXT_HIDE"; cases "r_action q = BPF_NAMEI_EXT_REDIRECT")
       (use PASS HIDE REDIRECT in \<open>auto simp: namei_ext_apply_rule_def\<close>)
qed

lemma apply_rule_input [simp]: "same_input c (snd (namei_ext_apply_rule c r))"
  by (rule apply_rule_cases [of c r]) auto

lemma apply_rule_wf [simp]: "ctx_wf (snd (namei_ext_apply_rule c r)) = ctx_wf c"
  by (rule apply_rule_cases [of c r]) auto

lemma apply_rule_range: "fst (namei_ext_apply_rule c r) \<le> 2"
  by (rule apply_rule_cases [of c r]) (auto simp: word_le_nat_alt)

text \<open>What a rule may do: answer, and write the replacement component.\<close>

definition decision_ok :: "ctx \<Rightarrow> u32 \<times> ctx \<Rightarrow> bool" where
  "decision_ok c r \<longleftrightarrow>
     unat (fst r) \<le> 2 \<and> same_input c (snd r) \<and> ctx_wf (snd r) = ctx_wf c"

lemma decision_ok_keep [simp]: "unat a \<le> 2 \<Longrightarrow> decision_ok c (a, c)"
  by (simp add: decision_ok_def)

lemma decision_ok_literal [simp]: "unat a \<le> 2 \<Longrightarrow> decision_ok c (a, namei_ext_redirect_literal c l)"
  by (simp add: decision_ok_def)

lemma decision_ok_apply_rule [simp]: "decision_ok c (namei_ext_apply_rule c r)"
  using apply_rule_range [of c r] by (simp add: decision_ok_def word_le_nat_alt)

lemma decision_ok_trans:
  "decision_ok c r \<Longrightarrow> decision_ok (snd r) r' \<Longrightarrow> decision_ok c r'"
  by (auto simp: decision_ok_def intro: same_input_trans)

lemma decision_ok_range: "decision_ok c r \<Longrightarrow> fst r \<le> BPF_NAMEI_EXT_SELECT_TARGET"
  by (simp add: decision_ok_def word_le_nat_alt)

subsection \<open>The contract between the kernel and a program\<close>

locale namei_policy =
  fixes run :: "'m policy"
  assumes action_range: "fst (run c m) \<le> BPF_NAMEI_EXT_SELECT_TARGET"
    and input_frame: "same_input c (fst (snd (run c m)))"
    and keeps_wf: "ctx_wf c \<Longrightarrow> ctx_wf (fst (snd (run c m)))"
begin

lemma action_cases:
  "fst (run c m) = 0 \<or> fst (run c m) = 1 \<or> fst (run c m) = 2 \<or> fst (run c m) = 3"
proof -
  have "unat (fst (run c m)) \<le> 3"
    using action_range [of c m] by (simp add: word_le_nat_alt)
  then have "unat (fst (run c m)) = 0 \<or> unat (fst (run c m)) = 1 \<or>
      unat (fst (run c m)) = 2 \<or> unat (fst (run c m)) = 3" by auto
  then show ?thesis by (simp add: word_unat_eq_iff)
qed

lemma name_kept: "ctx_named c s \<Longrightarrow> ctx_named (fst (snd (run c m))) s"
  using input_frame [of c m] keeps_wf [of c m] ctx_named_cong [of c "fst (snd (run c m))" s]
  by (simp add: ctx_named_def)

end

subsection \<open>Policies with counters, policies that hide\<close>

text \<open>A program that answers by one rule and keeps its maps.\<close>

lemma namei_policyI:
  assumes "\<And>c m. \<exists>r. decision_ok c r \<and> run c m = (fst r, snd r, m)"
  shows "namei_policy run"
proof
  fix c m
  obtain r where r: "decision_ok c r" "run c m = (fst r, snd r, m)"
    using assms by blast
  then show "fst (run c m) \<le> BPF_NAMEI_EXT_SELECT_TARGET"
    by (simp add: decision_ok_range del: abi_codes)
  show "same_input c (fst (snd (run c m)))" and "ctx_wf c \<Longrightarrow> ctx_wf (fst (snd (run c m)))"
    using r by (simp_all add: decision_ok_def)
qed

text \<open>
  \<open>run_trace\<close> feeds a sequence of events through one program, threading its maps.
\<close>

fun run_trace :: "'m policy \<Rightarrow> ctx list \<Rightarrow> 'm \<Rightarrow> u32 list \<times> 'm" where
  "run_trace run [] m = ([], m)"
| "run_trace run (c # cs) m =
     (let (action, c', m') = run c m; (actions, m'') = run_trace run cs m'
      in (action # actions, m''))"

text \<open>
  A program with a counter array that has a counter for every event it handles
  (\<open>total\<close>) and one for each verdict.
\<close>

definition verdict_sum :: "nat list \<Rightarrow> u64 list \<Rightarrow> u64" where
  "verdict_sum vs xs = sum_list (map (\<lambda>i. xs ! i) vs)"

locale counting_policy = namei_policy run
  for run :: "'m policy" +
  fixes counters :: "'m \<Rightarrow> u64 list" and nr :: nat and total :: nat and verdicts :: "nat list"
  assumes counters_length: "length (counters (snd (snd (run c m)))) = length (counters m)"
    and counters_step:
      "length (counters m) = nr \<Longrightarrow>
         counters (snd (snd (run c m))) ! total -
           verdict_sum verdicts (counters (snd (snd (run c m)))) =
         counters m ! total - verdict_sum verdicts (counters m)"
begin

lemma balanced_step:
  assumes "length (counters m) = nr" "counters m ! total = verdict_sum verdicts (counters m)"
  shows "counters (snd (snd (run c m))) ! total =
           verdict_sum verdicts (counters (snd (snd (run c m))))"
  using counters_step [OF assms(1), of c] assms(2) by simp

lemma balanced_trace:
  assumes "length (counters m) = nr" "counters m ! total = verdict_sum verdicts (counters m)"
  shows "length (counters (snd (run_trace run cs m))) = nr \<and>
         counters (snd (run_trace run cs m)) ! total =
           verdict_sum verdicts (counters (snd (run_trace run cs m)))"
  using assms
proof (induction cs arbitrary: m)
  case Nil
  then show ?case by simp
next
  case (Cons c cs)
  then show ?case
    using balanced_step [of m c] counters_length [of c m] by (auto simp: split_beta Let_def)
qed

end

text \<open>
  A program whose verdict depends on the context (but not on the lookup flags and the
  name hash) and on its rules, which it never changes, and that hides a name from
  enumeration exactly when it hides it from lookup.
\<close>

abbreviation as_lookup :: "ctx \<Rightarrow> ctx" where
  "as_lookup c \<equiv> c\<lparr>c_event := BPF_NAMEI_EXT_LOOKUP\<rparr>"

abbreviation as_readdir :: "ctx \<Rightarrow> ctx" where
  "as_readdir c \<equiv> c\<lparr>c_event := BPF_NAMEI_EXT_READDIR\<rparr>"

locale coherent_policy = namei_policy run
  for run :: "'m policy" +
  fixes rules :: "'m \<Rightarrow> 'r"
  assumes rules_kept: "rules (snd (snd (run c m))) = rules m"
    and verdict_by_rules: "rules m = rules m' \<Longrightarrow> fst (run c m) = fst (run c m')"
    and ignores_flags: "fst (run (c\<lparr>c_flags := f, c_name_hash := h\<rparr>) m) = fst (run c m)"
    and coherent:
      "fst (run (as_lookup c) m) = BPF_NAMEI_EXT_HIDE \<longleftrightarrow>
       fst (run (as_readdir c) m) = BPF_NAMEI_EXT_HIDE"
begin

lemma rules_trace: "rules (snd (run_trace run cs m)) = rules m"
  by (induction cs arbitrary: m) (auto simp: split_beta Let_def rules_kept)

text \<open>The verdicts of a trace are those of its events taken one at a time.\<close>

lemma verdicts_trace:
  "rules m0 = rules m \<Longrightarrow> fst (run_trace run cs m) = map (\<lambda>c. fst (run c m0)) cs"
proof (induction cs arbitrary: m)
  case Nil
  then show ?case by simp
next
  case (Cons c cs)
  then show ?case
    using verdict_by_rules [OF Cons.prems, of c] rules_kept [of c m]
    by (simp add: split_beta Let_def)
qed

lemma readdir_hidden_iff_lookup_hidden:
  assumes "rules m = rules m'"
  shows "fst (run (as_readdir c) m) = BPF_NAMEI_EXT_HIDE \<longleftrightarrow>
         fst (run (as_lookup c) m') = BPF_NAMEI_EXT_HIDE"
  using coherent [of c m] verdict_by_rules [OF assms, of "as_lookup c"] by simp

end

end
