(* ===== verification/Kernel_State.thy ===== *)
theory Kernel_State
  imports Policy_Lib
begin

text \<open>
  The state of the kernel mechanism as one record, shared by the target registry, the
  policy-parent scopes, the attachment code and the path walk: the two hash tables of
  \<open>fs/namei_ext.c\<close>, the scope counters, the \<open>struct cgroup_bpf\<close> of every cgroup and the
  reference counts of paths and cgroups.

  A cgroup is named by its id. The hash function of \<open>linux/hashtable.h\<close> is outside the
  sources: it is the argument \<open>hb\<close> of the definitions that use a table, from a key to
  one of \<open>2 ^ 8\<close> buckets, and nothing is assumed of it. A bucket (\<open>struct hlist_head\<close>) is
  the list of its nodes.
\<close>

subsection \<open>Structures\<close>

type_synonym bucket = "8 word"
type_synonym hashfn = "u64 \<Rightarrow> bucket"

record namei_ext_target =
  t_cg_id :: u64
  t_target_id :: u32
  t_path :: path

text \<open>
  \<open>struct namei_ext_scope_set\<close>: its address and the paths of its entries; \<open>nr\<close> is their
  number. The node of entry \<open>i\<close> is known by the address of the set and \<open>i\<close>.
  \<open>namei_ext_scope_tombstone\<close> is the static set at address \<open>0\<close>.
\<close>

record namei_ext_scope_set =
  ss_addr :: nat
  ss_entries :: "path list"

type_synonym scope_node = "nat \<times> nat"

definition ss_nr :: "namei_ext_scope_set \<Rightarrow> u32" where
  "ss_nr s = of_nat (length (ss_entries s))"

definition namei_ext_scope_tombstone :: namei_ext_scope_set where
  "namei_ext_scope_tombstone = \<lparr> ss_addr = 0, ss_entries = [] \<rparr>"

text \<open>
  \<open>struct bpf_prog_list\<close>: a program attached directly or through a link.
\<close>

record bpf_prog_list =
  pl_prog :: "u64 option"
  pl_link :: "u64 option"
  pl_flags :: u32

text \<open>
  The part of \<open>struct cgroup_bpf\<close> that concerns \<open>CGROUP_NAMEI_EXT\<close>, with the facts of the
  cgroup core the code asks for: the ancestors (nearest first), whether it is dead,
  whether the percpu reference count is still live and whether it has reached zero.
\<close>

record cgroup_bpf =
  cb_ancestors :: "u64 list"
  cb_dead :: bool
  cb_ref_live :: bool
  cb_ref_zero :: bool
  cb_progs :: "bpf_prog_list list"
  cb_flags :: u32
  cb_revision :: u64
  cb_effective :: "u64 option list"
  cb_scopes :: "namei_ext_scope_set option"
  cb_owner :: "u64 option"
  cb_scope_active :: bool

text \<open>
  The kernel's tables. \<open>ks_f_opened\<close> and \<open>ks_f_created\<close> are the bits \<^verbatim>\<open>FMODE_OPENED\<close> and
  \<^verbatim>\<open>FMODE_CREATED\<close> of the file the task is opening.
\<close>

record kstate =
  namei_ext_targets :: "bucket \<Rightarrow> namei_ext_target list"
  namei_ext_scope_index :: "bucket \<Rightarrow> (scope_node \<times> path) list"
  namei_ext_global_scope_users :: u32
  namei_ext_exact_scope_users :: u32
  ks_next_addr :: nat
  ks_cgroups :: "u64 \<Rightarrow> cgroup_bpf"
  ks_links :: "u64 \<Rightarrow> u64"
  ks_link_cgroup :: "u64 \<Rightarrow> u64 option"
  ks_online :: "u64 list"
  ks_enabled :: int
  ks_path_refs :: "path \<Rightarrow> int"
  ks_cgroup_refs :: "u64 \<Rightarrow> int"
  ks_bpf_refs :: "u64 \<Rightarrow> int"
  ks_f_opened :: bool
  ks_f_created :: bool

subsection \<open>Reference counts\<close>

definition path_get :: "path \<Rightarrow> kstate \<Rightarrow> kstate" where
  "path_get p st = st\<lparr>ks_path_refs := (ks_path_refs st)(p := ks_path_refs st p + 1)\<rparr>"

definition path_put :: "path \<Rightarrow> kstate \<Rightarrow> kstate" where
  "path_put p st = st\<lparr>ks_path_refs := (ks_path_refs st)(p := ks_path_refs st p - 1)\<rparr>"

definition path_put_list :: "path list \<Rightarrow> kstate \<Rightarrow> kstate" where
  "path_put_list ps st = fold path_put ps st"

definition path_get_list :: "path list \<Rightarrow> kstate \<Rightarrow> kstate" where
  "path_get_list ps st = fold path_get ps st"

lemma path_put_list_eq:
  "path_put_list ps st =
     st\<lparr>ks_path_refs := (\<lambda>q. ks_path_refs st q - int (count_list ps q))\<rparr>"
proof -
  have "fold path_put ps st =
      st\<lparr>ks_path_refs := (\<lambda>q. ks_path_refs st q - int (count_list ps q))\<rparr>"
    by (induction ps arbitrary: st) (auto simp: path_put_def fun_eq_iff intro!: kstate.equality)
  then show ?thesis by (simp add: path_put_list_def)
qed

lemma path_get_list_eq:
  "path_get_list ps st =
     st\<lparr>ks_path_refs := (\<lambda>q. ks_path_refs st q + int (count_list ps q))\<rparr>"
proof -
  have "fold path_get ps st =
      st\<lparr>ks_path_refs := (\<lambda>q. ks_path_refs st q + int (count_list ps q))\<rparr>"
    by (induction ps arbitrary: st) (auto simp: path_get_def fun_eq_iff intro!: kstate.equality)
  then show ?thesis by (simp add: path_get_list_def)
qed

lemma path_get_eq:
  "path_get p st = st\<lparr>ks_path_refs := (\<lambda>q. ks_path_refs st q + of_bool (q = p))\<rparr>"
  by (auto simp: path_get_def fun_eq_iff intro!: kstate.equality)

lemma path_put_eq:
  "path_put p st = st\<lparr>ks_path_refs := (\<lambda>q. ks_path_refs st q - of_bool (q = p))\<rparr>"
  by (auto simp: path_put_def fun_eq_iff intro!: kstate.equality)

lemmas refs_eq = path_put_list_eq path_get_list_eq path_get_eq path_put_eq

definition cgroup_bpf_get :: "u64 \<Rightarrow> kstate \<Rightarrow> kstate" where
  "cgroup_bpf_get cg st = st\<lparr>ks_bpf_refs := (ks_bpf_refs st)(cg := ks_bpf_refs st cg + 1)\<rparr>"

definition cgroup_bpf_put :: "u64 \<Rightarrow> kstate \<Rightarrow> kstate" where
  "cgroup_bpf_put cg st = st\<lparr>ks_bpf_refs := (ks_bpf_refs st)(cg := ks_bpf_refs st cg - 1)\<rparr>"

definition cgroup_get :: "u64 \<Rightarrow> kstate \<Rightarrow> kstate" where
  "cgroup_get cg st = st\<lparr>ks_cgroup_refs := (ks_cgroup_refs st)(cg := ks_cgroup_refs st cg + 1)\<rparr>"

definition cgroup_put :: "u64 \<Rightarrow> kstate \<Rightarrow> kstate" where
  "cgroup_put cg st = st\<lparr>ks_cgroup_refs := (ks_cgroup_refs st)(cg := ks_cgroup_refs st cg - 1)\<rparr>"

lemmas cgroup_ref_defs =
  cgroup_bpf_get_def cgroup_bpf_put_def cgroup_get_def cgroup_put_def

text \<open>
  \<open>namei_ext_current_cgroup\<close>: the current task's cgroup with both references taken, or
  nothing. \<open>tryget\<close> is whether \<open>cgroup_tryget\<close> succeeds.
\<close>

definition namei_ext_current_cgroup :: "u64 \<Rightarrow> bool \<Rightarrow> kstate \<Rightarrow> u64 option \<times> kstate" where
  "namei_ext_current_cgroup current tryget st =
     (if \<not> cb_ref_live (ks_cgroups st current) then (None, st)
      else let st = cgroup_bpf_get current st in
        if \<not> tryget then (None, cgroup_bpf_put current st)
        else (Some current, cgroup_get current st))"

definition namei_ext_put_cgroup :: "u64 \<Rightarrow> kstate \<Rightarrow> kstate" where
  "namei_ext_put_cgroup cg st = cgroup_put cg (cgroup_bpf_put cg st)"

lemma namei_ext_current_cgroup_None:
  "namei_ext_current_cgroup cur tg st = (None, st') \<Longrightarrow> st' = st"
  by (auto simp: namei_ext_current_cgroup_def cgroup_ref_defs Let_def split: if_splits)

lemma namei_ext_current_cgroup_Some:
  "namei_ext_current_cgroup cur tg st = (Some cg, st') \<Longrightarrow>
     cg = cur \<and> st' = cgroup_get cur (cgroup_bpf_get cur st)"
  by (auto simp: namei_ext_current_cgroup_def Let_def split: if_splits)

lemma put_cgroup_balance:
  "namei_ext_put_cgroup cg (cgroup_get cg (cgroup_bpf_get cg st)) = st"
  by (simp add: namei_ext_put_cgroup_def cgroup_ref_defs)

subsection \<open>Cgroups\<close>

definition upd_cgroup :: "u64 \<Rightarrow> (cgroup_bpf \<Rightarrow> cgroup_bpf) \<Rightarrow> kstate \<Rightarrow> kstate" where
  "upd_cgroup cg f st = st\<lparr>ks_cgroups := (ks_cgroups st)(cg := f (ks_cgroups st cg))\<rparr>"

definition cgroup_is_dead :: "u64 \<Rightarrow> kstate \<Rightarrow> bool" where
  "cgroup_is_dead cg st = cb_dead (ks_cgroups st cg)"

text \<open>The cgroups on the way to the root, the cgroup itself first.\<close>

definition cgroup_chain :: "u64 \<Rightarrow> kstate \<Rightarrow> u64 list" where
  "cgroup_chain cg st = cg # cb_ancestors (ks_cgroups st cg)"

text \<open>
  The environment of the two debugfs writes, with what they call outside the sources:
  \<open>we_copy\<close> is the user buffer (\<open>None\<close> when \<open>copy_from_user\<close> faults), \<open>we_streq\<close> is
  \<open>sysfs_streq\<close>, \<open>we_scan_uu\<close> is \<^verbatim>\<open>sscanf(kbuf, "%u %u", ...)\<close> (\<open>None\<close> unless both fields
  convert), \<open>we_scan_suc\<close> is \<^verbatim>\<open>sscanf(kbuf, "%15s %u %c", ...)\<close> with the number of fields
  it converts, \<open>we_fd\<close> is the path of an open file descriptor and \<open>we_can_lookup\<close> is
  \<open>d_can_lookup\<close>.
\<close>

record write_env =
  we_current :: u64
  we_tryget :: bool
  we_alloc :: bool
  we_copy :: "u64 \<Rightarrow> bytes option"
  we_streq :: "bytes \<Rightarrow> bytes \<Rightarrow> bool"
  we_scan_uu :: "bytes \<Rightarrow> (u32 \<times> u32) option"
  we_scan_suc :: "bytes \<Rightarrow> bytes \<times> u32 \<times> nat"
  we_fd :: "u32 \<Rightarrow> path option"
  we_can_lookup :: "u64 \<Rightarrow> bool"

text \<open>A nul-terminated buffer holds the string up to the first terminator.\<close>

definition cstr :: "bytes \<Rightarrow> bytes" where
  "cstr b = takeWhile (\<lambda>x. x \<noteq> NUL) b"

end
