(* ===== verification/Targets.thy ===== *)
theory Targets
  imports Kernel_State
begin

text \<open>
  The target registry of \<open>fs/namei_ext.c\<close>: registering, replacing, clearing and finding
  the paths a policy may select by an opaque id, and the debugfs file that drives it.
  The hash table refines a finite map from (cgroup, id) to path; the locale
  \<open>target_registry\<close> is what the path walk relies on, and \<open>registry\<close> interprets it on the
  table.
\<close>

subsection \<open>Operations\<close>

definition namei_ext_target_key :: "u64 \<Rightarrow> u32 \<Rightarrow> u64" where
  "namei_ext_target_key cgroup_id target_id =
     cgroup_id XOR push_bit 32 (ucast target_id) XOR ucast target_id"

definition target_is :: "u64 \<Rightarrow> u32 \<Rightarrow> namei_ext_target \<Rightarrow> bool" where
  "target_is cg tid t \<longleftrightarrow> \<not> (t_cg_id t \<noteq> cg \<or> t_target_id t \<noteq> tid)"

text \<open>
  \<open>hash_for_each_possible\<close> with \<open>hlist_replace_rcu\<close> and \<open>break\<close>: the first matching node is
  replaced in place and returned.
\<close>

fun hlist_replace_first ::
  "('a \<Rightarrow> bool) \<Rightarrow> 'a \<Rightarrow> 'a list \<Rightarrow> 'a option \<times> 'a list" where
  "hlist_replace_first p new [] = (None, [])"
| "hlist_replace_first p new (t # ts) =
     (if p t then (Some t, new # ts)
      else let (old_target, ts') = hlist_replace_first p new ts in (old_target, t # ts'))"

definition namei_ext_register_target ::
  "hashfn \<Rightarrow> bool \<Rightarrow> u64 \<Rightarrow> u32 \<Rightarrow> path \<Rightarrow> kstate \<Rightarrow> errno option \<times> kstate" where
  "namei_ext_register_target hb alloc cgrp target_id path st =
     (if target_id = 0 \<or> p_mnt path = 0 \<or> p_dentry path = 0 then (Some EINVAL, st)
      else if \<not> alloc then (Some ENOMEM, st)
      else
        let new_target = \<lparr> t_cg_id = cgrp, t_target_id = target_id, t_path = path \<rparr>;
            b = hb (namei_ext_target_key cgrp target_id)
        in
        if cgroup_is_dead cgrp st then (Some ENODEV, st)
        else
          case hlist_replace_first (target_is cgrp target_id) new_target
                 (namei_ext_targets st b) of
            (Some old_target, ts) \<Rightarrow>
              (None, path_put (t_path old_target)
                       (st\<lparr>namei_ext_targets := (namei_ext_targets st)(b := ts)\<rparr>))
          | (None, ts) \<Rightarrow>
              (None, st\<lparr>namei_ext_targets :=
                          (namei_ext_targets st)(b := new_target # namei_ext_targets st b)\<rparr>))"

definition all_buckets :: "bucket list" where
  "all_buckets = map of_nat [0..<256]"

text \<open>
  One bucket of \<open>hash_for_each_safe\<close>: the cgroup's targets leave the table and are put at
  the head of the retired list one by one.
\<close>

definition clear_bucket ::
  "u64 \<Rightarrow> bucket \<Rightarrow> (bucket \<Rightarrow> namei_ext_target list) \<times> namei_ext_target list
     \<Rightarrow> (bucket \<Rightarrow> namei_ext_target list) \<times> namei_ext_target list" where
  "clear_bucket cg b s =
     (case s of (tbl, retired) \<Rightarrow>
        (tbl(b := filter (\<lambda>t. t_cg_id t \<noteq> cg) (tbl b)),
         rev (filter (\<lambda>t. t_cg_id t = cg) (tbl b)) @ retired))"

definition namei_ext_clear_targets :: "u64 \<Rightarrow> kstate \<Rightarrow> kstate" where
  "namei_ext_clear_targets cg st =
     (let (tbl, retired) = fold (clear_bucket cg) all_buckets (namei_ext_targets st, []);
          st = st\<lparr>namei_ext_targets := tbl\<rparr>
      in if retired = [] then st else path_put_list (map t_path retired) st)"

definition namei_ext_find_target_rcu ::
  "hashfn \<Rightarrow> u64 \<Rightarrow> u32 \<Rightarrow> kstate \<Rightarrow> namei_ext_target option" where
  "namei_ext_find_target_rcu hb cg tid st =
     find (target_is cg tid) (namei_ext_targets st (hb (namei_ext_target_key cg tid)))"

definition namei_ext_get_target ::
  "hashfn \<Rightarrow> u64 \<Rightarrow> u32 \<Rightarrow> kstate \<Rightarrow> (errno + path) \<times> kstate" where
  "namei_ext_get_target hb cg tid st =
     (if tid = 0 then (Inl EINVAL, st)
      else case namei_ext_find_target_rcu hb cg tid st of
             None \<Rightarrow> (Inl ENOENT, st)
           | Some target \<Rightarrow> (Inr (t_path target), path_get (t_path target) st))"

definition namei_ext_register_target_write ::
  "hashfn \<Rightarrow> write_env \<Rightarrow> u64 \<Rightarrow> kstate \<Rightarrow> (errno + u64) \<times> kstate" where
  "namei_ext_register_target_write hb env count st =
     (if count = 0 \<or> count \<ge> 64 then (Inl EINVAL, st)
      else case we_copy env count of
        None \<Rightarrow> (Inl EFAULT, st)
      | Some buf \<Rightarrow>
          let kbuf = cstr buf in
          case namei_ext_current_cgroup (we_current env) (we_tryget env) st of
            (None, st) \<Rightarrow> (Inl ENODEV, st)
          | (Some cgrp, st) \<Rightarrow>
              if we_streq env kbuf ''clear'' then
                (Inr count, namei_ext_put_cgroup cgrp (namei_ext_clear_targets cgrp st))
              else
                case we_scan_uu env kbuf of
                  None \<Rightarrow> (Inl EINVAL, namei_ext_put_cgroup cgrp st)
                | Some (target_id, fd_num) \<Rightarrow>
                    (case we_fd env fd_num of
                       None \<Rightarrow> (Inl EBADF, namei_ext_put_cgroup cgrp st)
                     | Some path \<Rightarrow>
                         let st = path_get path st;
                             (ret, st) = namei_ext_register_target hb (we_alloc env) cgrp
                                           target_id path st;
                             st = (if ret \<noteq> None then path_put path st else st);
                             st = namei_ext_put_cgroup cgrp st
                         in (case ret of Some e \<Rightarrow> (Inl e, st) | None \<Rightarrow> (Inr count, st))))"

subsection \<open>The hash table holds each key once, in its bucket\<close>

definition bucket_wf :: "hashfn \<Rightarrow> bucket \<Rightarrow> namei_ext_target list \<Rightarrow> bool" where
  "bucket_wf hb b ts \<longleftrightarrow>
     distinct (map (\<lambda>t. (t_cg_id t, t_target_id t)) ts) \<and>
     (\<forall>t\<in>set ts. hb (namei_ext_target_key (t_cg_id t) (t_target_id t)) = b \<and>
        t_target_id t \<noteq> 0 \<and> p_mnt (t_path t) \<noteq> 0 \<and> p_dentry (t_path t) \<noteq> 0)"

definition targets_wf :: "hashfn \<Rightarrow> kstate \<Rightarrow> bool" where
  "targets_wf hb st \<longleftrightarrow> (\<forall>b. bucket_wf hb b (namei_ext_targets st b))"

definition target_path :: "hashfn \<Rightarrow> kstate \<Rightarrow> u64 \<Rightarrow> u32 \<Rightarrow> path option" where
  "target_path hb st cg tid = map_option t_path (namei_ext_find_target_rcu hb cg tid st)"

lemma all_buckets_UNIV: "set all_buckets = UNIV"
proof -
  have "b \<in> set all_buckets" for b :: bucket
  proof -
    have "unat b < 256" using unsigned_less [of b] by simp
    then have "of_nat (unat b) \<in> set all_buckets"
      unfolding all_buckets_def set_map set_upt by (intro imageI) simp
    then show ?thesis by simp
  qed
  then show ?thesis by auto
qed

lemma distinct_all_buckets: "distinct all_buckets"
  unfolding all_buckets_def
proof (rule distinct_map [THEN iffD2], intro conjI inj_onI)
  fix x y assume "x \<in> set [0..<256]" "y \<in> set [0..<256]" "(of_nat x :: bucket) = of_nat y"
  then have "unat (of_nat x :: bucket) = unat (of_nat y :: bucket)"
    "x < 256" "y < 256" by simp_all
  then show "x = y" by (simp add: unat_of_nat take_bit_nat_eq_self)
qed simp

lemma fold_clear_bucket:
  "distinct bs \<Longrightarrow>
     fst (fold (clear_bucket cg) bs (tbl, r)) =
       (\<lambda>b. if b \<in> set bs then filter (\<lambda>t. t_cg_id t \<noteq> cg) (tbl b) else tbl b) \<and>
     snd (fold (clear_bucket cg) bs (tbl, r)) =
       rev (concat (map (\<lambda>b. filter (\<lambda>t. t_cg_id t = cg) (tbl b)) bs)) @ r"
proof (induction bs arbitrary: tbl r)
  case Nil
  then show ?case by simp
next
  case (Cons b bs)
  have "map (\<lambda>b'. filter (\<lambda>t. t_cg_id t = cg)
          ((tbl(b := filter (\<lambda>t. t_cg_id t \<noteq> cg) (tbl b))) b')) bs =
        map (\<lambda>b'. filter (\<lambda>t. t_cg_id t = cg) (tbl b')) bs"
    using Cons.prems by (intro map_cong) auto
  with Cons show ?case
    by (auto simp: clear_bucket_def fun_eq_iff intro!: arg_cong [of _ _ concat] map_cong)
qed

definition retired_targets :: "u64 \<Rightarrow> kstate \<Rightarrow> namei_ext_target list" where
  "retired_targets cg st =
     concat (map (\<lambda>b. filter (\<lambda>t. t_cg_id t = cg) (namei_ext_targets st b)) all_buckets)"

lemma clear_targets_eq:
  "namei_ext_clear_targets cg st =
     path_put_list (map t_path (retired_targets cg st))
       (st\<lparr>namei_ext_targets := \<lambda>b. filter (\<lambda>t. t_cg_id t \<noteq> cg) (namei_ext_targets st b)\<rparr>)"
proof -
  have c: "count_list (map t_path (rev xs)) q = count_list (map t_path xs) q"
    for xs :: "namei_ext_target list" and q
    by (induction xs) auto
  show ?thesis
    using fold_clear_bucket [OF distinct_all_buckets, of cg "namei_ext_targets st" "[]"]
    by (auto simp: namei_ext_clear_targets_def split_beta Let_def all_buckets_UNIV
        retired_targets_def path_put_list_eq rev_map [symmetric] c fun_eq_iff
        simp del: rev_concat intro!: kstate.equality)
qed

subsection \<open>The table refines a map\<close>

lemma replace_first_None:
  "fst (hlist_replace_first p new ts) = None \<longleftrightarrow> (\<forall>t\<in>set ts. \<not> p t)"
  by (induction ts) (auto simp: split_beta)

lemma replace_first_Some:
  "hlist_replace_first p new ts = (Some old, ts') \<Longrightarrow>
     \<exists>xs ys. ts = xs @ old # ys \<and> ts' = xs @ new # ys \<and> p old \<and> (\<forall>x\<in>set xs. \<not> p x)"
proof (induction ts arbitrary: ts')
  case Nil
  then show ?case by simp
next
  case (Cons t ts)
  show ?case
  proof (cases "p t")
    case True
    then show ?thesis using Cons.prems by (intro exI [of _ "[]"] exI [of _ ts]) auto
  next
    case False
    then obtain ts'' where ts'': "hlist_replace_first p new ts = (Some old, ts'')" "ts' = t # ts''"
      using Cons.prems by (cases "hlist_replace_first p new ts") auto
    then obtain xs ys where "ts = xs @ old # ys" "ts'' = xs @ new # ys" "p old" "\<forall>x\<in>set xs. \<not> p x"
      using Cons.IH by blast
    with ts'' False show ?thesis
      by (intro exI [of _ "t # xs"] exI [of _ ys]) auto
  qed
qed

lemma target_is_iff [simp]:
  "target_is cg tid t \<longleftrightarrow> t_cg_id t = cg \<and> t_target_id t = tid"
  by (auto simp: target_is_def)

lemma find_None_all: "\<forall>x\<in>set xs. \<not> p x \<Longrightarrow> find p xs = None"
  by (induction xs) auto

lemma find_skip: "\<forall>x\<in>set xs. \<not> p x \<Longrightarrow> find p (xs @ ys) = find p ys"
  by (induction xs) auto

lemma find_middle: "\<not> p a \<Longrightarrow> \<not> p b \<Longrightarrow> find p (xs @ a # ys) = find p (xs @ b # ys)"
  by (induction xs) auto

lemma find_filter: "(\<And>x. p x \<Longrightarrow> q x) \<Longrightarrow> find p (filter q xs) = find p xs"
  by (induction xs) auto

definition register_accepts :: "bool \<Rightarrow> u64 \<Rightarrow> u32 \<Rightarrow> path \<Rightarrow> kstate \<Rightarrow> bool" where
  "register_accepts alloc cg tid p st \<longleftrightarrow>
     tid \<noteq> 0 \<and> p_mnt p \<noteq> 0 \<and> p_dentry p \<noteq> 0 \<and> alloc \<and> \<not> cgroup_is_dead cg st"

lemma register_target_refused:
  "\<not> register_accepts alloc cg tid p st \<Longrightarrow>
     \<exists>e. namei_ext_register_target hb alloc cg tid p st = (Some e, st)"
  by (auto simp: register_accepts_def namei_ext_register_target_def Let_def)

text \<open>
  The two ways an accepted registration changes the table: a fresh node at the head of the
  bucket, or the old node replaced where it stands and its path reference dropped.
\<close>

lemma register_target_accepted:
  assumes "register_accepts alloc cg tid p st"
  obtains (add) "namei_ext_find_target_rcu hb cg tid st = None"
      "namei_ext_register_target hb alloc cg tid p st =
        (None, st\<lparr>namei_ext_targets := (namei_ext_targets st)
           (hb (namei_ext_target_key cg tid) :=
              \<lparr>t_cg_id = cg, t_target_id = tid, t_path = p\<rparr> #
              namei_ext_targets st (hb (namei_ext_target_key cg tid)))\<rparr>)"
  | (replace) xs old ys where
      "namei_ext_targets st (hb (namei_ext_target_key cg tid)) = xs @ old # ys"
      "target_is cg tid old" "\<forall>x\<in>set xs. \<not> target_is cg tid x"
      "namei_ext_register_target hb alloc cg tid p st =
        (None, path_put (t_path old) (st\<lparr>namei_ext_targets := (namei_ext_targets st)
           (hb (namei_ext_target_key cg tid) :=
              xs @ \<lparr>t_cg_id = cg, t_target_id = tid, t_path = p\<rparr> # ys)\<rparr>))"
proof -
  let ?new = "\<lparr>t_cg_id = cg, t_target_id = tid, t_path = p\<rparr>"
  let ?b = "hb (namei_ext_target_key cg tid)"
  let ?r = "hlist_replace_first (target_is cg tid) ?new (namei_ext_targets st ?b)"
  have run: "namei_ext_register_target hb alloc cg tid p st =
      (case ?r of
         (Some old_target, ts) \<Rightarrow>
           (None, path_put (t_path old_target)
                    (st\<lparr>namei_ext_targets := (namei_ext_targets st)(?b := ts)\<rparr>))
       | (None, ts) \<Rightarrow>
           (None, st\<lparr>namei_ext_targets :=
                       (namei_ext_targets st)(?b := ?new # namei_ext_targets st ?b)\<rparr>))"
    using assms by (simp add: register_accepts_def namei_ext_register_target_def Let_def)
  show thesis
  proof (cases "fst ?r")
    case None
    then have "\<forall>t\<in>set (namei_ext_targets st ?b). \<not> target_is cg tid t"
      using replace_first_None by metis
    then have "namei_ext_find_target_rcu hb cg tid st = None"
      unfolding namei_ext_find_target_rcu_def by (rule find_None_all)
    with None run show thesis by (intro add) (auto split: prod.splits)
  next
    case (Some old)
    then obtain ts' where r: "?r = (Some old, ts')" by (metis prod.collapse)
    from replace_first_Some [OF this] obtain xs ys
      where "namei_ext_targets st ?b = xs @ old # ys" "ts' = xs @ ?new # ys"
        "target_is cg tid old" "\<forall>x\<in>set xs. \<not> target_is cg tid x" by blast
    with r run show thesis by (intro replace [of xs old ys]) auto
  qed
qed

lemma find_target_path_put [simp]:
  "namei_ext_find_target_rcu hb cg tid (path_put p st) = namei_ext_find_target_rcu hb cg tid st"
  "namei_ext_find_target_rcu hb cg tid (path_get p st) = namei_ext_find_target_rcu hb cg tid st"
  by (simp_all add: namei_ext_find_target_rcu_def path_put_def path_get_def)

lemma target_path_register:
  assumes "register_accepts alloc cg tid p st"
  shows "target_path hb (snd (namei_ext_register_target hb alloc cg tid p st)) cg' tid' =
           (if cg' = cg \<and> tid' = tid then Some p else target_path hb st cg' tid')"
  using assms
proof (cases rule: register_target_accepted [where hb = hb])
  case add
  then show ?thesis
    by (auto simp: target_path_def namei_ext_find_target_rcu_def)
next
  case (replace xs old ys)
  let ?new = "\<lparr>t_cg_id = cg, t_target_id = tid, t_path = p\<rparr>"
  have "find (target_is cg tid) (xs @ ?new # ys) = Some ?new"
    using replace(3) by (simp add: find_skip)
  moreover have "find (target_is cg' tid') (xs @ ?new # ys) = find (target_is cg' tid') (xs @ old # ys)"
    if "\<not> (cg' = cg \<and> tid' = tid)"
    by (rule find_middle) (use that replace(2) in auto)
  ultimately show ?thesis
    using replace by (auto simp: target_path_def namei_ext_find_target_rcu_def path_put_def)
qed

lemma target_path_clear:
  "target_path hb (namei_ext_clear_targets cg st) cg' tid' =
     (if cg' = cg then None else target_path hb st cg' tid')"
  by (auto simp: clear_targets_eq path_put_list_eq target_path_def namei_ext_find_target_rcu_def
      intro!: find_None_all arg_cong [of _ _ "map_option t_path"] find_filter)

subsection \<open>Invariant\<close>

lemma targets_wfD:
  assumes "targets_wf hb st" "t \<in> set (namei_ext_targets st b)"
  shows "hb (namei_ext_target_key (t_cg_id t) (t_target_id t)) = b" "t_target_id t \<noteq> 0"
    "p_mnt (t_path t) \<noteq> 0" "p_dentry (t_path t) \<noteq> 0"
  using assms by (auto simp: targets_wf_def bucket_wf_def)

lemma targets_wf_path_put [simp]:
  "targets_wf hb (path_put p st) = targets_wf hb st"
  "targets_wf hb (path_get p st) = targets_wf hb st"
  "targets_wf hb (path_put_list ps st) = targets_wf hb st"
  by (simp_all add: targets_wf_def path_put_def path_get_def path_put_list_eq)

lemma targets_wf_upd:
  "targets_wf hb st \<Longrightarrow> bucket_wf hb b ts \<Longrightarrow>
     targets_wf hb (st\<lparr>namei_ext_targets := (namei_ext_targets st)(b := ts)\<rparr>)"
  by (simp add: targets_wf_def)

lemma bucket_wf_replace:
  assumes "bucket_wf hb b (xs @ old # ys)" "t_cg_id new = t_cg_id old"
    "t_target_id new = t_target_id old" "p_mnt (t_path new) \<noteq> 0" "p_dentry (t_path new) \<noteq> 0"
  shows "bucket_wf hb b (xs @ new # ys)"
  using assms by (simp add: bucket_wf_def ball_Un)

lemma register_target_wf:
  assumes "targets_wf hb st"
  shows "targets_wf hb (snd (namei_ext_register_target hb alloc cg tid p st))"
proof (cases "register_accepts alloc cg tid p st")
  case False
  then show ?thesis
    using register_target_refused [OF False, of hb] assms by auto
next
  case acc: True
  then have args: "tid \<noteq> 0" "p_mnt p \<noteq> 0" "p_dentry p \<noteq> 0"
    by (simp_all add: register_accepts_def)
  let ?b = "hb (namei_ext_target_key cg tid)"
  have b: "bucket_wf hb ?b (namei_ext_targets st ?b)"
    using assms by (simp add: targets_wf_def)
  from acc show ?thesis
  proof (cases rule: register_target_accepted [where hb = hb])
    case add
    then have "(cg, tid) \<notin> (\<lambda>t. (t_cg_id t, t_target_id t)) ` set (namei_ext_targets st ?b)"
      by (auto simp: namei_ext_find_target_rcu_def find_None_iff)
    with b args have "bucket_wf hb ?b
        (\<lparr>t_cg_id = cg, t_target_id = tid, t_path = p\<rparr> # namei_ext_targets st ?b)"
      by (simp add: bucket_wf_def)
    with add targets_wf_upd [OF assms] show ?thesis by simp
  next
    case (replace xs old ys)
    have "bucket_wf hb ?b (xs @ \<lparr>t_cg_id = cg, t_target_id = tid, t_path = p\<rparr> # ys)"
      by (rule bucket_wf_replace [of hb ?b xs old ys]) (use b replace args in simp_all)
    with replace targets_wf_upd [OF assms] show ?thesis by simp
  qed
qed

lemma clear_targets_wf: "targets_wf hb st \<Longrightarrow> targets_wf hb (namei_ext_clear_targets cg st)"
  by (auto simp: clear_targets_eq targets_wf_def bucket_wf_def path_put_list_eq distinct_map_filter)

subsection \<open>References held by the table\<close>

definition target_holds :: "kstate \<Rightarrow> path \<Rightarrow> int" where
  "target_holds st p = (\<Sum>b\<in>UNIV. int (count_list (map t_path (namei_ext_targets st b)) p))"

text \<open>Every path reference is either held by the table or by someone else.\<close>

definition outside_refs :: "kstate \<Rightarrow> path \<Rightarrow> int" where
  "outside_refs st p = ks_path_refs st p - target_holds st p"

lemma sum_UNIV_upd:
  fixes f :: "bucket \<Rightarrow> 'a" and g :: "'a \<Rightarrow> int"
  shows "(\<Sum>b'\<in>UNIV. g ((f(b := x)) b')) = (\<Sum>b'\<in>UNIV. g (f b')) - g (f b) + g x"
proof -
  have "(\<Sum>b'\<in>UNIV. g ((f(b := x)) b')) = g x + (\<Sum>b'\<in>UNIV - {b}. g ((f(b := x)) b'))"
    by (subst sum.remove [of UNIV b]) simp_all
  moreover have "(\<Sum>b'\<in>UNIV - {b}. g ((f(b := x)) b')) = (\<Sum>b'\<in>UNIV - {b}. g (f b'))"
    by (rule sum.cong) auto
  moreover have "(\<Sum>b'\<in>UNIV. g (f b')) = g (f b) + (\<Sum>b'\<in>UNIV - {b}. g (f b'))"
    by (subst sum.remove [of UNIV b]) simp_all
  ultimately show ?thesis by simp
qed

lemma target_holds_upd:
  "target_holds (st\<lparr>namei_ext_targets := (namei_ext_targets st)(b := ts)\<rparr>) p =
     target_holds st p - int (count_list (map t_path (namei_ext_targets st b)) p) +
       int (count_list (map t_path ts) p)"
  using sum_UNIV_upd [of "\<lambda>ts. int (count_list (map t_path ts) p)" "namei_ext_targets st" b ts]
  by (simp add: target_holds_def)

lemma target_holds_cong [simp]:
  "target_holds (st\<lparr>ks_path_refs := r\<rparr>) p = target_holds st p"
  "target_holds (st\<lparr>ks_cgroup_refs := r'\<rparr>) p = target_holds st p"
  "target_holds (st\<lparr>ks_bpf_refs := r'\<rparr>) p = target_holds st p"
  by (simp_all add: target_holds_def)

lemma count_list_concat_sum:
  "distinct bs \<Longrightarrow> count_list (concat (map f bs)) p = (\<Sum>b\<in>set bs. count_list (f b) p)"
  by (induction bs) auto

lemma count_filter_split:
  "count_list (map g (filter q xs)) p + count_list (map g (filter (\<lambda>x. \<not> q x) xs)) p =
     count_list (map g xs) p"
  by (induction xs) auto

lemma clear_targets_outside: "outside_refs (namei_ext_clear_targets cg st) = outside_refs st"
proof
  fix p
  have "count_list (map t_path (retired_targets cg st)) p =
      (\<Sum>b\<in>UNIV. count_list (map t_path (filter (\<lambda>t. t_cg_id t = cg) (namei_ext_targets st b))) p)"
    using count_list_concat_sum [OF distinct_all_buckets,
        of "\<lambda>b. map t_path (filter (\<lambda>t. t_cg_id t = cg) (namei_ext_targets st b))" p]
    by (simp add: retired_targets_def map_concat comp_def all_buckets_UNIV)
  then have "int (count_list (map t_path (retired_targets cg st)) p) +
      (\<Sum>b\<in>UNIV. int (count_list (map t_path
         (filter (\<lambda>t. t_cg_id t \<noteq> cg) (namei_ext_targets st b))) p)) = target_holds st p"
    unfolding target_holds_def
    by (simp add: sum.distrib [symmetric] count_filter_split flip: of_nat_add)
  then show "outside_refs (namei_ext_clear_targets cg st) p = outside_refs st p"
    by (simp add: clear_targets_eq path_put_list_eq outside_refs_def) (simp add: target_holds_def)
qed

text \<open>A successful registration takes over the caller's reference; a refused one leaves it.\<close>

lemma register_target_outside:
  "outside_refs (snd (namei_ext_register_target hb alloc cg tid p st)) q =
     outside_refs st q -
       of_bool (q = p \<and> fst (namei_ext_register_target hb alloc cg tid p st) = None)"
proof (cases "register_accepts alloc cg tid p st")
  case False
  then show ?thesis
    using register_target_refused [OF False, of hb] by auto
next
  case True
  then show ?thesis
  proof (cases rule: register_target_accepted [where hb = hb])
    case add
    then show ?thesis by (simp add: outside_refs_def target_holds_upd)
  next
    case (replace xs old ys)
    then show ?thesis
      by (simp add: outside_refs_def path_put_eq target_holds_upd)
  qed
qed

subsection \<open>The interface of the registry\<close>

datatype registry_cmd = Register u64 u32 path | Clear u64

text \<open>What the commands mean: updates of a map from cgroup and id to path.\<close>

fun registry_spec :: "registry_cmd \<Rightarrow> (u64 \<Rightarrow> u32 \<Rightarrow> path option) \<Rightarrow> u64 \<Rightarrow> u32 \<Rightarrow> path option" where
  "registry_spec (Register cg tid p) m = m(cg := (m cg)(tid := Some p))"
| "registry_spec (Clear cg) m = m(cg := (\<lambda>_. None))"

fun cmd_cgroup :: "registry_cmd \<Rightarrow> u64" where
  "cmd_cgroup (Register cg tid p) = cg"
| "cmd_cgroup (Clear cg) = cg"

locale target_registry =
  fixes lookup :: "'s \<Rightarrow> u64 \<Rightarrow> u32 \<Rightarrow> path option"
    and register :: "u64 \<Rightarrow> u32 \<Rightarrow> path \<Rightarrow> 's \<Rightarrow> 's"
    and clear :: "u64 \<Rightarrow> 's \<Rightarrow> 's"
    and accepts :: "u64 \<Rightarrow> u32 \<Rightarrow> path \<Rightarrow> 's \<Rightarrow> bool"
  assumes lookup_register:
      "accepts cg tid p s \<Longrightarrow>
         lookup (register cg tid p s) cg' tid' =
           (if cg' = cg \<and> tid' = tid then Some p else lookup s cg' tid')"
    and lookup_refused: "\<not> accepts cg tid p s \<Longrightarrow> register cg tid p s = s"
    and lookup_clear:
      "lookup (clear cg s) cg' tid' = (if cg' = cg then None else lookup s cg' tid')"
    and accepts_kept: "accepts cg tid p (register cg' tid' p' s) = accepts cg tid p s"
      "accepts cg tid p (clear cg' s) = accepts cg tid p s"
begin

fun exec :: "registry_cmd \<Rightarrow> 's \<Rightarrow> 's" where
  "exec (Register cg tid p) s = register cg tid p s"
| "exec (Clear cg) s = clear cg s"

fun accepted :: "'s \<Rightarrow> registry_cmd \<Rightarrow> bool" where
  "accepted s (Register cg tid p) = accepts cg tid p s"
| "accepted s (Clear cg) = True"

lemma accepted_exec: "accepted (exec c s) c' = accepted s c'"
  by (cases c; cases c') (simp_all add: accepts_kept)

lemma exec_refines:
  "lookup (exec c s) = (if accepted s c then registry_spec c (lookup s) else lookup s)"
  by (cases c) (auto simp: fun_eq_iff lookup_register lookup_refused lookup_clear)

text \<open>Any history of commands leaves the map the accepted ones describe.\<close>

lemma history_refines:
  "lookup (fold exec cs s) = fold registry_spec (filter (accepted s) cs) (lookup s)"
proof (induction cs arbitrary: s)
  case Nil
  then show ?case by simp
next
  case (Cons c cs)
  have "filter (accepted (exec c s)) cs = filter (accepted s) cs"
    by (rule filter_cong) (simp_all add: accepted_exec)
  with Cons [of "exec c s"] show ?case by (simp add: exec_refines)
qed

lemma history_isolated:
  "\<forall>c\<in>set cs. cmd_cgroup c \<noteq> cg \<Longrightarrow> lookup (fold exec cs s) cg = lookup s cg"
proof (induction cs arbitrary: s)
  case Nil
  then show ?case by simp
next
  case (Cons c cs)
  have "lookup (exec c s) cg = lookup s cg"
    using Cons.prems exec_refines [of c s] by (cases c) (auto split: if_splits)
  with Cons show ?case by simp
qed

end

lemma cgroup_is_dead_refs [simp]:
  "cgroup_is_dead cg (path_put p st) = cgroup_is_dead cg st"
  "cgroup_is_dead cg (path_get p st) = cgroup_is_dead cg st"
  "cgroup_is_dead cg (path_put_list ps st) = cgroup_is_dead cg st"
  "cgroup_is_dead cg (st\<lparr>namei_ext_targets := ts\<rparr>) = cgroup_is_dead cg st"
  by (simp_all add: cgroup_is_dead_def path_put_def path_get_def path_put_list_eq)

lemma register_target_dead:
  "cgroup_is_dead cg (snd (namei_ext_register_target hb alloc cg' tid p st)) = cgroup_is_dead cg st"
  by (auto simp: namei_ext_register_target_def Let_def split: prod.split option.split)

lemma clear_targets_dead:
  "cgroup_is_dead cg (namei_ext_clear_targets cg' st) = cgroup_is_dead cg st"
  by (simp add: clear_targets_eq)

interpretation registry:
  target_registry "target_path hb" "\<lambda>cg tid p st. snd (namei_ext_register_target hb alloc cg tid p st)"
    namei_ext_clear_targets "register_accepts alloc"
  for hb alloc
proof unfold_locales
  fix cg tid p s
  assume "\<not> register_accepts alloc cg tid p s"
  then show "snd (namei_ext_register_target hb alloc cg tid p s) = s"
    using register_target_refused [of alloc cg tid p s hb] by auto
qed (simp_all add: target_path_register target_path_clear register_accepts_def
      register_target_dead clear_targets_dead)

subsection \<open>The debugfs file\<close>

lemma target_path_frame [simp]:
  "target_path hb (path_put p st) = target_path hb st"
  "target_path hb (path_get p st) = target_path hb st"
  "target_path hb (cgroup_get cg st) = target_path hb st"
  "target_path hb (cgroup_put cg st) = target_path hb st"
  "target_path hb (cgroup_bpf_get cg st) = target_path hb st"
  "target_path hb (cgroup_bpf_put cg st) = target_path hb st"
  "target_path hb (namei_ext_put_cgroup cg st) = target_path hb st"
  by (simp_all add: fun_eq_iff target_path_def namei_ext_find_target_rcu_def path_put_def
      path_get_def cgroup_ref_defs namei_ext_put_cgroup_def)

text \<open>What a write does, with the bracketing of the references folded away.\<close>

lemma register_target_refs_comm:
  "namei_ext_register_target hb alloc cg tid p
     (cgroup_get c (cgroup_bpf_get c st)) =
   (let (r, st') = namei_ext_register_target hb alloc cg tid p st
    in (r, cgroup_get c (cgroup_bpf_get c st')))"
  by (auto simp: namei_ext_register_target_def cgroup_ref_defs cgroup_is_dead_def path_put_def
      Let_def split: prod.split option.split)

lemma clear_targets_refs_comm:
  "namei_ext_clear_targets cg (cgroup_get c (cgroup_bpf_get c st)) =
   cgroup_get c (cgroup_bpf_get c (namei_ext_clear_targets cg st))"
  by (simp add: clear_targets_eq cgroup_ref_defs path_put_list_eq retired_targets_def)

lemma path_refs_comm:
  "path_get p (cgroup_get c (cgroup_bpf_get c st)) = cgroup_get c (cgroup_bpf_get c (path_get p st))"
  "path_put p (cgroup_get c (cgroup_bpf_get c st)) = cgroup_get c (cgroup_bpf_get c (path_put p st))"
  by (simp_all add: path_get_def path_put_def cgroup_ref_defs)

lemma register_target_write_cases:
  obtains (error) e where "namei_ext_register_target_write hb env count st = (Inl e, st)"
  | (clear) buf where "we_copy env count = Some buf" "we_streq env (cstr buf) ''clear''"
      "namei_ext_register_target_write hb env count st =
        (Inr count, namei_ext_clear_targets (we_current env) st)"
  | (refused) e tid p where
      "namei_ext_register_target hb (we_alloc env) (we_current env) tid p (path_get p st) =
         (Some e, path_get p st)"
      "namei_ext_register_target_write hb env count st = (Inl e, path_put p (path_get p st))"
  | (registered) buf tid fd p st' where
      "we_copy env count = Some buf" "we_scan_uu env (cstr buf) = Some (tid, fd)" "we_fd env fd = Some p"
      "namei_ext_register_target hb (we_alloc env) (we_current env) tid p (path_get p st) = (None, st')"
      "namei_ext_register_target_write hb env count st = (Inr count, st')"
proof -
  let ?w = "namei_ext_register_target_write hb env count st"
  show thesis
  proof (cases "count = 0 \<or> count \<ge> 64 \<or> we_copy env count = None \<or>
      fst (namei_ext_current_cgroup (we_current env) (we_tryget env) st) = None")
    case True
    then show thesis
      by (intro error [of "if count = 0 \<or> count \<ge> 64 then EINVAL
            else if we_copy env count = None then EFAULT else ENODEV"])
         (auto simp: namei_ext_register_target_write_def Let_def
           dest: namei_ext_current_cgroup_None split: option.split prod.split)
  next
    case False
    then obtain buf cg st1 where ok: "\<not> (count = 0 \<or> count \<ge> 64)" "we_copy env count = Some buf"
      "namei_ext_current_cgroup (we_current env) (we_tryget env) st = (Some cg, st1)"
      by (metis prod.collapse option.exhaust)
    let ?cg = "we_current env"
    from namei_ext_current_cgroup_Some [OF ok(3)]
    have st1: "cg = ?cg" "st1 = cgroup_get ?cg (cgroup_bpf_get ?cg st)" by auto
    note run = ok st1 namei_ext_register_target_write_def Let_def
    consider "we_streq env (cstr buf) ''clear''"
      | "\<not> we_streq env (cstr buf) ''clear''" "we_scan_uu env (cstr buf) = None"
      | tid fd where "\<not> we_streq env (cstr buf) ''clear''"
          "we_scan_uu env (cstr buf) = Some (tid, fd)" "we_fd env fd = None"
      | tid fd p where "\<not> we_streq env (cstr buf) ''clear''"
          "we_scan_uu env (cstr buf) = Some (tid, fd)" "we_fd env fd = Some p"
      by fastforce
    then show thesis
    proof cases
      case 1
      then show thesis
        by (intro clear [of buf]) (simp_all add: run clear_targets_refs_comm put_cgroup_balance)
    next
      case 2
      then show thesis by (intro error [of EINVAL]) (simp add: run put_cgroup_balance)
    next
      case 3
      then show thesis by (intro error [of EBADF]) (simp add: run put_cgroup_balance)
    next
      case (4 tid fd p)
      obtain r st' where r: "namei_ext_register_target hb (we_alloc env) ?cg tid p (path_get p st) = (r, st')"
        by fastforce
      have w: "?w = (case r of Some e \<Rightarrow> (Inl e, path_put p st') | None \<Rightarrow> (Inr count, st'))"
        using 4 r by (auto simp: run path_refs_comm register_target_refs_comm put_cgroup_balance
            split: option.split)
      show thesis
      proof (cases r)
        case None
        with 4 ok r w show thesis by (intro registered [of buf tid fd p st']) auto
      next
        case (Some e)
        have "\<not> register_accepts (we_alloc env) ?cg tid p (path_get p st)"
        proof
          assume "register_accepts (we_alloc env) ?cg tid p (path_get p st)"
          then show False using r Some by (cases rule: register_target_accepted [where hb = hb]) auto
        qed
        then have "st' = path_get p st"
          using register_target_refused [of "we_alloc env" ?cg tid p "path_get p st" hb] r by auto
        with Some r w show thesis by (intro refused [of tid p e]) auto
      qed
    qed
  qed
qed

lemma put_get_path: "path_put p (path_get p st) = st"
  by (simp add: path_put_def path_get_def)

lemma register_target_write_wf:
  assumes "targets_wf hb st"
  shows "targets_wf hb (snd (namei_ext_register_target_write hb env count st))"
proof (cases rule: register_target_write_cases [of hb env count st])
  case (registered buf tid fd p st')
  then show ?thesis
    using register_target_wf [of hb "path_get p st" "we_alloc env" "we_current env" tid p] assms
    by simp
qed (use assms in \<open>auto simp: put_get_path clear_targets_wf\<close>)

lemma register_target_write_outside:
  "outside_refs (snd (namei_ext_register_target_write hb env count st)) = outside_refs st"
proof (cases rule: register_target_write_cases [of hb env count st])
  case (registered buf tid fd p st')
  have "outside_refs (path_get p st) q = outside_refs st q + of_bool (q = p)" for q
    by (simp add: outside_refs_def path_get_eq)
  then show ?thesis
    using registered register_target_outside [of hb "we_alloc env" "we_current env" tid p "path_get p st"]
    by (auto simp: fun_eq_iff)
qed (auto simp: put_get_path clear_targets_outside)

lemma register_target_cgroup_refs:
  "ks_cgroup_refs (snd (namei_ext_register_target hb alloc cg tid p st)) = ks_cgroup_refs st"
  "ks_bpf_refs (snd (namei_ext_register_target hb alloc cg tid p st)) = ks_bpf_refs st"
  "ks_cgroups (snd (namei_ext_register_target hb alloc cg tid p st)) = ks_cgroups st"
  by (auto simp: namei_ext_register_target_def Let_def path_put_def split: prod.split option.split)

lemma register_target_write_refs:
  "ks_cgroup_refs (snd (namei_ext_register_target_write hb env count st)) = ks_cgroup_refs st"
  "ks_bpf_refs (snd (namei_ext_register_target_write hb env count st)) = ks_bpf_refs st"
  "ks_cgroups (snd (namei_ext_register_target_write hb env count st)) = ks_cgroups st"
proof -
  have "ks_cgroup_refs (snd (namei_ext_register_target_write hb env count st)) = ks_cgroup_refs st \<and>
    ks_bpf_refs (snd (namei_ext_register_target_write hb env count st)) = ks_bpf_refs st \<and>
    ks_cgroups (snd (namei_ext_register_target_write hb env count st)) = ks_cgroups st"
  proof (cases rule: register_target_write_cases [of hb env count st])
    case (registered buf tid fd p st')
    then show ?thesis
      using register_target_cgroup_refs [of hb "we_alloc env" "we_current env" tid p "path_get p st"]
      by (simp add: path_get_def)
  qed (auto simp: put_get_path clear_targets_eq path_put_list_eq)
  then show "ks_cgroup_refs (snd (namei_ext_register_target_write hb env count st)) = ks_cgroup_refs st"
    "ks_bpf_refs (snd (namei_ext_register_target_write hb env count st)) = ks_bpf_refs st"
    "ks_cgroups (snd (namei_ext_register_target_write hb env count st)) = ks_cgroups st"
    by simp_all
qed

lemma register_target_write_isolated:
  assumes "cg \<noteq> we_current env"
  shows "target_path hb (snd (namei_ext_register_target_write hb env count st)) cg =
           target_path hb st cg"
proof (cases rule: register_target_write_cases [of hb env count st])
  case clear
  then show ?thesis using assms by (simp add: fun_eq_iff target_path_clear)
next
  case (registered buf tid fd p st')
  then have "register_accepts (we_alloc env) (we_current env) tid p (path_get p st)"
    using register_target_refused [of "we_alloc env" "we_current env" tid p "path_get p st" hb]
    by auto
  from target_path_register [OF this, of hb] registered assms show ?thesis
    by (auto simp: fun_eq_iff)
qed (auto simp: put_get_path)

text \<open>A sequence of writes by any processes, in the order the registry mutex serialises them.\<close>

fun target_writes :: "hashfn \<Rightarrow> (write_env \<times> u64) list \<Rightarrow> kstate \<Rightarrow> kstate" where
  "target_writes hb [] st = st"
| "target_writes hb ((env, count) # ws) st =
     target_writes hb ws (snd (namei_ext_register_target_write hb env count st))"

lemma target_writes_wf: "targets_wf hb st \<Longrightarrow> targets_wf hb (target_writes hb ws st)"
  by (induction hb ws st rule: target_writes.induct) (simp_all add: register_target_write_wf)

lemma target_writes_outside: "outside_refs (target_writes hb ws st) = outside_refs st"
  by (induction hb ws st rule: target_writes.induct) (simp_all add: register_target_write_outside)

lemma target_writes_refs:
  "ks_cgroup_refs (target_writes hb ws st) = ks_cgroup_refs st \<and>
   ks_bpf_refs (target_writes hb ws st) = ks_bpf_refs st"
  by (induction hb ws st rule: target_writes.induct) (simp_all add: register_target_write_refs)

lemma target_writes_isolated:
  "\<forall>(env, count)\<in>set ws. we_current env \<noteq> cg \<Longrightarrow>
     target_path hb (target_writes hb ws st) cg = target_path hb st cg"
  by (induction hb ws st rule: target_writes.induct) (auto simp: register_target_write_isolated)

end
