(* ===== verification/Scopes.thy ===== *)
theory Scopes
  imports Targets
begin

text \<open>
  Policy-parent scopes of \<open>fs/namei_ext.c\<close>: the immutable set of exact parents of each
  cgroup, the index over the entries of all sets, the two saturating user counters, the
  commands of the debugfs file, and the prefilter \<open>namei_ext_parent_maybe_managed\<close> that
  the path walk asks first. The definitions take the mutex-protected sections as they
  are serialised; \<open>Scope_Seq\<close> treats the lock-free reader.
\<close>

subsection \<open>Index and counters\<close>

definition NAMEI_EXT_MAX_POLICY_PARENTS :: u32 where
  "NAMEI_EXT_MAX_POLICY_PARENTS = 8"

definition namei_ext_scope_key :: "path \<Rightarrow> u64" where
  "namei_ext_scope_key p = p_dentry p XOR p_mnt p"

definition namei_ext_scope_index_add_locked ::
  "hashfn \<Rightarrow> namei_ext_scope_set \<Rightarrow> kstate \<Rightarrow> kstate" where
  "namei_ext_scope_index_add_locked hb scopes st =
     (let idx = fold (\<lambda>i idx.
                    let p = ss_entries scopes ! i; b = hb (namei_ext_scope_key p)
                    in idx(b := ((ss_addr scopes, i), p) # idx b))
                  [0..<length (ss_entries scopes)] (namei_ext_scope_index st);
          users = namei_ext_exact_scope_users st;
          users' = (if users > UINT_MAX - ss_nr scopes then UINT_MAX
                    else if users \<noteq> UINT_MAX then users + ss_nr scopes else users)
      in st\<lparr>namei_ext_scope_index := idx, namei_ext_exact_scope_users := users'\<rparr>)"

definition namei_ext_scope_index_del_locked :: "namei_ext_scope_set \<Rightarrow> kstate \<Rightarrow> kstate" where
  "namei_ext_scope_index_del_locked scopes st =
     (let idx = fold (\<lambda>i idx b. filter (\<lambda>e. fst e \<noteq> (ss_addr scopes, i)) (idx b))
                  [0..<length (ss_entries scopes)] (namei_ext_scope_index st);
          users = namei_ext_exact_scope_users st;
          users' = (if users = UINT_MAX then users
                    else if users < ss_nr scopes then UINT_MAX
                    else users - ss_nr scopes)
      in st\<lparr>namei_ext_scope_index := idx, namei_ext_exact_scope_users := users'\<rparr>)"

definition namei_ext_global_scope_get_locked :: "kstate \<Rightarrow> kstate" where
  "namei_ext_global_scope_get_locked st =
     (if namei_ext_global_scope_users st = UINT_MAX then st
      else st\<lparr>namei_ext_global_scope_users := namei_ext_global_scope_users st + 1\<rparr>)"

definition namei_ext_global_scope_put_locked :: "kstate \<Rightarrow> kstate" where
  "namei_ext_global_scope_put_locked st =
     (if namei_ext_global_scope_users st = UINT_MAX then st
      else if namei_ext_global_scope_users st = 0
        then st\<lparr>namei_ext_global_scope_users := UINT_MAX\<rparr>
      else st\<lparr>namei_ext_global_scope_users := namei_ext_global_scope_users st - 1\<rparr>)"

subsection \<open>Sets\<close>

definition namei_ext_free_scopes :: "namei_ext_scope_set option \<Rightarrow> kstate \<Rightarrow> kstate" where
  "namei_ext_free_scopes scopes st =
     (case scopes of
        None \<Rightarrow> st
      | Some s \<Rightarrow> if ss_addr s = ss_addr namei_ext_scope_tombstone then st
                  else path_put_list (ss_entries s) st)"

definition namei_ext_alloc_scopes ::
  "bool \<Rightarrow> u32 \<Rightarrow> kstate \<Rightarrow> namei_ext_scope_set option \<times> kstate" where
  "namei_ext_alloc_scopes alloc nr st =
     (if nr > NAMEI_EXT_MAX_POLICY_PARENTS then (None, st)
      else if \<not> alloc then (None, st)
      else (Some \<lparr> ss_addr = ks_next_addr st, ss_entries = [] \<rparr>,
            st\<lparr>ks_next_addr := Suc (ks_next_addr st)\<rparr>))"

definition namei_ext_finish_scope_replace :: "namei_ext_scope_set option \<Rightarrow> kstate \<Rightarrow> kstate" where
  "namei_ext_finish_scope_replace old_scopes st = namei_ext_free_scopes old_scopes st"

definition namei_ext_scope_replace_locked ::
  "hashfn \<Rightarrow> u64 \<Rightarrow> namei_ext_scope_set option \<Rightarrow> kstate \<Rightarrow> namei_ext_scope_set option \<times> kstate" where
  "namei_ext_scope_replace_locked hb cgrp new_scopes st =
     (let old_scopes = cb_scopes (ks_cgroups st cgrp);
          active = cb_scope_active (ks_cgroups st cgrp);
          st = (case new_scopes of
                  Some s \<Rightarrow> namei_ext_scope_index_add_locked hb s st
                | None \<Rightarrow> if active then namei_ext_global_scope_get_locked st else st);
          st = upd_cgroup cgrp (\<lambda>c. c\<lparr>cb_scopes := new_scopes\<rparr>) st;
          st = (case old_scopes of
                  Some s \<Rightarrow> namei_ext_scope_index_del_locked s st
                | None \<Rightarrow> if active then namei_ext_global_scope_put_locked st else st)
      in (old_scopes, st))"

definition namei_ext_scope_exact ::
  "hashfn \<Rightarrow> bool \<Rightarrow> u64 \<Rightarrow> path \<Rightarrow> kstate \<Rightarrow> errno option \<times> kstate" where
  "namei_ext_scope_exact hb alloc cgrp path st =
     (case namei_ext_alloc_scopes alloc 1 st of
        (None, st) \<Rightarrow> (Some ENOMEM, st)
      | (Some new_scopes, st) \<Rightarrow>
          let new_scopes = new_scopes\<lparr>ss_entries := [path]\<rparr>;
              st = path_get path st
          in if cgroup_is_dead cgrp st
             then (Some ENODEV, namei_ext_free_scopes (Some new_scopes) st)
             else let (old_scopes, st) = namei_ext_scope_replace_locked hb cgrp (Some new_scopes) st
                  in (None, namei_ext_finish_scope_replace old_scopes st))"

definition namei_ext_cgroup_owns_policy :: "u64 \<Rightarrow> kstate \<Rightarrow> bool" where
  "namei_ext_cgroup_owns_policy cgrp st = (cb_owner (ks_cgroups st cgrp) = Some cgrp)"

definition namei_ext_scope_add ::
  "hashfn \<Rightarrow> bool \<Rightarrow> u64 \<Rightarrow> path \<Rightarrow> kstate \<Rightarrow> errno option \<times> kstate" where
  "namei_ext_scope_add hb alloc cgrp path st =
     (if cgroup_is_dead cgrp st then (Some ENODEV, st)
      else case cb_scopes (ks_cgroups st cgrp) of
        None \<Rightarrow> (Some EINVAL, st)
      | Some old_scopes \<Rightarrow>
          if list_ex (\<lambda>q. path_equal q path) (ss_entries old_scopes) then (None, st)
          else if ss_nr old_scopes = NAMEI_EXT_MAX_POLICY_PARENTS then (Some E2BIG, st)
          else
            case namei_ext_alloc_scopes alloc (ss_nr old_scopes + 1) st of
              (None, st) \<Rightarrow> (Some ENOMEM, st)
            | (Some new_scopes, st) \<Rightarrow>
                let new_scopes = new_scopes\<lparr>ss_entries := ss_entries old_scopes @ [path]\<rparr>;
                    st = path_get path (path_get_list (ss_entries old_scopes) st);
                    (old, st) = namei_ext_scope_replace_locked hb cgrp (Some new_scopes) st
                in (None, namei_ext_finish_scope_replace old st))"

definition namei_ext_scope_empty ::
  "hashfn \<Rightarrow> bool \<Rightarrow> u64 \<Rightarrow> kstate \<Rightarrow> errno option \<times> kstate" where
  "namei_ext_scope_empty hb alloc cgrp st =
     (case namei_ext_alloc_scopes alloc 0 st of
        (None, st) \<Rightarrow> (Some ENOMEM, st)
      | (Some new_scopes, st) \<Rightarrow>
          if cgroup_is_dead cgrp st
          then (Some ENODEV, namei_ext_free_scopes (Some new_scopes) st)
          else let (old_scopes, st) = namei_ext_scope_replace_locked hb cgrp (Some new_scopes) st
               in (None, namei_ext_finish_scope_replace old_scopes st))"

definition namei_ext_scope_global :: "hashfn \<Rightarrow> u64 \<Rightarrow> kstate \<Rightarrow> errno option \<times> kstate" where
  "namei_ext_scope_global hb cgrp st =
     (if cgroup_is_dead cgrp st then (Some ENODEV, st)
      else let (old_scopes, st) = namei_ext_scope_replace_locked hb cgrp None st
           in (None, namei_ext_finish_scope_replace old_scopes st))"

subsection \<open>The debugfs file\<close>

text \<open>The body of \<open>namei_ext_policy_parent_write\<close> between taking and putting the cgroup.\<close>

definition policy_parent_command ::
  "hashfn \<Rightarrow> write_env \<Rightarrow> u64 \<Rightarrow> bytes \<Rightarrow> u32 \<Rightarrow> nat \<Rightarrow> kstate \<Rightarrow> errno option \<times> kstate" where
  "policy_parent_command hb env cgrp command fd_num nfields st =
     (if command = ''clear'' \<or> command = ''global'' then
        (if nfields \<noteq> 1 then (Some EINVAL, st)
         else if \<not> namei_ext_cgroup_owns_policy cgrp st then (Some ENOENT, st)
         else if command = ''clear'' then namei_ext_scope_empty hb (we_alloc env) cgrp st
         else namei_ext_scope_global hb cgrp st)
      else if (command \<noteq> ''exact'' \<and> command \<noteq> ''add'') \<or> nfields \<noteq> 2 then (Some EINVAL, st)
      else case we_fd env fd_num of
        None \<Rightarrow> (Some EBADF, st)
      | Some path \<Rightarrow>
          if \<not> we_can_lookup env (p_dentry path) then (Some ENOTDIR, st)
          else if \<not> namei_ext_cgroup_owns_policy cgrp st then (Some ENOENT, st)
          else if command = ''exact'' then namei_ext_scope_exact hb (we_alloc env) cgrp path st
          else namei_ext_scope_add hb (we_alloc env) cgrp path st)"

definition namei_ext_policy_parent_write ::
  "hashfn \<Rightarrow> write_env \<Rightarrow> u64 \<Rightarrow> kstate \<Rightarrow> (errno + u64) \<times> kstate" where
  "namei_ext_policy_parent_write hb env count st =
     (if count = 0 \<or> count \<ge> 64 then (Inl EINVAL, st)
      else case we_copy env count of
        None \<Rightarrow> (Inl EFAULT, st)
      | Some buf \<Rightarrow>
          (case namei_ext_current_cgroup (we_current env) (we_tryget env) st of
             (None, st) \<Rightarrow> (Inl ENODEV, st)
           | (Some cgrp, st) \<Rightarrow>
               let (command, fd_num, nfields) = we_scan_suc env (cstr buf);
                   (ret, st) = policy_parent_command hb env cgrp command fd_num nfields st;
                   st = namei_ext_put_cgroup cgrp st
               in (case ret of Some e \<Rightarrow> (Inl e, st) | None \<Rightarrow> (Inr count, st))))"

subsection \<open>Readers, activation and release\<close>

definition namei_ext_parent_maybe_managed :: "hashfn \<Rightarrow> path \<Rightarrow> kstate \<Rightarrow> bool" where
  "namei_ext_parent_maybe_managed hb parent st =
     (if namei_ext_global_scope_users st = 0 \<and> namei_ext_exact_scope_users st = 0 then False
      else if namei_ext_global_scope_users st \<noteq> 0 then True
      else list_ex (\<lambda>e. path_equal (snd e) parent)
             (namei_ext_scope_index st (hb (namei_ext_scope_key parent))))"

definition namei_ext_policy_parent_matches :: "u64 \<Rightarrow> path \<Rightarrow> kstate \<Rightarrow> bool" where
  "namei_ext_policy_parent_matches cgrp parent st =
     (case cb_scopes (ks_cgroups st cgrp) of
        None \<Rightarrow> True
      | Some scopes \<Rightarrow> list_ex (\<lambda>q. path_equal q parent) (ss_entries scopes))"

definition namei_ext_cgroup_set_scope_active :: "u64 \<Rightarrow> bool \<Rightarrow> kstate \<Rightarrow> kstate" where
  "namei_ext_cgroup_set_scope_active cgrp active st =
     (if cb_scope_active (ks_cgroups st cgrp) = active then st
      else
        let st = (if cb_scopes (ks_cgroups st cgrp) = None
                  then (if active then namei_ext_global_scope_get_locked st
                        else namei_ext_global_scope_put_locked st)
                  else st)
        in upd_cgroup cgrp (\<lambda>c. c\<lparr>cb_scope_active := active\<rparr>) st)"

definition namei_ext_cgroup_release :: "hashfn \<Rightarrow> u64 \<Rightarrow> kstate \<Rightarrow> kstate" where
  "namei_ext_cgroup_release hb cgrp st =
     (let (old_scopes, st) =
            namei_ext_scope_replace_locked hb cgrp (Some namei_ext_scope_tombstone) st;
          st = upd_cgroup cgrp (\<lambda>c. c\<lparr>cb_scope_active := False\<rparr>) st;
          st = namei_ext_finish_scope_replace old_scopes st
      in namei_ext_clear_targets cgrp st)"

subsection \<open>The index as a set of nodes\<close>

definition set_nodes :: "namei_ext_scope_set option \<Rightarrow> (scope_node \<times> path) set" where
  "set_nodes scopes =
     (case scopes of None \<Rightarrow> {}
      | Some s \<Rightarrow> {((ss_addr s, i), ss_entries s ! i) | i. i < length (ss_entries s)})"

definition index_nodes :: "kstate \<Rightarrow> (scope_node \<times> path) set" where
  "index_nodes st = {e. \<exists>b. e \<in> set (namei_ext_scope_index st b)}"

definition index_hashed :: "hashfn \<Rightarrow> kstate \<Rightarrow> bool" where
  "index_hashed hb st \<longleftrightarrow>
     (\<forall>b. \<forall>e\<in>set (namei_ext_scope_index st b). b = hb (namei_ext_scope_key (snd e)))"

lemma set_nodes_None [simp]: "set_nodes None = {}"
  by (simp add: set_nodes_def)

lemma set_nodes_empty [simp]: "ss_entries s = [] \<Longrightarrow> set_nodes (Some s) = {}"
  by (simp add: set_nodes_def)

lemma set_nodes_image:
  "set_nodes (Some s) = (\<lambda>i. ((ss_addr s, i), ss_entries s ! i)) ` {..<length (ss_entries s)}"
  by (auto simp: set_nodes_def)

lemma finite_set_nodes [simp]: "finite (set_nodes s)"
  by (cases s) (simp_all add: set_nodes_image)

lemma card_set_nodes: "card (set_nodes (Some s)) = length (ss_entries s)"
  unfolding set_nodes_image by (subst card_image) (auto intro: inj_onI)

lemma set_nodes_addr: "((a, i), p) \<in> set_nodes (Some s) \<Longrightarrow> a = ss_addr s"
  by (auto simp: set_nodes_def)

lemma finite_index_nodes [simp]: "finite (index_nodes st)"
proof -
  have "index_nodes st = (\<Union>b. set (namei_ext_scope_index st b))"
    by (auto simp: index_nodes_def)
  then show ?thesis by simp
qed

lemma index_add_mem:
  "e \<in> set (namei_ext_scope_index (namei_ext_scope_index_add_locked hb s st) b) \<longleftrightarrow>
     e \<in> set (namei_ext_scope_index st b) \<or>
     (e \<in> set_nodes (Some s) \<and> b = hb (namei_ext_scope_key (snd e)))"
proof -
  have "e \<in> set (fold (\<lambda>i idx. let p = ss_entries s ! i; b = hb (namei_ext_scope_key p)
                    in idx(b := ((ss_addr s, i), p) # idx b)) [0..<n] idx b) \<longleftrightarrow>
      e \<in> set (idx b) \<or>
      (\<exists>i<n. e = ((ss_addr s, i), ss_entries s ! i) \<and> b = hb (namei_ext_scope_key (snd e)))" for n idx
    by (induction n) (auto simp: Let_def less_Suc_eq)
  then show ?thesis
    by (auto simp: namei_ext_scope_index_add_locked_def set_nodes_def Let_def)
qed

lemma index_del_mem:
  "e \<in> set (namei_ext_scope_index (namei_ext_scope_index_del_locked s st) b) \<longleftrightarrow>
     e \<in> set (namei_ext_scope_index st b) \<and>
     \<not> (\<exists>i<length (ss_entries s). fst e = (ss_addr s, i))"
proof -
  have "e \<in> set (fold (\<lambda>i idx b. filter (\<lambda>e. fst e \<noteq> (ss_addr s, i)) (idx b)) [0..<n] idx b) \<longleftrightarrow>
      e \<in> set (idx b) \<and> \<not> (\<exists>i<n. fst e = (ss_addr s, i))" for n idx
    by (induction n) (auto simp: less_Suc_eq)
  then show ?thesis
    by (simp add: namei_ext_scope_index_del_locked_def Let_def)
qed

lemma index_add_nodes:
  "index_nodes (namei_ext_scope_index_add_locked hb s st) = index_nodes st \<union> set_nodes (Some s)"
  by (auto simp: index_nodes_def index_add_mem)

lemma index_add_hashed:
  "index_hashed hb st \<Longrightarrow> index_hashed hb (namei_ext_scope_index_add_locked hb s st)"
  unfolding index_hashed_def by (metis index_add_mem)

lemma index_del_hashed:
  "index_hashed hb st \<Longrightarrow> index_hashed hb (namei_ext_scope_index_del_locked s st)"
  by (auto simp: index_hashed_def index_del_mem)

subsection \<open>Saturating counters\<close>

text \<open>A counter that has never saturated equals what it counts.\<close>

definition counts :: "u32 \<Rightarrow> nat \<Rightarrow> bool" where
  "counts w n \<longleftrightarrow> w = UINT_MAX \<or> unat w = n"

lemma counts_add:
  assumes "counts w n" "k \<le> 8"
  shows "counts (if w > UINT_MAX - of_nat k then UINT_MAX
                 else if w \<noteq> UINT_MAX then w + of_nat k else w) (n + k)"
proof -
  have k: "unat (of_nat k :: u32) = k" using assms by (simp add: unat_of_nat_u32)
  have sub: "unat (UINT_MAX - of_nat k :: u32) = 4294967295 - k"
    using assms k by (subst unat_sub_u32) (auto simp: word_le_nat_alt)
  show ?thesis
  proof (cases "w > UINT_MAX - of_nat k \<or> w = UINT_MAX")
    case True
    then show ?thesis by (auto simp: counts_def)
  next
    case False
    then have "unat w \<le> 4294967295 - k" by (simp add: word_less_nat_alt sub)
    then have "unat (w + of_nat k) = unat w + k"
      using assms k by (subst unat_add_u32) auto
    with False assms show ?thesis by (auto simp: counts_def)
  qed
qed

lemma counts_sub:
  assumes "counts w n" "k \<le> 8" "k \<le> n"
  shows "counts (if w = UINT_MAX then w else if w < of_nat k then UINT_MAX else w - of_nat k) (n - k)"
proof -
  have k: "unat (of_nat k :: u32) = k" using assms by (simp add: unat_of_nat_u32)
  show ?thesis
  proof (cases "w = UINT_MAX \<or> w < of_nat k")
    case True
    then show ?thesis by (auto simp: counts_def)
  next
    case False
    then have "of_nat k \<le> w" by (auto simp: not_less)
    then have "unat (w - of_nat k) = unat w - k" by (simp add: unat_sub_u32 k)
    with False assms show ?thesis by (auto simp: counts_def)
  qed
qed

lemma counts_zero: "counts w n \<Longrightarrow> w = 0 \<Longrightarrow> n = 0"
  by (auto simp: counts_def)

lemma counts_get:
  assumes "counts (namei_ext_global_scope_users st) n"
  shows "counts (namei_ext_global_scope_users (namei_ext_global_scope_get_locked st)) (Suc n)"
proof (cases "namei_ext_global_scope_users st = UINT_MAX")
  case False
  then have "unat (namei_ext_global_scope_users st) < 4294967295" by (simp only: u32_neq_UINT_MAX)
  then have "unat (namei_ext_global_scope_users st + 1) = Suc (unat (namei_ext_global_scope_users st))"
    by (subst unat_add_u32) auto
  with False assms show ?thesis
    by (auto simp: namei_ext_global_scope_get_locked_def counts_def)
qed (auto simp: namei_ext_global_scope_get_locked_def counts_def)

lemma counts_put:
  assumes "counts (namei_ext_global_scope_users st) (Suc n)"
  shows "counts (namei_ext_global_scope_users (namei_ext_global_scope_put_locked st)) n"
proof (cases "namei_ext_global_scope_users st = UINT_MAX")
  case False
  with assms have u: "unat (namei_ext_global_scope_users st) = Suc n" by (auto simp: counts_def)
  then have nz: "namei_ext_global_scope_users st \<noteq> 0" by auto
  have "unat (namei_ext_global_scope_users st - 1) = n"
    using u by (subst unat_sub_u32) (auto simp: word_le_nat_alt)
  with False nz show ?thesis
    by (auto simp: namei_ext_global_scope_put_locked_def counts_def)
qed (auto simp: namei_ext_global_scope_put_locked_def counts_def)

lemma index_add_exact:
  "counts (namei_ext_exact_scope_users st) n \<Longrightarrow> length (ss_entries s) \<le> 8 \<Longrightarrow>
     counts (namei_ext_exact_scope_users (namei_ext_scope_index_add_locked hb s st))
       (n + length (ss_entries s))"
  using counts_add [of "namei_ext_exact_scope_users st" n "length (ss_entries s)"]
  by (auto simp: namei_ext_scope_index_add_locked_def Let_def ss_nr_def split: if_splits)

lemma index_del_exact:
  "counts (namei_ext_exact_scope_users st) n \<Longrightarrow> length (ss_entries s) \<le> 8 \<Longrightarrow>
     length (ss_entries s) \<le> n \<Longrightarrow>
     counts (namei_ext_exact_scope_users (namei_ext_scope_index_del_locked s st))
       (n - length (ss_entries s))"
  using counts_sub [of "namei_ext_exact_scope_users st" n "length (ss_entries s)"]
  by (auto simp: namei_ext_scope_index_del_locked_def Let_def ss_nr_def split: if_splits)

subsection \<open>Invariant\<close>

abbreviation scopes_of :: "kstate \<Rightarrow> u64 \<Rightarrow> namei_ext_scope_set option" where
  "scopes_of st cg \<equiv> cb_scopes (ks_cgroups st cg)"

definition global_cgroups :: "kstate \<Rightarrow> u64 set" where
  "global_cgroups st = {cg. cb_scope_active (ks_cgroups st cg) \<and> scopes_of st cg = None}"

definition set_ok :: "kstate \<Rightarrow> namei_ext_scope_set \<Rightarrow> bool" where
  "set_ok st s \<longleftrightarrow>
     ss_addr s < ks_next_addr st \<and> length (ss_entries s) \<le> 8 \<and> distinct (ss_entries s) \<and>
     (ss_addr s = 0 \<longrightarrow> ss_entries s = [])"

definition addrs_ok :: "kstate \<Rightarrow> bool" where
  "addrs_ok st \<longleftrightarrow>
     0 < ks_next_addr st \<and> (\<forall>cg s. scopes_of st cg = Some s \<longrightarrow> set_ok st s) \<and>
     (\<forall>cg cg' s s'. scopes_of st cg = Some s \<longrightarrow> scopes_of st cg' = Some s' \<longrightarrow>
        cg \<noteq> cg' \<longrightarrow> ss_addr s = ss_addr s' \<longrightarrow> ss_addr s = 0)"

definition index_ok :: "hashfn \<Rightarrow> kstate \<Rightarrow> bool" where
  "index_ok hb st \<longleftrightarrow>
     index_hashed hb st \<and> index_nodes st = (\<Union>cg. set_nodes (scopes_of st cg)) \<and>
     counts (namei_ext_exact_scope_users st) (card (index_nodes st))"

definition global_ok :: "kstate \<Rightarrow> bool" where
  "global_ok st \<longleftrightarrow>
     finite {cg. cb_scope_active (ks_cgroups st cg)} \<and>
     counts (namei_ext_global_scope_users st) (card (global_cgroups st))"

definition scopes_inv :: "hashfn \<Rightarrow> kstate \<Rightarrow> bool" where
  "scopes_inv hb st \<longleftrightarrow> addrs_ok st \<and> index_ok hb st \<and> global_ok st"

text \<open>A set that may be published: freshly allocated, or the tombstone.\<close>

definition publishable :: "kstate \<Rightarrow> namei_ext_scope_set option \<Rightarrow> bool" where
  "publishable st new \<longleftrightarrow>
     (\<forall>s. new = Some s \<longrightarrow> set_ok st s \<and> (\<forall>cg s'. scopes_of st cg = Some s' \<longrightarrow>
        ss_addr s' = ss_addr s \<longrightarrow> ss_addr s = 0))"

lemma publishableD:
  assumes "publishable st (Some s)"
  shows "set_ok st s" "scopes_of st cg = Some s' \<Longrightarrow> ss_addr s' = ss_addr s \<Longrightarrow> ss_addr s = 0"
  using assms unfolding publishable_def by blast+

lemma replace_locked_fields:
  "fst (namei_ext_scope_replace_locked hb cg new st) = scopes_of st cg"
  "ks_cgroups (snd (namei_ext_scope_replace_locked hb cg new st)) =
     (ks_cgroups st)(cg := (ks_cgroups st cg)\<lparr>cb_scopes := new\<rparr>)"
  "ks_next_addr (snd (namei_ext_scope_replace_locked hb cg new st)) = ks_next_addr st"
  "ks_path_refs (snd (namei_ext_scope_replace_locked hb cg new st)) = ks_path_refs st"
  "namei_ext_targets (snd (namei_ext_scope_replace_locked hb cg new st)) = namei_ext_targets st"
  "ks_cgroup_refs (snd (namei_ext_scope_replace_locked hb cg new st)) = ks_cgroup_refs st"
  "ks_bpf_refs (snd (namei_ext_scope_replace_locked hb cg new st)) = ks_bpf_refs st"
  "ks_links (snd (namei_ext_scope_replace_locked hb cg new st)) = ks_links st"
  "ks_online (snd (namei_ext_scope_replace_locked hb cg new st)) = ks_online st"
  by (simp_all add: namei_ext_scope_replace_locked_def Let_def upd_cgroup_def
      namei_ext_scope_index_add_locked_def namei_ext_scope_index_del_locked_def
      namei_ext_global_scope_get_locked_def namei_ext_global_scope_put_locked_def
      split: option.split)

text \<open>
  The index and the counter of exact users see only the insertion of the new set and the
  removal of the old one; the global counter only sees the rest.
\<close>

definition index_replace ::
  "hashfn \<Rightarrow> namei_ext_scope_set option \<Rightarrow> namei_ext_scope_set option \<Rightarrow> kstate \<Rightarrow> kstate" where
  "index_replace hb old new st =
     (let st = (case new of Some s \<Rightarrow> namei_ext_scope_index_add_locked hb s st | None \<Rightarrow> st)
      in (case old of Some s \<Rightarrow> namei_ext_scope_index_del_locked s st | None \<Rightarrow> st))"

lemma replace_locked_index:
  "namei_ext_scope_index (snd (namei_ext_scope_replace_locked hb cg new st)) =
     namei_ext_scope_index (index_replace hb (scopes_of st cg) new st)"
  "namei_ext_exact_scope_users (snd (namei_ext_scope_replace_locked hb cg new st)) =
     namei_ext_exact_scope_users (index_replace hb (scopes_of st cg) new st)"
  by (simp_all add: namei_ext_scope_replace_locked_def index_replace_def Let_def upd_cgroup_def
      namei_ext_scope_index_add_locked_def namei_ext_scope_index_del_locked_def
      namei_ext_global_scope_get_locked_def namei_ext_global_scope_put_locked_def
      split: option.split)

lemma index_replace_hashed:
  "index_hashed hb st \<Longrightarrow> index_hashed hb (index_replace hb old new st)"
  by (auto simp: index_replace_def Let_def index_add_hashed index_del_hashed split: option.split)

lemma index_replace_nodes:
  assumes "\<And>e i s. e \<in> index_nodes st \<union> set_nodes new \<Longrightarrow> old = Some s \<Longrightarrow>
             i < length (ss_entries s) \<Longrightarrow> fst e = (ss_addr s, i) \<Longrightarrow> e \<in> set_nodes old"
  shows "index_nodes (index_replace hb old new st) =
           (index_nodes st \<union> set_nodes new) - set_nodes old"
proof -
  let ?st = "case new of Some s \<Rightarrow> namei_ext_scope_index_add_locked hb s st | None \<Rightarrow> st"
  have add: "index_nodes ?st = index_nodes st \<union> set_nodes new"
    by (auto simp: index_add_nodes split: option.split)
  show ?thesis
  proof (cases old)
    case None
    then show ?thesis using add by (simp add: index_replace_def Let_def)
  next
    case (Some s)
    have del: "e \<in> index_nodes (namei_ext_scope_index_del_locked s ?st) \<longleftrightarrow>
        e \<in> index_nodes ?st \<and> \<not> (\<exists>i<length (ss_entries s). fst e = (ss_addr s, i))" for e
      by (simp add: index_nodes_def index_del_mem)
    have old: "(\<exists>i<length (ss_entries s). fst e = (ss_addr s, i)) \<longleftrightarrow> e \<in> set_nodes old"
      if "e \<in> index_nodes ?st" for e
      using assms [of e s] that add Some by (auto simp: set_nodes_def)
    have "index_nodes (namei_ext_scope_index_del_locked s ?st) = index_nodes ?st - set_nodes old"
      by (rule set_eqI) (use del old in blast)
    then show ?thesis
      using add Some by (simp add: index_replace_def Let_def)
  qed
qed

lemma index_replace_exact:
  assumes "counts (namei_ext_exact_scope_users st) (card (index_nodes st))"
    and "index_nodes st \<inter> set_nodes new = {}" "set_nodes old \<subseteq> index_nodes st"
    and "\<And>s. new = Some s \<or> old = Some s \<Longrightarrow> length (ss_entries s) \<le> 8"
  shows "counts (namei_ext_exact_scope_users (index_replace hb old new st))
           (card ((index_nodes st \<union> set_nodes new) - set_nodes old))"
proof -
  let ?st = "case new of Some s \<Rightarrow> namei_ext_scope_index_add_locked hb s st | None \<Rightarrow> st"
  have c: "counts (namei_ext_exact_scope_users ?st) (card (index_nodes st \<union> set_nodes new))"
    using assms by (cases new) (auto simp: card_Un_disjoint card_set_nodes intro: index_add_exact)
  show ?thesis
  proof (cases old)
    case None
    then show ?thesis using c by (simp add: index_replace_def Let_def)
  next
    case (Some s)
    have sub: "set_nodes old \<subseteq> index_nodes st \<union> set_nodes new" using assms(3) by auto
    have "card (set_nodes old) \<le> card (index_nodes st \<union> set_nodes new)"
      by (rule card_mono) (use sub in auto)
    then show ?thesis
      using Some c sub assms(4) index_del_exact [OF c, of s]
      by (simp add: index_replace_def Let_def card_Diff_subset card_set_nodes)
  qed
qed

lemma addrs_okD:
  assumes "addrs_ok st"
  shows "0 < ks_next_addr st" "scopes_of st cg = Some s \<Longrightarrow> set_ok st s"
    "scopes_of st cg = Some s \<Longrightarrow> scopes_of st cg' = Some s' \<Longrightarrow> cg \<noteq> cg' \<Longrightarrow>
       ss_addr s = ss_addr s' \<Longrightarrow> ss_addr s = 0"
  using assms unfolding addrs_ok_def by blast+

lemma set_okD:
  "set_ok st s \<Longrightarrow> length (ss_entries s) \<le> 8"
  "set_ok st s \<Longrightarrow> ss_addr s = 0 \<Longrightarrow> ss_entries s = []"
  "set_ok st s \<Longrightarrow> distinct (ss_entries s)"
  by (simp_all add: set_ok_def)

text \<open>Nodes of two sets with one address belong to the same cgroup.\<close>

lemma old_node_owned:
  assumes "addrs_ok st" "publishable st new" "scopes_of st cg = Some s"
    and "e \<in> (\<Union>cg. set_nodes (scopes_of st cg)) \<union> set_nodes new"
    and "i < length (ss_entries s)" "fst e = (ss_addr s, i)"
  shows "e \<in> set_nodes (scopes_of st cg)"
proof -
  have nz: "ss_addr s \<noteq> 0"
    using assms(5) addrs_okD(2) [OF assms(1,3)] by (auto simp: set_ok_def)
  have "e \<notin> set_nodes new"
  proof
    assume "e \<in> set_nodes new"
    then obtain s' where "new = Some s'" "ss_addr s' = ss_addr s"
      using assms(6) by (cases new) (auto simp: set_nodes_def)
    then show False using publishableD(2) [of st s' cg s] assms(2,3) nz by auto
  qed
  with assms(4) obtain cg' where cg': "e \<in> set_nodes (scopes_of st cg')" by auto
  then obtain s' where s': "scopes_of st cg' = Some s'" by (cases "scopes_of st cg'") auto
  with cg' have "ss_addr s' = ss_addr s" using assms(6) by (auto simp: set_nodes_def)
  with addrs_okD(3) [OF assms(1) assms(3) s'] nz have "cg' = cg" by auto
  with cg' show ?thesis by simp
qed

lemma new_nodes_fresh:
  assumes "addrs_ok st" "publishable st new"
  shows "(\<Union>cg. set_nodes (scopes_of st cg)) \<inter> set_nodes new = {}"
proof (rule ccontr)
  assume "\<not> ?thesis"
  then obtain e cg where e: "e \<in> set_nodes (scopes_of st cg)" "e \<in> set_nodes new" by auto
  then obtain s s' where s: "scopes_of st cg = Some s" "new = Some s'"
    by (cases "scopes_of st cg"; cases new) auto
  with e have "ss_addr s = ss_addr s'" "ss_entries s' \<noteq> []" by (auto simp: set_nodes_def)
  with s assms(2) show False by (auto simp: publishable_def set_ok_def)
qed

lemma replace_locked_addrs_ok:
  assumes "addrs_ok st" "publishable st new"
  shows "addrs_ok (snd (namei_ext_scope_replace_locked hb cg new st))"
proof -
  let ?st = "snd (namei_ext_scope_replace_locked hb cg new st)"
  have sc: "scopes_of ?st c = (if c = cg then new else scopes_of st c)" for c
    by (simp add: replace_locked_fields)
  have ok: "set_ok ?st s = set_ok st s" for s
    by (simp add: set_ok_def replace_locked_fields)
  show ?thesis
    unfolding addrs_ok_def sc ok
  proof (intro conjI allI impI)
    show "0 < ks_next_addr ?st" using addrs_okD(1) [OF assms(1)] by (simp add: replace_locked_fields)
  next
    fix c s assume "(if c = cg then new else scopes_of st c) = Some s"
    then show "set_ok st s"
      using assms addrs_okD(2) [OF assms(1)] by (auto simp: publishable_def split: if_splits)
  next
    fix c c' s s'
    assume "(if c = cg then new else scopes_of st c) = Some s"
      "(if c' = cg then new else scopes_of st c') = Some s'" "c \<noteq> c'" "ss_addr s = ss_addr s'"
    then show "ss_addr s = 0"
      using assms(2) addrs_okD(3) [OF assms(1)]
      by (auto simp: publishable_def split: if_splits)
  qed
qed

lemma replace_locked_index_ok:
  assumes "addrs_ok st" "index_ok hb st" "publishable st new"
  shows "index_ok hb (snd (namei_ext_scope_replace_locked hb cg new st))"
    and "index_nodes (snd (namei_ext_scope_replace_locked hb cg new st)) =
           (index_nodes st \<union> set_nodes new) - set_nodes (scopes_of st cg)"
proof -
  let ?st = "snd (namei_ext_scope_replace_locked hb cg new st)"
  let ?old = "scopes_of st cg"
  let ?ir = "index_replace hb ?old new st"
  have all: "index_nodes st = (\<Union>cg. set_nodes (scopes_of st cg))"
    using assms(2) by (simp add: index_ok_def)
  have same: "index_nodes ?st = index_nodes ?ir" "index_hashed hb ?st = index_hashed hb ?ir"
    by (simp_all add: index_nodes_def index_hashed_def replace_locked_index)
  have nodes: "index_nodes ?ir = (index_nodes st \<union> set_nodes new) - set_nodes ?old"
    by (rule index_replace_nodes) (use old_node_owned [OF assms(1,3)] all in auto)
  have dis: "index_nodes st \<inter> set_nodes new = {}"
    using new_nodes_fresh [OF assms(1,3)] all by simp
  have len: "new = Some s \<or> ?old = Some s \<Longrightarrow> length (ss_entries s) \<le> 8" for s
    using assms(3) addrs_okD(2) [OF assms(1), of cg s]
    by (auto simp: publishable_def dest: set_okD)
  have cnt: "counts (namei_ext_exact_scope_users ?ir)
      (card ((index_nodes st \<union> set_nodes new) - set_nodes ?old))"
    by (rule index_replace_exact) (use assms(2) dis all len in \<open>auto simp: index_ok_def\<close>)
  show n: "index_nodes ?st = (index_nodes st \<union> set_nodes new) - set_nodes ?old"
    using same nodes by simp
  have un: "(\<Union>c. set_nodes (scopes_of ?st c)) = set_nodes new \<union> (\<Union>c\<in>-{cg}. set_nodes (scopes_of st c))"
    by (auto simp: replace_locked_fields split: if_splits)
  have "e \<notin> set_nodes ?old" if oth: "e \<in> set_nodes (scopes_of st c)" "c \<noteq> cg" for e c
  proof
    assume e: "e \<in> set_nodes ?old"
    then obtain s s' where s: "?old = Some s" "scopes_of st c = Some s'"
      using oth by (cases ?old; cases "scopes_of st c") auto
    then have "ss_addr s = ss_addr s'" "ss_entries s \<noteq> []" using e oth by (auto simp: set_nodes_def)
    with s oth(2) addrs_okD(3) [OF assms(1) s] addrs_okD(2) [OF assms(1) s(1)]
    show False by (auto simp: set_ok_def)
  qed
  then have "(index_nodes st \<union> set_nodes new) - set_nodes ?old = (\<Union>c. set_nodes (scopes_of ?st c))"
    unfolding un all using dis all by auto blast
  then show "index_ok hb ?st"
    using n same cnt assms(2) index_replace_hashed [of hb st ?old new]
    by (simp add: index_ok_def replace_locked_index)
qed

text \<open>The counter of global users after a replacement.\<close>

lemma replace_locked_global:
  "namei_ext_global_scope_users (snd (namei_ext_scope_replace_locked hb cg new st)) =
     namei_ext_global_scope_users
       (let active = cb_scope_active (ks_cgroups st cg);
            st = (if new = None \<and> active then namei_ext_global_scope_get_locked st else st)
        in if scopes_of st cg = None \<and> active then namei_ext_global_scope_put_locked st else st)"
  by (simp add: namei_ext_scope_replace_locked_def Let_def upd_cgroup_def
      namei_ext_scope_index_add_locked_def namei_ext_scope_index_del_locked_def
      namei_ext_global_scope_get_locked_def namei_ext_global_scope_put_locked_def
      split: option.split)

lemma scopes_of_get [simp]:
  "ks_cgroups (namei_ext_global_scope_get_locked st) = ks_cgroups st"
  "ks_cgroups (namei_ext_global_scope_put_locked st) = ks_cgroups st"
  by (simp_all add: namei_ext_global_scope_get_locked_def namei_ext_global_scope_put_locked_def)

lemma finite_global_cgroups: "global_ok st \<Longrightarrow> finite (global_cgroups st)"
  by (rule finite_subset [of _ "{cg. cb_scope_active (ks_cgroups st cg)}"])
     (auto simp: global_ok_def global_cgroups_def)

lemma replace_locked_global_ok:
  assumes "global_ok st"
  shows "global_ok (snd (namei_ext_scope_replace_locked hb cg new st))"
proof -
  let ?st = "snd (namei_ext_scope_replace_locked hb cg new st)"
  let ?G = "global_cgroups st" and ?G' = "global_cgroups ?st"
  have fin: "finite ?G" by (rule finite_global_cgroups [OF assms])
  have c: "counts (namei_ext_global_scope_users st) (card ?G)"
    using assms by (simp add: global_ok_def)
  have act: "{c. cb_scope_active (ks_cgroups ?st c)} = {c. cb_scope_active (ks_cgroups st c)}"
    by (auto simp: replace_locked_fields)
  have G': "?G' = (if cb_scope_active (ks_cgroups st cg) \<and> new = None then insert cg ?G else ?G - {cg})"
    by (auto simp: global_cgroups_def replace_locked_fields)
  have "counts (namei_ext_global_scope_users ?st) (card ?G')"
  proof (cases "cb_scope_active (ks_cgroups st cg)")
    case False
    then have "cg \<notin> ?G" by (simp add: global_cgroups_def)
    with False c G' show ?thesis by (simp add: replace_locked_global)
  next
    case active: True
    show ?thesis
    proof (cases "scopes_of st cg")
      case None
      then have cg: "cg \<in> ?G" using active by (simp add: global_cgroups_def)
      then have Suc: "card ?G = Suc (card (?G - {cg}))" by (rule card.remove [OF fin])
      show ?thesis
      proof (cases new)
        case None
        then have "?G' = ?G" using G' active cg by auto
        with None \<open>scopes_of st cg = None\<close> active counts_put [OF counts_get [OF c]]
        show ?thesis by (simp add: replace_locked_global Let_def)
      next
        case (Some s)
        then have "?G' = ?G - {cg}" using G' by simp
        with Some \<open>scopes_of st cg = None\<close> active counts_put [of st "card (?G - {cg})"] c Suc
        show ?thesis by (simp add: replace_locked_global Let_def)
      qed
    next
      case (Some s)
      then have cg: "cg \<notin> ?G" by (simp add: global_cgroups_def)
      show ?thesis
      proof (cases new)
        case None
        then have "card ?G' = Suc (card ?G)" using G' active cg fin by simp
        with None Some active counts_get [OF c] show ?thesis
          by (simp add: replace_locked_global Let_def)
      next
        case (Some s')
        then have "?G' = ?G" using G' cg by simp
        with Some \<open>scopes_of st cg = Some s\<close> c show ?thesis
          by (simp add: replace_locked_global Let_def)
      qed
    qed
  qed
  then show ?thesis using assms act by (simp add: global_ok_def)
qed

lemma replace_locked_inv:
  assumes "scopes_inv hb st" "publishable st new"
  shows "scopes_inv hb (snd (namei_ext_scope_replace_locked hb cg new st))"
  using assms
  by (simp add: scopes_inv_def replace_locked_addrs_ok replace_locked_index_ok
      replace_locked_global_ok)

text \<open>Operations that leave the scope state alone keep the invariant.\<close>

lemma scopes_inv_cong:
  assumes "namei_ext_scope_index st' = namei_ext_scope_index st"
    "namei_ext_exact_scope_users st' = namei_ext_exact_scope_users st"
    "namei_ext_global_scope_users st' = namei_ext_global_scope_users st"
    "ks_next_addr st' = ks_next_addr st"
    "\<And>cg. scopes_of st' cg = scopes_of st cg"
    "\<And>cg. cb_scope_active (ks_cgroups st' cg) = cb_scope_active (ks_cgroups st cg)"
  shows "scopes_inv hb st' = scopes_inv hb st"
  using assms
  by (simp add: scopes_inv_def addrs_ok_def set_ok_def index_ok_def index_hashed_def
      index_nodes_def global_ok_def global_cgroups_def)

lemma scopes_inv_refs [simp]:
  "scopes_inv hb (path_get p st) = scopes_inv hb st"
  "scopes_inv hb (path_put p st) = scopes_inv hb st"
  "scopes_inv hb (path_get_list ps st) = scopes_inv hb st"
  "scopes_inv hb (path_put_list ps st) = scopes_inv hb st"
  "scopes_inv hb (cgroup_get cg st) = scopes_inv hb st"
  "scopes_inv hb (cgroup_put cg st) = scopes_inv hb st"
  "scopes_inv hb (cgroup_bpf_get cg st) = scopes_inv hb st"
  "scopes_inv hb (cgroup_bpf_put cg st) = scopes_inv hb st"
  "scopes_inv hb (namei_ext_free_scopes s st) = scopes_inv hb st"
  "scopes_inv hb (namei_ext_finish_scope_replace s st) = scopes_inv hb st"
  "scopes_inv hb (namei_ext_clear_targets cg st) = scopes_inv hb st"
  "scopes_inv hb (namei_ext_put_cgroup cg st) = scopes_inv hb st"
  by (rule scopes_inv_cong; simp add: refs_eq cgroup_ref_defs namei_ext_free_scopes_def
      namei_ext_finish_scope_replace_def clear_targets_eq namei_ext_put_cgroup_def
      split: option.split)+

lemma alloc_scopes_inv:
  assumes "scopes_inv hb st"
  shows "scopes_inv hb (snd (namei_ext_alloc_scopes alloc nr st))"
proof -
  let ?st = "st\<lparr>ks_next_addr := Suc (ks_next_addr st)\<rparr>"
  have "addrs_ok ?st" using assms unfolding scopes_inv_def addrs_ok_def set_ok_def by fastforce
  moreover have "index_ok hb ?st = index_ok hb st" "global_ok ?st = global_ok st"
    by (simp_all add: index_ok_def index_hashed_def index_nodes_def global_ok_def global_cgroups_def)
  ultimately show ?thesis
    using assms by (simp add: namei_ext_alloc_scopes_def scopes_inv_def)
qed

lemma alloc_scopes_publishable:
  assumes "scopes_inv hb st" "namei_ext_alloc_scopes alloc nr st = (Some s, st')"
    "length ps \<le> 8" "distinct ps"
  shows "publishable st' (Some (s\<lparr>ss_entries := ps\<rparr>))"
proof -
  have a: "addrs_ok st" using assms(1) by (simp add: scopes_inv_def)
  have s: "s = \<lparr>ss_addr = ks_next_addr st, ss_entries = []\<rparr>"
    "st' = st\<lparr>ks_next_addr := Suc (ks_next_addr st)\<rparr>"
    using assms(2) by (auto simp: namei_ext_alloc_scopes_def split: if_splits)
  have "ss_addr s' < ks_next_addr st" if "scopes_of st cg = Some s'" for cg s'
    using addrs_okD(2) [OF a that] by (simp add: set_ok_def)
  then show ?thesis
    using s assms(3,4) addrs_okD(1) [OF a] by (fastforce simp: publishable_def set_ok_def)
qed

subsection \<open>Every operation keeps the invariant\<close>

lemma cgroup_is_dead_path_get_list [simp]:
  "cgroup_is_dead cg (path_get_list ps st) = cgroup_is_dead cg st"
  by (simp add: path_get_list_eq cgroup_is_dead_def)

lemma publishable_refs [simp]:
  "publishable (path_get p st) new = publishable st new"
  "publishable (path_get_list ps st) new = publishable st new"
  by (simp_all add: publishable_def set_ok_def refs_eq)

lemma tombstone_publishable: "scopes_inv hb st \<Longrightarrow> publishable st (Some namei_ext_scope_tombstone)"
  by (auto simp: publishable_def namei_ext_scope_tombstone_def set_ok_def scopes_inv_def addrs_ok_def)

lemma None_publishable [simp]: "publishable st None"
  by (simp add: publishable_def)

lemma alloc_scopes_cases:
  obtains (fail) "namei_ext_alloc_scopes alloc nr st = (None, st)"
  | (ok) "nr \<le> NAMEI_EXT_MAX_POLICY_PARENTS"
      "namei_ext_alloc_scopes alloc nr st =
        (Some \<lparr>ss_addr = ks_next_addr st, ss_entries = []\<rparr>,
         st\<lparr>ks_next_addr := Suc (ks_next_addr st)\<rparr>)"
  by (cases "nr > NAMEI_EXT_MAX_POLICY_PARENTS \<or> \<not> alloc")
     (auto simp: namei_ext_alloc_scopes_def not_less)

lemma scope_exact_inv:
  assumes "scopes_inv hb st"
  shows "scopes_inv hb (snd (namei_ext_scope_exact hb alloc cg path st))"
proof (cases rule: alloc_scopes_cases [of alloc 1 st])
  case fail
  then show ?thesis using assms by (simp add: namei_ext_scope_exact_def)
next
  case ok
  show ?thesis
    using ok alloc_scopes_inv [OF assms, of alloc 1]
      alloc_scopes_publishable [OF assms ok(2), of "[path]"]
    by (simp add: namei_ext_scope_exact_def Let_def split_beta replace_locked_inv)
qed

lemma scope_empty_inv:
  assumes "scopes_inv hb st"
  shows "scopes_inv hb (snd (namei_ext_scope_empty hb alloc cg st))"
proof (cases rule: alloc_scopes_cases [of alloc 0 st])
  case fail
  then show ?thesis using assms by (simp add: namei_ext_scope_empty_def)
next
  case ok
  show ?thesis
    using ok alloc_scopes_inv [OF assms, of alloc 0]
      alloc_scopes_publishable [OF assms ok(2), of "[]"]
    by (simp add: namei_ext_scope_empty_def Let_def split_beta replace_locked_inv)
qed

lemma scope_global_inv:
  "scopes_inv hb st \<Longrightarrow> scopes_inv hb (snd (namei_ext_scope_global hb cg st))"
  by (simp add: namei_ext_scope_global_def Let_def split_beta replace_locked_inv)

lemma ss_nr_max:
  "length (ss_entries s) \<le> 8 \<Longrightarrow> ss_nr s = NAMEI_EXT_MAX_POLICY_PARENTS \<longleftrightarrow> length (ss_entries s) = 8"
  by (auto simp: ss_nr_def NAMEI_EXT_MAX_POLICY_PARENTS_def word_unat_eq_iff unat_of_nat_u32)

lemma scope_add_inv:
  assumes "scopes_inv hb st"
  shows "scopes_inv hb (snd (namei_ext_scope_add hb alloc cg path st))"
proof (cases "cgroup_is_dead cg st \<or> scopes_of st cg = None")
  case True
  then show ?thesis using assms by (auto simp: namei_ext_scope_add_def)
next
  case False
  then obtain s where s: "scopes_of st cg = Some s" "\<not> cgroup_is_dead cg st" by auto
  have so: "set_ok st s"
    using assms s by (auto simp: scopes_inv_def dest: addrs_okD)
  let ?full = "list_ex (\<lambda>q. path_equal q path) (ss_entries s) \<or> ss_nr s = NAMEI_EXT_MAX_POLICY_PARENTS"
  show ?thesis
  proof (cases ?full)
    case True
    then show ?thesis using assms s by (auto simp: namei_ext_scope_add_def)
  next
    case nf: False
    have ps: "length (ss_entries s @ [path]) \<le> 8" "distinct (ss_entries s @ [path])"
      using nf so ss_nr_max [of s] by (auto simp: set_ok_def list_ex_iff)
    show ?thesis
    proof (cases rule: alloc_scopes_cases [of alloc "ss_nr s + 1" st])
      case fail
      then show ?thesis using assms s nf by (simp add: namei_ext_scope_add_def)
    next
      case ok
      show ?thesis
        using ok nf s alloc_scopes_inv [OF assms, of alloc "ss_nr s + 1"]
          alloc_scopes_publishable [OF assms ok(2) ps]
        by (simp add: namei_ext_scope_add_def Let_def split_beta replace_locked_inv)
    qed
  qed
qed

lemma policy_parent_command_inv:
  "scopes_inv hb st \<Longrightarrow>
     scopes_inv hb (snd (policy_parent_command hb env cg command fd nfields st))"
  by (simp add: policy_parent_command_def scope_empty_inv scope_global_inv scope_exact_inv
      scope_add_inv split: option.split)

text \<open>A write either fails before it reaches a cgroup or is one command bracketed by the references.\<close>

lemma policy_parent_write_cases:
  obtains (error) e where "namei_ext_policy_parent_write hb env count st = (Inl e, st)"
  | (command) buf command fd nfields ret st' where
      "we_copy env count = Some buf" "we_scan_suc env (cstr buf) = (command, fd, nfields)"
      "policy_parent_command hb env (we_current env) command fd nfields
         (cgroup_get (we_current env) (cgroup_bpf_get (we_current env) st)) = (ret, st')"
      "namei_ext_policy_parent_write hb env count st =
         (case ret of Some e \<Rightarrow> Inl e | None \<Rightarrow> Inr count, namei_ext_put_cgroup (we_current env) st')"
proof -
  show thesis
  proof (cases "count = 0 \<or> count \<ge> 64 \<or> we_copy env count = None \<or>
      fst (namei_ext_current_cgroup (we_current env) (we_tryget env) st) = None")
    case True
    then show thesis
      by (intro error [of "if count = 0 \<or> count \<ge> 64 then EINVAL
            else if we_copy env count = None then EFAULT else ENODEV"])
         (auto simp: namei_ext_policy_parent_write_def Let_def
           dest: namei_ext_current_cgroup_None split: option.split prod.split)
  next
    case False
    then obtain buf cg st1 where ok: "\<not> (count = 0 \<or> count \<ge> 64)" "we_copy env count = Some buf"
      "namei_ext_current_cgroup (we_current env) (we_tryget env) st = (Some cg, st1)"
      by (metis prod.collapse option.exhaust)
    obtain c f n where sc: "we_scan_suc env (cstr buf) = (c, f, n)" by (metis prod_cases3)
    obtain r st' where r: "policy_parent_command hb env cg c f n st1 = (r, st')" by fastforce
    show thesis
      using ok sc r namei_ext_current_cgroup_Some [OF ok(3)]
      by (intro command [of buf c f n r st'])
         (simp_all add: namei_ext_policy_parent_write_def Let_def split: option.split)
  qed
qed

lemma policy_parent_write_inv:
  assumes "scopes_inv hb st"
  shows "scopes_inv hb (snd (namei_ext_policy_parent_write hb env count st))"
proof (cases rule: policy_parent_write_cases [of hb env count st])
  case (command buf c f n r st')
  then show ?thesis
    using policy_parent_command_inv [of hb "cgroup_get (we_current env) (cgroup_bpf_get (we_current env) st)"
        env "we_current env" c f n] assms
    by simp
qed (use assms in simp)

lemma upd_active_scopes [simp]:
  "scopes_of (upd_cgroup cg (\<lambda>c. c\<lparr>cb_scope_active := a\<rparr>) st) c = scopes_of st c"
  "cb_scope_active (ks_cgroups (upd_cgroup cg (\<lambda>c. c\<lparr>cb_scope_active := a\<rparr>) st) c) =
     (if c = cg then a else cb_scope_active (ks_cgroups st c))"
  by (simp_all add: upd_cgroup_def)

lemma upd_cgroup_fields [simp]:
  "namei_ext_scope_index (upd_cgroup cg f st) = namei_ext_scope_index st"
  "namei_ext_exact_scope_users (upd_cgroup cg f st) = namei_ext_exact_scope_users st"
  "namei_ext_global_scope_users (upd_cgroup cg f st) = namei_ext_global_scope_users st"
  "ks_next_addr (upd_cgroup cg f st) = ks_next_addr st"
  "ks_path_refs (upd_cgroup cg f st) = ks_path_refs st"
  "namei_ext_targets (upd_cgroup cg f st) = namei_ext_targets st"
  by (simp_all add: upd_cgroup_def)

lemma upd_active_index_ok:
  "index_ok hb (upd_cgroup cg (\<lambda>c. c\<lparr>cb_scope_active := a\<rparr>) st) = index_ok hb st"
  "addrs_ok (upd_cgroup cg (\<lambda>c. c\<lparr>cb_scope_active := a\<rparr>) st) = addrs_ok st"
  by (simp_all add: index_ok_def index_hashed_def index_nodes_def addrs_ok_def set_ok_def)

lemma global_get_put_ok [simp]:
  "index_ok hb (namei_ext_global_scope_get_locked st) = index_ok hb st"
  "index_ok hb (namei_ext_global_scope_put_locked st) = index_ok hb st"
  "addrs_ok (namei_ext_global_scope_get_locked st) = addrs_ok st"
  "addrs_ok (namei_ext_global_scope_put_locked st) = addrs_ok st"
  by (simp_all add: index_ok_def index_hashed_def index_nodes_def addrs_ok_def set_ok_def
      namei_ext_global_scope_get_locked_def namei_ext_global_scope_put_locked_def)

lemma set_scope_active_inv:
  assumes "scopes_inv hb st"
  shows "scopes_inv hb (namei_ext_cgroup_set_scope_active cg a st)"
proof (cases "cb_scope_active (ks_cgroups st cg) = a")
  case True
  then show ?thesis using assms by (simp add: namei_ext_cgroup_set_scope_active_def)
next
  case False
  let ?st = "namei_ext_cgroup_set_scope_active cg a st"
  let ?G = "global_cgroups st"
  have g: "global_ok st" using assms by (simp add: scopes_inv_def)
  then have c: "counts (namei_ext_global_scope_users st) (card ?G)" by (simp add: global_ok_def)
  note fin = finite_global_cgroups [OF g]
  have cgs: "ks_cgroups ?st = ks_cgroups (upd_cgroup cg (\<lambda>c. c\<lparr>cb_scope_active := a\<rparr>) st)"
    using False by (simp add: namei_ext_cgroup_set_scope_active_def Let_def upd_cgroup_def)
  have G': "global_cgroups ?st = (if a \<and> scopes_of st cg = None then insert cg ?G else ?G - {cg})"
    using False by (auto simp: global_cgroups_def cgs)
  have fa: "finite {c. cb_scope_active (ks_cgroups ?st c)}"
  proof (rule finite_subset [of _ "insert cg {c. cb_scope_active (ks_cgroups st c)}"])
    show "{c. cb_scope_active (ks_cgroups ?st c)} \<subseteq> insert cg {c. cb_scope_active (ks_cgroups st c)}"
      by (auto simp: cgs split: if_splits)
    show "finite (insert cg {c. cb_scope_active (ks_cgroups st c)})"
      using g by (simp add: global_ok_def)
  qed
  have "counts (namei_ext_global_scope_users ?st) (card (global_cgroups ?st))"
  proof (cases "scopes_of st cg")
    case (Some s)
    then have "cg \<notin> ?G" by (simp add: global_cgroups_def)
    with Some False c G' show ?thesis by (simp add: namei_ext_cgroup_set_scope_active_def Let_def)
  next
    case None
    show ?thesis
    proof (cases a)
      case True
      then have "cg \<notin> ?G" using False by (simp add: global_cgroups_def)
      with None True False fin G' counts_get [OF c] show ?thesis
        by (simp add: namei_ext_cgroup_set_scope_active_def Let_def)
    next
      case na: False
      then have "cg \<in> ?G" using False None by (simp add: global_cgroups_def)
      then have "card ?G = Suc (card (?G - {cg}))" by (rule card.remove [OF fin])
      with None na False G' c counts_put [of st "card (?G - {cg})"] show ?thesis
        by (simp add: namei_ext_cgroup_set_scope_active_def Let_def)
    qed
  qed
  with fa have "global_ok ?st" by (simp add: global_ok_def)
  moreover have "index_ok hb ?st" "addrs_ok ?st"
    using assms by (simp_all add: namei_ext_cgroup_set_scope_active_def Let_def upd_active_index_ok
        scopes_inv_def)
  ultimately show ?thesis by (simp add: scopes_inv_def)
qed

lemma upd_inactive_inv:
  assumes "scopes_inv hb st" "scopes_of st cg \<noteq> None"
  shows "scopes_inv hb (upd_cgroup cg (\<lambda>c. c\<lparr>cb_scope_active := False\<rparr>) st)"
proof -
  let ?st = "upd_cgroup cg (\<lambda>c. c\<lparr>cb_scope_active := False\<rparr>) st"
  have "global_cgroups ?st = global_cgroups st"
    using assms(2) by (auto simp: global_cgroups_def)
  moreover have "finite {c. cb_scope_active (ks_cgroups ?st c)}"
    by (rule finite_subset [of _ "{c. cb_scope_active (ks_cgroups st c)}"])
       (use assms(1) in \<open>auto simp: scopes_inv_def global_ok_def\<close>)
  ultimately show ?thesis
    using assms(1) by (simp add: scopes_inv_def upd_active_index_ok global_ok_def)
qed

lemma cgroup_release_inv:
  assumes "scopes_inv hb st"
  shows "scopes_inv hb (namei_ext_cgroup_release hb cg st)"
  using upd_inactive_inv [OF replace_locked_inv [OF assms tombstone_publishable [OF assms]], of cg cg]
  by (simp add: namei_ext_cgroup_release_def Let_def split_beta replace_locked_fields)

subsection \<open>References held by the sets\<close>

definition scope_holds :: "kstate \<Rightarrow> path \<Rightarrow> int" where
  "scope_holds st p = int (card {n. (n, p) \<in> index_nodes st})"

definition unscoped_refs :: "kstate \<Rightarrow> path \<Rightarrow> int" where
  "unscoped_refs st p = ks_path_refs st p - scope_holds st p"

definition entry_count :: "namei_ext_scope_set option \<Rightarrow> path \<Rightarrow> nat" where
  "entry_count scopes p = (case scopes of None \<Rightarrow> 0 | Some s \<Rightarrow> count_list (ss_entries s) p)"

lemma card_set_nodes_path: "card {n. (n, p) \<in> set_nodes scopes} = entry_count scopes p"
proof (cases scopes)
  case (Some s)
  have "{n. (n, p) \<in> set_nodes (Some s)} =
      (\<lambda>i. (ss_addr s, i)) ` {i. i < length (ss_entries s) \<and> ss_entries s ! i = p}"
    by (auto simp: set_nodes_def)
  moreover have "card ((\<lambda>i. (ss_addr s, i)) ` {i. i < length (ss_entries s) \<and> ss_entries s ! i = p}) =
      card {i. i < length (ss_entries s) \<and> ss_entries s ! i = p}"
    by (rule card_image) (auto intro: inj_onI)
  ultimately show ?thesis
    using Some by (simp add: entry_count_def count_list_eq_length_filter length_filter_conv_card eq_commute)
qed (simp add: entry_count_def)

lemma finite_nodes_path: "finite N \<Longrightarrow> finite {n. (n, p) \<in> N}"
  by (rule finite_subset [of _ "fst ` N"]) (force simp: image_iff)+

lemma replace_locked_holds:
  assumes "scopes_inv hb st" "publishable st new"
  shows "scope_holds (snd (namei_ext_scope_replace_locked hb cg new st)) p =
           scope_holds st p + int (entry_count new p) - int (entry_count (scopes_of st cg) p)"
proof -
  let ?old = "scopes_of st cg"
  let ?at = "\<lambda>N. {n. (n, p) \<in> N}"
  have inv: "addrs_ok st" "index_ok hb st" using assms(1) by (simp_all add: scopes_inv_def)
  have all: "index_nodes st = (\<Union>cg. set_nodes (scopes_of st cg))"
    using inv(2) by (simp add: index_ok_def)
  have dis: "?at (index_nodes st) \<inter> ?at (set_nodes new) = {}"
    using new_nodes_fresh [OF inv(1) assms(2)] all by auto
  have sub: "?at (set_nodes ?old) \<subseteq> ?at (index_nodes st)" using all by auto
  have fin: "finite (?at (index_nodes st))" "finite (?at (set_nodes new))" "finite (?at (set_nodes ?old))"
    by (simp_all add: finite_nodes_path)
  have "?at (index_nodes (snd (namei_ext_scope_replace_locked hb cg new st))) =
      (?at (index_nodes st) \<union> ?at (set_nodes new)) - ?at (set_nodes ?old)"
    by (auto simp: replace_locked_index_ok [OF inv assms(2)])
  moreover have "card ((?at (index_nodes st) \<union> ?at (set_nodes new)) - ?at (set_nodes ?old)) =
      card (?at (index_nodes st)) + card (?at (set_nodes new)) - card (?at (set_nodes ?old))"
    using sub fin dis by (subst card_Diff_subset) (auto simp: card_Un_disjoint)
  moreover have "card (?at (set_nodes ?old)) \<le> card (?at (index_nodes st))"
    by (rule card_mono [OF fin(1) sub])
  ultimately show ?thesis
    by (simp add: scope_holds_def card_set_nodes_path)
qed

lemma unscoped_refs_cong [simp]:
  "scope_holds (st\<lparr>ks_path_refs := r\<rparr>) p = scope_holds st p"
  "scope_holds (st\<lparr>ks_next_addr := a\<rparr>) p = scope_holds st p"
  "scope_holds (upd_cgroup cg f st) p = scope_holds st p"
  "scope_holds (st\<lparr>namei_ext_targets := ts\<rparr>) p = scope_holds st p"
  "scope_holds (cgroup_get cg st) p = scope_holds st p"
  "scope_holds (cgroup_put cg st) p = scope_holds st p"
  "scope_holds (cgroup_bpf_get cg st) p = scope_holds st p"
  "scope_holds (cgroup_bpf_put cg st) p = scope_holds st p"
  by (simp_all add: scope_holds_def index_nodes_def cgroup_ref_defs)

text \<open>
  Publishing a set whose references are already taken, then dropping the references of the
  set it replaces, leaves everyone else's references alone.
\<close>

lemma publish_unscoped:
  assumes "scopes_inv hb st" "publishable st new"
    and "namei_ext_scope_replace_locked hb cg new st = (old, st')"
  shows "unscoped_refs (namei_ext_finish_scope_replace old st') p =
           unscoped_refs st p - int (entry_count new p)"
proof -
  have old: "old = scopes_of st cg" "ks_path_refs st' = ks_path_refs st"
    using replace_locked_fields(1,4) [of hb cg new st] assms(3) by simp_all
  have holds: "scope_holds st' p =
      scope_holds st p + int (entry_count new p) - int (entry_count old p)"
    using replace_locked_holds [OF assms(1,2), of cg p] assms(3) old by simp
  have "ks_path_refs (namei_ext_finish_scope_replace old st') p =
      ks_path_refs st' p - int (entry_count old p)"
  proof (cases old)
    case (Some s)
    then have "set_ok st s" using assms(1) old by (auto simp: scopes_inv_def dest: addrs_okD)
    with Some show ?thesis
      by (auto simp: namei_ext_finish_scope_replace_def namei_ext_free_scopes_def path_put_list_eq
          entry_count_def namei_ext_scope_tombstone_def set_ok_def)
  qed (simp add: namei_ext_finish_scope_replace_def namei_ext_free_scopes_def entry_count_def)
  moreover have "scope_holds (namei_ext_finish_scope_replace old st') p = scope_holds st' p"
    by (simp add: namei_ext_finish_scope_replace_def namei_ext_free_scopes_def path_put_list_eq
        split: option.split)
  ultimately show ?thesis
    using holds old by (simp add: unscoped_refs_def)
qed

lemma unscoped_refs_get [simp]:
  "unscoped_refs (path_get q st) p = unscoped_refs st p + of_bool (p = q)"
  "unscoped_refs (path_get_list qs st) p = unscoped_refs st p + int (count_list qs p)"
  "unscoped_refs (path_put q st) p = unscoped_refs st p - of_bool (p = q)"
  "unscoped_refs (path_put_list qs st) p = unscoped_refs st p - int (count_list qs p)"
  "unscoped_refs (st\<lparr>ks_next_addr := a\<rparr>) p = unscoped_refs st p"
  by (simp_all add: unscoped_refs_def refs_eq)

lemma scope_exact_refs:
  assumes "scopes_inv hb st"
  shows "unscoped_refs (snd (namei_ext_scope_exact hb alloc cg path st)) p = unscoped_refs st p"
proof (cases rule: alloc_scopes_cases [of alloc 1 st])
  case fail
  then show ?thesis by (simp add: namei_ext_scope_exact_def)
next
  case ok
  let ?st = "st\<lparr>ks_next_addr := Suc (ks_next_addr st)\<rparr>"
  let ?s = "\<lparr>ss_addr = ks_next_addr st, ss_entries = [path]\<rparr>"
  have pub: "publishable ?st (Some ?s)" "scopes_inv hb ?st" "0 < ks_next_addr st"
    using alloc_scopes_publishable [OF assms ok(2), of "[path]"] alloc_scopes_inv [OF assms, of alloc 1] ok
      assms by (simp_all add: scopes_inv_def addrs_ok_def)
  obtain old st' where r: "namei_ext_scope_replace_locked hb cg (Some ?s) (path_get path ?st) = (old, st')"
    by fastforce
  show ?thesis
    using ok pub r publish_unscoped [of hb "path_get path ?st" "Some ?s" cg old st' p]
    by (simp add: namei_ext_scope_exact_def Let_def namei_ext_free_scopes_def
        namei_ext_scope_tombstone_def entry_count_def)
qed

lemma scope_empty_refs:
  assumes "scopes_inv hb st"
  shows "unscoped_refs (snd (namei_ext_scope_empty hb alloc cg st)) p = unscoped_refs st p"
proof (cases rule: alloc_scopes_cases [of alloc 0 st])
  case fail
  then show ?thesis by (simp add: namei_ext_scope_empty_def)
next
  case ok
  let ?st = "st\<lparr>ks_next_addr := Suc (ks_next_addr st)\<rparr>"
  let ?s = "\<lparr>ss_addr = ks_next_addr st, ss_entries = []\<rparr>"
  have pub: "publishable ?st (Some ?s)" "scopes_inv hb ?st"
    using alloc_scopes_publishable [OF assms ok(2), of "[]"] alloc_scopes_inv [OF assms, of alloc 0] ok
    by simp_all
  obtain old st' where r: "namei_ext_scope_replace_locked hb cg (Some ?s) ?st = (old, st')"
    by fastforce
  show ?thesis
    using ok pub r publish_unscoped [of hb ?st "Some ?s" cg old st' p]
    by (simp add: namei_ext_scope_empty_def Let_def namei_ext_free_scopes_def path_put_list_eq
        entry_count_def unscoped_refs_def)
qed

lemma scope_global_refs:
  assumes "scopes_inv hb st"
  shows "unscoped_refs (snd (namei_ext_scope_global hb cg st)) p = unscoped_refs st p"
proof -
  obtain old st' where r: "namei_ext_scope_replace_locked hb cg None st = (old, st')"
    by fastforce
  show ?thesis
    using r publish_unscoped [OF assms None_publishable r]
    by (simp add: namei_ext_scope_global_def entry_count_def)
qed

lemma scope_add_refs:
  assumes "scopes_inv hb st"
  shows "unscoped_refs (snd (namei_ext_scope_add hb alloc cg path st)) p = unscoped_refs st p"
proof (cases "cgroup_is_dead cg st \<or> scopes_of st cg = None")
  case True
  then show ?thesis by (auto simp: namei_ext_scope_add_def)
next
  case False
  then obtain s where s: "scopes_of st cg = Some s" "\<not> cgroup_is_dead cg st" by auto
  have so: "set_ok st s"
    using assms s by (auto simp: scopes_inv_def dest: addrs_okD)
  show ?thesis
  proof (cases "list_ex (\<lambda>q. path_equal q path) (ss_entries s) \<or> ss_nr s = NAMEI_EXT_MAX_POLICY_PARENTS")
    case True
    then show ?thesis using s by (auto simp: namei_ext_scope_add_def)
  next
    case nf: False
    have ps: "length (ss_entries s @ [path]) \<le> 8" "distinct (ss_entries s @ [path])"
      using nf so ss_nr_max [of s] by (auto simp: set_ok_def list_ex_iff)
    show ?thesis
    proof (cases rule: alloc_scopes_cases [of alloc "ss_nr s + 1" st])
      case fail
      then show ?thesis using s nf by (simp add: namei_ext_scope_add_def)
    next
      case ok
      let ?st = "st\<lparr>ks_next_addr := Suc (ks_next_addr st)\<rparr>"
      let ?s = "\<lparr>ss_addr = ks_next_addr st, ss_entries = ss_entries s @ [path]\<rparr>"
      have pub: "publishable ?st (Some ?s)" "scopes_inv hb ?st"
        using alloc_scopes_publishable [OF assms ok(2) ps]
          alloc_scopes_inv [OF assms, of alloc "ss_nr s + 1"] ok by simp_all
      obtain old st' where r: "namei_ext_scope_replace_locked hb cg (Some ?s)
          (path_get path (path_get_list (ss_entries s) ?st)) = (old, st')"
        by fastforce
      show ?thesis
        using ok nf s pub r
          publish_unscoped [of hb "path_get path (path_get_list (ss_entries s) ?st)" "Some ?s" cg old st' p]
        by (simp add: namei_ext_scope_add_def Let_def entry_count_def)
    qed
  qed
qed

lemma policy_parent_command_refs:
  "scopes_inv hb st \<Longrightarrow>
     unscoped_refs (snd (policy_parent_command hb env cg command fd nf st)) p = unscoped_refs st p"
  by (simp add: policy_parent_command_def scope_empty_refs scope_global_refs scope_exact_refs
      scope_add_refs split: option.split)

lemma unscoped_refs_cgroup [simp]:
  "unscoped_refs (cgroup_get cg st) p = unscoped_refs st p"
  "unscoped_refs (cgroup_put cg st) p = unscoped_refs st p"
  "unscoped_refs (cgroup_bpf_get cg st) p = unscoped_refs st p"
  "unscoped_refs (cgroup_bpf_put cg st) p = unscoped_refs st p"
  by (simp_all add: unscoped_refs_def) (simp_all add: cgroup_ref_defs)

lemma policy_parent_write_refs:
  assumes "scopes_inv hb st"
  shows "unscoped_refs (snd (namei_ext_policy_parent_write hb env count st)) p = unscoped_refs st p"
proof (cases rule: policy_parent_write_cases [of hb env count st])
  case (command buf c f n r st')
  then show ?thesis
    using policy_parent_command_refs [of hb "cgroup_get (we_current env) (cgroup_bpf_get (we_current env) st)"
        env "we_current env" c f n p] assms
    by (simp add: namei_ext_put_cgroup_def)
qed simp

subsection \<open>The prefilter has no false negative\<close>

text \<open>
  A cgroup whose scope state the index and the counters know about: it has a set, or it
  is active and counts as a global user.
\<close>

definition scope_counted :: "kstate \<Rightarrow> u64 \<Rightarrow> bool" where
  "scope_counted st cg \<longleftrightarrow> scopes_of st cg \<noteq> None \<or> cb_scope_active (ks_cgroups st cg)"

lemma matches_maybe_managed:
  assumes "scopes_inv hb st" "scope_counted st cg" "namei_ext_policy_parent_matches cg parent st"
  shows "namei_ext_parent_maybe_managed hb parent st"
proof (cases "scopes_of st cg")
  case None
  then have "cg \<in> global_cgroups st"
    using assms(2) by (simp add: scope_counted_def global_cgroups_def)
  then have "card (global_cgroups st) \<noteq> 0"
    using finite_global_cgroups [of st] assms(1) by (auto simp: scopes_inv_def)
  moreover have "counts (namei_ext_global_scope_users st) (card (global_cgroups st))"
    using assms(1) by (simp add: scopes_inv_def global_ok_def)
  ultimately have "namei_ext_global_scope_users st \<noteq> 0" by (metis counts_zero)
  then show ?thesis by (simp add: namei_ext_parent_maybe_managed_def)
next
  case (Some s)
  with assms(3) obtain i where i: "i < length (ss_entries s)" "ss_entries s ! i = parent"
    by (auto simp: namei_ext_policy_parent_matches_def list_ex_iff in_set_conv_nth)
  then have "((ss_addr s, i), parent) \<in> set_nodes (scopes_of st cg)"
    using Some by (auto simp: set_nodes_def)
  then have n: "((ss_addr s, i), parent) \<in> index_nodes st"
    using assms(1) by (auto simp: scopes_inv_def index_ok_def)
  then have "card (index_nodes st) \<noteq> 0" using finite_index_nodes [of st] by auto
  moreover have "counts (namei_ext_exact_scope_users st) (card (index_nodes st))"
    using assms(1) unfolding scopes_inv_def index_ok_def by blast
  ultimately have ex: "namei_ext_exact_scope_users st \<noteq> 0" by (metis counts_zero)
  from n obtain b where b: "((ss_addr s, i), parent) \<in> set (namei_ext_scope_index st b)"
    by (auto simp: index_nodes_def)
  moreover have "b = hb (namei_ext_scope_key parent)"
    using b assms(1) by (fastforce simp: scopes_inv_def index_ok_def index_hashed_def)
  ultimately have "((ss_addr s, i), parent) \<in>
      set (namei_ext_scope_index st (hb (namei_ext_scope_key parent)))" by simp
  then show ?thesis
    using ex by (force simp: namei_ext_parent_maybe_managed_def list_ex_iff)
qed

end
