(* ===== verification/Effective.thy ===== *)
theory Effective
  imports Scopes
begin

text \<open>
  The effective program array of a cgroup (\<open>kernel/bpf/cgroup.c\<close>): counting the programs
  on the way to the root, filling the array from both ends, and the reference
  definition it implements: programs attached with \<open>BPF_F_PREORDER\<close> first, ancestors
  before descendants, then the rest, descendants before ancestors.
\<close>

subsection \<open>Flags and lists of programs\<close>

definition BPF_F_ALLOW_OVERRIDE :: u32 where "BPF_F_ALLOW_OVERRIDE = 1"
definition BPF_F_ALLOW_MULTI :: u32 where "BPF_F_ALLOW_MULTI = 2"
definition BPF_F_REPLACE :: u32 where "BPF_F_REPLACE = 4"
definition BPF_F_BEFORE :: u32 where "BPF_F_BEFORE = 8"
definition BPF_F_AFTER :: u32 where "BPF_F_AFTER = 16"
definition BPF_F_ID :: u32 where "BPF_F_ID = 32"
definition BPF_F_PREORDER :: u32 where "BPF_F_PREORDER = 64"
definition BPF_F_LINK :: u32 where "BPF_F_LINK = 8192"

definition has_flag :: "u32 \<Rightarrow> u32 \<Rightarrow> bool" where
  "has_flag w f \<longleftrightarrow> w AND f \<noteq> 0"

definition prog_list_prog :: "(u64 \<Rightarrow> u64) \<Rightarrow> bpf_prog_list \<Rightarrow> u64 option" where
  "prog_list_prog links pl =
     (case pl_prog pl of
        Some p \<Rightarrow> Some p
      | None \<Rightarrow> (case pl_link pl of Some l \<Rightarrow> Some (links l) | None \<Rightarrow> None))"

text \<open>The number of programs, and how far \<open>preorder_cnt\<close> is advanced.\<close>

fun prog_list_length :: "(u64 \<Rightarrow> u64) \<Rightarrow> bpf_prog_list list \<Rightarrow> nat \<times> nat" where
  "prog_list_length links [] = (0, 0)"
| "prog_list_length links (pl # pls) =
     (let (cnt, pre) = prog_list_length links pls
      in if prog_list_prog links pl = None then (cnt, pre)
         else (Suc cnt, if has_flag (pl_flags pl) BPF_F_PREORDER then Suc pre else pre))"

fun hierarchy_allows_walk :: "kstate \<Rightarrow> u64 list \<Rightarrow> bool" where
  "hierarchy_allows_walk st [] = True"
| "hierarchy_allows_walk st (p # ps) =
     (let flags = cb_flags (ks_cgroups st p);
          cnt = fst (prog_list_length (ks_links st) (cb_progs (ks_cgroups st p)))
      in if has_flag flags BPF_F_ALLOW_MULTI then True
         else if cnt = 1 then has_flag flags BPF_F_ALLOW_OVERRIDE
         else hierarchy_allows_walk st ps)"

definition hierarchy_allows_attach :: "u64 \<Rightarrow> kstate \<Rightarrow> bool" where
  "hierarchy_allows_attach cgrp st = hierarchy_allows_walk st (cb_ancestors (ks_cgroups st cgrp))"

subsection \<open>Counting and filling\<close>

fun count_effective :: "kstate \<Rightarrow> u64 list \<Rightarrow> nat \<times> nat \<Rightarrow> nat \<times> nat" where
  "count_effective st [] acc = acc"
| "count_effective st (p # ps) (cnt, preorder_cnt) =
     (if cnt = 0 \<or> has_flag (cb_flags (ks_cgroups st p)) BPF_F_ALLOW_MULTI
      then let (n, pre) = prog_list_length (ks_links st) (cb_progs (ks_cgroups st p))
           in count_effective st ps (cnt + n, preorder_cnt + pre)
      else count_effective st ps (cnt, preorder_cnt))"

record fill_state =
  fs_items :: "u64 option list"
  fs_cnt :: nat
  fs_fstart :: int
  fs_bstart :: int

definition fill_one :: "(u64 \<Rightarrow> u64) \<Rightarrow> bpf_prog_list \<Rightarrow> fill_state \<Rightarrow> fill_state" where
  "fill_one links pl s =
     (case prog_list_prog links pl of
        None \<Rightarrow> s
      | Some prog \<Rightarrow>
          if has_flag (pl_flags pl) BPF_F_PREORDER then
            s\<lparr>fs_items := (fs_items s)[nat (fs_bstart s) := Some prog],
              fs_bstart := fs_bstart s - 1, fs_cnt := Suc (fs_cnt s)\<rparr>
          else
            s\<lparr>fs_items := (fs_items s)[nat (fs_fstart s) := Some prog],
              fs_fstart := fs_fstart s + 1, fs_cnt := Suc (fs_cnt s)\<rparr>)"

text \<open>\<^verbatim>\<open>for (i = lo, j = hi; i < j; i++, j--) swap(items[i], items[j]);\<close>\<close>

function swap_loop :: "int \<Rightarrow> int \<Rightarrow> 'a list \<Rightarrow> 'a list" where
  "swap_loop i j xs =
     (if i < j
      then swap_loop (i + 1) (j - 1) (xs[nat i := xs ! nat j, nat j := xs ! nat i])
      else xs)"
  by pat_completeness auto
termination
  by (relation "measure (\<lambda>(i, j, xs). nat (j - i))") auto

declare swap_loop.simps [simp del]

definition fill_level :: "kstate \<Rightarrow> u64 \<Rightarrow> fill_state \<Rightarrow> fill_state" where
  "fill_level st p s =
     (if fs_cnt s > 0 \<and> \<not> has_flag (cb_flags (ks_cgroups st p)) BPF_F_ALLOW_MULTI then s
      else
        let init_bstart = fs_bstart s;
            s = fold (fill_one (ks_links st)) (cb_progs (ks_cgroups st p)) s
        in s\<lparr>fs_items := swap_loop (fs_bstart s + 1) init_bstart (fs_items s)\<rparr>)"

definition compute_effective_progs :: "bool \<Rightarrow> u64 \<Rightarrow> kstate \<Rightarrow> errno + u64 option list" where
  "compute_effective_progs alloc cgrp st =
     (let chain = cgroup_chain cgrp st;
          (cnt, preorder_cnt) = count_effective st chain (0, 0)
      in if \<not> alloc then Inl ENOMEM
         else Inr (fs_items
                (fold (fill_level st) chain
                   \<lparr> fs_items = replicate cnt None, fs_cnt = 0,
                     fs_fstart = int preorder_cnt, fs_bstart = int preorder_cnt - 1 \<rparr>)))"

subsection \<open>Reference definition\<close>

text \<open>The attached programs of one cgroup, with whether they asked for pre-order.\<close>

definition level_progs :: "kstate \<Rightarrow> u64 \<Rightarrow> (bool \<times> u64) list" where
  "level_progs st p =
     concat (map (\<lambda>pl. case prog_list_prog (ks_links st) pl of
                         None \<Rightarrow> []
                       | Some prog \<Rightarrow> [(has_flag (pl_flags pl) BPF_F_PREORDER, prog)])
               (cb_progs (ks_cgroups st p)))"

text \<open>
  The levels that take part: the first with a program, and from then on those that allow
  several.
\<close>

fun taking_part :: "kstate \<Rightarrow> bool \<Rightarrow> u64 list \<Rightarrow> (bool \<times> u64) list list" where
  "taking_part st found [] = []"
| "taking_part st found (p # ps) =
     (if \<not> found \<or> has_flag (cb_flags (ks_cgroups st p)) BPF_F_ALLOW_MULTI
      then level_progs st p # taking_part st (found \<or> level_progs st p \<noteq> []) ps
      else taking_part st found ps)"

definition pre_progs :: "(bool \<times> u64) list \<Rightarrow> u64 list" where
  "pre_progs l = map snd (filter fst l)"

definition post_progs :: "(bool \<times> u64) list \<Rightarrow> u64 list" where
  "post_progs l = map snd (filter (\<lambda>x. \<not> fst x) l)"

definition effective_spec :: "u64 \<Rightarrow> kstate \<Rightarrow> u64 list" where
  "effective_spec cgrp st =
     (let levels = taking_part st False (cgroup_chain cgrp st)
      in concat (map pre_progs (rev levels)) @ concat (map post_progs levels))"

subsection \<open>The array is the reference definition\<close>

lemma swap_loop_rev:
  "i = int (length xs) \<Longrightarrow> j = int (length xs) + int (length seg) - 1 \<Longrightarrow>
     swap_loop i j (xs @ seg @ ys) = xs @ rev seg @ ys"
proof (induction "length seg" arbitrary: xs seg ys i j rule: less_induct)
  case less
  show ?case
  proof (cases "length seg < 2")
    case True
    then have "seg = [] \<or> (\<exists>a. seg = [a])" by (cases seg rule: list.exhaust) (auto simp: less_Suc_eq)
    with less.prems show ?thesis by (subst swap_loop.simps) auto
  next
    case False
    then obtain a r where "seg = a # r" "r \<noteq> []" by (cases seg) auto
    then obtain m b where seg: "seg = a # m @ [b]" by (metis rev_exhaust)
    have ij: "nat i = length xs" "nat j = length xs + Suc (length m)" "i < j"
      using less.prems seg by auto
    have lst: "(xs @ seg @ ys) ! nat j = b" "(xs @ seg @ ys) ! nat i = a"
      using ij seg by (simp_all add: nth_append)
    have upd: "(xs @ seg @ ys)[nat i := b, nat j := a] = (xs @ [b]) @ m @ ([a] @ ys)"
      using ij seg by (simp add: list_update_append)
    have "swap_loop i j (xs @ seg @ ys) = swap_loop (i + 1) (j - 1) ((xs @ [b]) @ m @ ([a] @ ys))"
      using ij lst upd by (subst swap_loop.simps) simp
    also have "\<dots> = (xs @ [b]) @ rev m @ ([a] @ ys)"
      using less.hyps [of m "i + 1" "xs @ [b]" "j - 1" "[a] @ ys"] less.prems seg by simp
    finally show ?thesis using seg by simp
  qed
qed

definition present :: "(u64 \<Rightarrow> u64) \<Rightarrow> bpf_prog_list list \<Rightarrow> (bool \<times> u64) list" where
  "present links pls =
     concat (map (\<lambda>pl. case prog_list_prog links pl of None \<Rightarrow> []
                   | Some prog \<Rightarrow> [(has_flag (pl_flags pl) BPF_F_PREORDER, prog)]) pls)"

lemma present_simps [simp]:
  "present links [] = []"
  "present links (pl # pls) =
     (case prog_list_prog links pl of None \<Rightarrow> []
      | Some prog \<Rightarrow> [(has_flag (pl_flags pl) BPF_F_PREORDER, prog)]) @ present links pls"
  by (simp_all add: present_def)

lemma prog_list_length_present:
  "prog_list_length links pls =
     (length (present links pls), length (pre_progs (present links pls)))"
  by (induction pls) (auto simp: pre_progs_def split: option.split)

lemma level_progs_present: "level_progs st p = present (ks_links st) (cb_progs (ks_cgroups st p))"
  by (simp add: level_progs_def present_def)

text \<open>
  The array while it is filled: free cells in front of the pre-order programs placed so
  far, the others behind them, free cells at the end.
\<close>

definition filled :: "nat \<Rightarrow> u64 list \<Rightarrow> u64 list \<Rightarrow> nat \<Rightarrow> fill_state \<Rightarrow> bool" where
  "filled b pre post r s \<longleftrightarrow>
     fs_items s = replicate b None @ map Some pre @ map Some post @ replicate r None \<and>
     fs_bstart s = int b - 1 \<and> fs_fstart s = int (b + length pre + length post)"

lemma fill_present:
  assumes "fs_items s = replicate b None @ map Some pre @ map Some post @ replicate r None"
    and "fs_bstart s = int b - 1" "fs_fstart s = int (b + length pre + length post)"
    and "length (pre_progs (present links pls)) \<le> b" "length (post_progs (present links pls)) \<le> r"
  shows "fold (fill_one links) pls s =
           \<lparr> fs_items =
               replicate (b - length (pre_progs (present links pls))) None @
               map Some (rev (pre_progs (present links pls)) @ pre) @
               map Some (post @ post_progs (present links pls)) @
               replicate (r - length (post_progs (present links pls))) None,
             fs_cnt = fs_cnt s + length (present links pls),
             fs_fstart = fs_fstart s + int (length (post_progs (present links pls))),
             fs_bstart = fs_bstart s - int (length (pre_progs (present links pls))) \<rparr>"
  using assms
proof (induction pls arbitrary: s b pre post r)
  case Nil
  then show ?case by (simp add: pre_progs_def post_progs_def)
next
  case (Cons pl pls)
  show ?case
  proof (cases "prog_list_prog links pl")
    case None
    then show ?thesis using Cons by (simp add: fill_one_def)
  next
    case (Some prog)
    show ?thesis
    proof (cases "has_flag (pl_flags pl) BPF_F_PREORDER")
      case True
      let ?s = "fill_one links pl s"
      from Cons.prems Some True obtain b' where b': "b = Suc b'"
        by (cases b) (auto simp: pre_progs_def)
      have it: "fs_items ?s = replicate b' None @ map Some (prog # pre) @ map Some post @ replicate r None"
        using Cons.prems(1,2) Some True b'
        by (simp add: fill_one_def list_update_append replicate_append_same [symmetric])
      have "fs_bstart ?s = int b' - 1" "fs_fstart ?s = int (b' + length (prog # pre) + length post)"
        "fs_cnt ?s = Suc (fs_cnt s)" "fs_bstart ?s = fs_bstart s - 1" "fs_fstart ?s = fs_fstart s"
        using Cons.prems Some True b' by (simp_all add: fill_one_def)
      with Cons.IH [OF it] Cons.prems Some True b' show ?thesis
        by (simp add: pre_progs_def post_progs_def)
    next
      case False
      let ?s = "fill_one links pl s"
      from Cons.prems Some False obtain r' where r': "r = Suc r'"
        by (cases r) (auto simp: post_progs_def)
      have n: "nat (fs_fstart s) = b + length pre + length post" using Cons.prems(3) by simp
      have it: "fs_items ?s = replicate b None @ map Some pre @ map Some (post @ [prog]) @ replicate r' None"
        using Cons.prems(1) Some False r' n
        by (simp add: fill_one_def list_update_append)
      have "fs_bstart ?s = int b - 1" "fs_fstart ?s = int (b + length pre + length (post @ [prog]))"
        "fs_cnt ?s = Suc (fs_cnt s)" "fs_bstart ?s = fs_bstart s" "fs_fstart ?s = fs_fstart s + 1"
        using Cons.prems Some False r' by (simp_all add: fill_one_def)
      with Cons.IH [OF it] Cons.prems Some False r' show ?thesis
        by (simp add: pre_progs_def post_progs_def)
    qed
  qed
qed

lemma fill_level_step:
  assumes "filled b pre post r s"
    and take: "fs_cnt s = 0 \<or> has_flag (cb_flags (ks_cgroups st p)) BPF_F_ALLOW_MULTI"
    and "length (pre_progs (level_progs st p)) \<le> b" "length (post_progs (level_progs st p)) \<le> r"
  shows "filled (b - length (pre_progs (level_progs st p))) (pre_progs (level_progs st p) @ pre)
           (post @ post_progs (level_progs st p)) (r - length (post_progs (level_progs st p)))
           (fill_level st p s)"
    and "fs_cnt (fill_level st p s) = fs_cnt s + length (level_progs st p)"
proof -
  let ?L = "level_progs st p"
  let ?P = "pre_progs ?L" and ?Q = "post_progs ?L"
  have f: "fold (fill_one (ks_links st)) (cb_progs (ks_cgroups st p)) s =
      \<lparr> fs_items = replicate (b - length ?P) None @ map Some (rev ?P @ pre) @ map Some (post @ ?Q) @
          replicate (r - length ?Q) None,
        fs_cnt = fs_cnt s + length ?L, fs_fstart = fs_fstart s + int (length ?Q),
        fs_bstart = fs_bstart s - int (length ?P) \<rparr>"
    using fill_present [of s b pre post r "ks_links st" "cb_progs (ks_cgroups st p)"] assms
    by (simp add: filled_def level_progs_present)
  have sw: "swap_loop (int (b - length ?P)) (int (b - length ?P) + int (length (map Some (rev ?P))) - 1)
      (replicate (b - length ?P) None @ map Some (rev ?P) @ map Some pre @ map Some (post @ ?Q) @
         replicate (r - length ?Q) None) =
      replicate (b - length ?P) None @ map Some ?P @ map Some pre @ map Some (post @ ?Q) @
         replicate (r - length ?Q) None"
    using swap_loop_rev [of "int (b - length ?P)" "replicate (b - length ?P) None"
        "int (b - length ?P) + int (length (map Some (rev ?P))) - 1" "map Some (rev ?P)"]
    by (simp add: rev_map)
  have idx: "fs_bstart s - int (length ?P) + 1 = int (b - length ?P)"
    "fs_bstart s = int (b - length ?P) + int (length (map Some (rev ?P))) - 1"
    using assms by (auto simp: filled_def)
  have lv: "fill_level st p s =
      (let t = fold (fill_one (ks_links st)) (cb_progs (ks_cgroups st p)) s
       in t\<lparr>fs_items := swap_loop (fs_bstart t + 1) (fs_bstart s) (fs_items t)\<rparr>)"
    using take by (auto simp: fill_level_def Let_def)
  show "fs_cnt (fill_level st p s) = fs_cnt s + length ?L"
    by (simp add: lv f Let_def)
  have "fs_items (fill_level st p s) =
      replicate (b - length ?P) None @ map Some (?P @ pre) @ map Some (post @ ?Q) @
         replicate (r - length ?Q) None"
    using sw idx by (simp add: lv f Let_def)
  then show "filled (b - length ?P) (?P @ pre) (post @ ?Q) (r - length ?Q) (fill_level st p s)"
    using assms by (auto simp: filled_def lv f Let_def)
qed

lemma fill_levels:
  assumes "filled b pre post r s"
    and "length (concat (map pre_progs (taking_part st (fs_cnt s > 0) ps))) \<le> b"
    and "length (concat (map post_progs (taking_part st (fs_cnt s > 0) ps))) \<le> r"
  shows "filled (b - length (concat (map pre_progs (taking_part st (fs_cnt s > 0) ps))))
           (concat (map pre_progs (rev (taking_part st (fs_cnt s > 0) ps))) @ pre)
           (post @ concat (map post_progs (taking_part st (fs_cnt s > 0) ps)))
           (r - length (concat (map post_progs (taking_part st (fs_cnt s > 0) ps))))
           (fold (fill_level st) ps s)"
  using assms
proof (induction ps arbitrary: b pre post r s)
  case Nil
  then show ?case by simp
next
  case (Cons p ps)
  show ?case
  proof (cases "fs_cnt s = 0 \<or> has_flag (cb_flags (ks_cgroups st p)) BPF_F_ALLOW_MULTI")
    case False
    then have "fill_level st p s = s" by (simp add: fill_level_def)
    with False Cons.IH [OF Cons.prems(1)] Cons.prems(2,3) show ?thesis by simp
  next
    case True
    let ?L = "level_progs st p"
    have le: "length (pre_progs ?L) \<le> b" "length (post_progs ?L) \<le> r"
      using Cons.prems(2,3) True by auto
    note step = fill_level_step [OF Cons.prems(1) True le]
    have found: "(fs_cnt (fill_level st p s) > 0) = (fs_cnt s > 0 \<or> ?L \<noteq> [])"
      using step(2) by auto
    show ?thesis
      using Cons.IH [OF step(1)] Cons.prems(2,3) True found by (auto simp: add.commute)
  qed
qed

lemma count_effective_eq:
  "count_effective st ps (cnt, pre) =
     (cnt + length (concat (taking_part st (cnt > 0) ps)),
      pre + length (concat (map pre_progs (taking_part st (cnt > 0) ps))))"
proof (induction ps arbitrary: cnt pre)
  case Nil
  then show ?case by simp
next
  case (Cons p ps)
  show ?case
    using Cons [of "cnt + length (level_progs st p)"] Cons [of cnt]
    by (auto simp: prog_list_length_present level_progs_present)
qed

lemma length_pre_post: "length (pre_progs l) + length (post_progs l) = length l"
  by (induction l) (auto simp: pre_progs_def post_progs_def)

lemma length_concat_pre_post:
  "length (concat (map pre_progs ls)) + length (concat (map post_progs ls)) = length (concat ls)"
proof (induction ls)
  case (Cons l ls)
  then show ?case using length_pre_post [of l] by simp
qed simp

lemma compute_effective_spec:
  "compute_effective_progs True cgrp st = Inr (map Some (effective_spec cgrp st))"
proof -
  let ?ps = "cgroup_chain cgrp st"
  let ?ls = "taking_part st False ?ps"
  let ?P = "length (concat (map pre_progs ?ls))" and ?N = "length (concat ?ls)"
  let ?s = "\<lparr> fs_items = replicate ?N (None :: u64 option), fs_cnt = 0, fs_fstart = int ?P,
      fs_bstart = int ?P - 1 \<rparr>"
  let ?Q = "length (concat (map post_progs ?ls))"
  have N: "?N = ?P + ?Q" using length_concat_pre_post [of ?ls] by simp
  have "filled ?P [] [] ?Q ?s"
    using N by (simp add: filled_def replicate_add)
  from fill_levels [OF this, of st ?ps]
  have "filled 0 (concat (map pre_progs (rev ?ls))) (concat (map post_progs ?ls)) 0
      (fold (fill_level st) ?ps ?s)" by simp
  then show ?thesis
    using count_effective_eq [of st ?ps 0 0]
    by (simp add: compute_effective_progs_def filled_def effective_spec_def Let_def)
qed

end
