(* ===== verification/Cgroup_Attach.thy ===== *)
theory Cgroup_Attach
  imports Effective
begin

text \<open>
  Attaching and detaching programs (\<open>kernel/bpf/cgroup.c\<close>) for the attach type
  \<open>CGROUP_NAMEI_EXT\<close>: activation of a recomputed array with the owner of the policy and
  the scope-active flag, the update of all descendants, attach, detach, inheritance at
  cgroup creation and release. The reachable states of these operations together with
  the scope and target commands satisfy the invariant the prefilter needs.

  \<open>css_for_each_descendant_pre\<close> visits the online cgroups below a cgroup, the cgroup
  itself included; \<open>ks_online\<close> lists the cgroups in pre-order.
\<close>

subsection \<open>Activation\<close>

definition has_progs :: "kstate \<Rightarrow> u64 \<Rightarrow> bool" where
  "has_progs st cg \<longleftrightarrow> fst (prog_list_length (ks_links st) (cb_progs (ks_cgroups st cg))) \<noteq> 0"

text \<open>The nearest cgroup with an attached program.\<close>

definition nearest_owner :: "u64 \<Rightarrow> kstate \<Rightarrow> u64 option" where
  "nearest_owner cgrp st = find (has_progs st) (cgroup_chain cgrp st)"

definition activate_effective_progs :: "u64 \<Rightarrow> u64 option list \<Rightarrow> kstate \<Rightarrow> kstate" where
  "activate_effective_progs cgrp arr st =
     (let st = upd_cgroup cgrp (\<lambda>c. c\<lparr>cb_effective := arr\<rparr>) st;
          owner = nearest_owner cgrp st;
          st = (if owner = Some cgrp then namei_ext_cgroup_set_scope_active cgrp True st else st);
          st = upd_cgroup cgrp (\<lambda>c. c\<lparr>cb_owner := owner\<rparr>) st
      in if owner \<noteq> Some cgrp then namei_ext_cgroup_set_scope_active cgrp False st else st)"

definition css_descendants :: "u64 \<Rightarrow> kstate \<Rightarrow> u64 list" where
  "css_descendants cgrp st = filter (\<lambda>d. cgrp \<in> set (cgroup_chain d st)) (ks_online st)"

definition live_descendants :: "u64 \<Rightarrow> kstate \<Rightarrow> u64 list" where
  "live_descendants cgrp st = filter (\<lambda>d. \<not> cb_ref_zero (ks_cgroups st d)) (css_descendants cgrp st)"

text \<open>
  \<open>alloc d\<close> is whether the array of \<open>d\<close> can be allocated. All arrays are computed before
  the first is activated.
\<close>

definition update_effective_progs :: "(u64 \<Rightarrow> bool) \<Rightarrow> u64 \<Rightarrow> kstate \<Rightarrow> errno option \<times> kstate" where
  "update_effective_progs alloc cgrp st =
     (let inactive = map (\<lambda>d. (d, compute_effective_progs (alloc d) d st)) (live_descendants cgrp st)
      in case find (\<lambda>da. case snd da of Inl e \<Rightarrow> True | Inr arr \<Rightarrow> False) inactive of
           Some (d, Inl e) \<Rightarrow> (Some e, st)
         | _ \<Rightarrow>
             (None, fold (\<lambda>(d, r) st. case r of Inl e \<Rightarrow> st
                            | Inr arr \<Rightarrow> activate_effective_progs d arr st) inactive st))"

subsection \<open>Attach\<close>

definition BPF_CGROUP_MAX_PROGS :: nat where "BPF_CGROUP_MAX_PROGS = 64"

text \<open>The arguments of \<open>__cgroup_bpf_attach\<close>; programs and links are named by numbers.\<close>

record attach_args =
  at_prog :: "u64 option"
  at_link :: "u64 option"
  at_replace_prog :: "u64 option"
  at_flags :: u32
  at_id_or_fd :: u32
  at_revision :: u64

text \<open>
  What attach calls outside the sources: whether \<open>bpf_cgroup_storages_alloc\<close> and the node
  allocation succeed, which arrays can be allocated, and the anchors
  \<open>bpf_get_anchor_link\<close>, \<open>bpf_get_anchor_prog\<close> find.
\<close>

record attach_env =
  ae_storage :: bool
  ae_node :: bool
  ae_array :: "u64 \<Rightarrow> bool"
  ae_anchor_link :: "u32 \<Rightarrow> u32 \<Rightarrow> errno + u64"
  ae_anchor_prog :: "u32 \<Rightarrow> u32 \<Rightarrow> errno + u64"

fun find_index :: "('a \<Rightarrow> bool) \<Rightarrow> 'a list \<Rightarrow> nat option" where
  "find_index p [] = None"
| "find_index p (x # xs) = (if p x then Some 0 else map_option Suc (find_index p xs))"

definition find_attach_entry ::
  "bpf_prog_list list \<Rightarrow> u64 option \<Rightarrow> u64 option \<Rightarrow> u64 option \<Rightarrow> bool \<Rightarrow> errno + nat option" where
  "find_attach_entry progs prog link replace_prog allow_multi =
     (if \<not> allow_multi then Inr (if progs = [] then None else Some 0)
      else if list_ex (\<lambda>pl. (prog \<noteq> None \<and> pl_prog pl = prog \<and> prog \<noteq> replace_prog) \<or>
                            (link \<noteq> None \<and> pl_link pl = link)) progs then Inl EINVAL
      else if replace_prog \<noteq> None then
        (case find_index (\<lambda>pl. pl_prog pl = replace_prog) progs of
           Some i \<Rightarrow> Inr (Some i)
         | None \<Rightarrow> Inl ENOENT)
      else Inr None)"

definition get_prog_list ::
  "attach_env \<Rightarrow> bpf_prog_list list \<Rightarrow> attach_args \<Rightarrow> errno + nat option" where
  "get_prog_list env progs a =
     (let flags = at_flags a; id_or_fd = at_id_or_fd a;
          is_link = has_flag flags BPF_F_LINK; is_id = has_flag flags BPF_F_ID;
          preorder = has_flag flags BPF_F_PREORDER;
          is_before = has_flag flags BPF_F_BEFORE; is_after = has_flag flags BPF_F_AFTER
      in
      if is_link \<or> is_id \<or> id_or_fd \<noteq> 0 then
        (if is_before = is_after then Inl EINVAL
         else if (is_link \<and> at_link a = None) \<or> (\<not> is_link \<and> at_prog a = None) then Inl EINVAL
         else
           case (if is_link then ae_anchor_link env flags id_or_fd
                 else ae_anchor_prog env flags id_or_fd) of
             Inl e \<Rightarrow> Inl e
           | Inr anchor \<Rightarrow>
               (case find_index (\<lambda>pl. if is_link then pl_link pl = Some anchor
                                      else pl_prog pl = Some anchor) progs of
                  None \<Rightarrow> Inl ENOENT
                | Some i \<Rightarrow>
                    if has_flag (pl_flags (progs ! i)) BPF_F_PREORDER \<noteq> preorder then Inl EINVAL
                    else Inr (Some i)))
      else if progs \<noteq> [] \<and> is_before \<and> is_after then Inl EINVAL
      else if progs = [] then Inr None
      else if is_before then Inr (Some 0)
      else Inr (Some (length progs - 1)))"

text \<open>The list with the node inserted, and the position of the node.\<close>

definition insert_pl_to_hlist ::
  "attach_env \<Rightarrow> bpf_prog_list \<Rightarrow> bpf_prog_list list \<Rightarrow> attach_args
     \<Rightarrow> errno + bpf_prog_list list \<times> nat" where
  "insert_pl_to_hlist env pl progs a =
     (case get_prog_list env progs a of
        Inl e \<Rightarrow> Inl e
      | Inr None \<Rightarrow> Inr (pl # progs, 0)
      | Inr (Some i) \<Rightarrow>
          if has_flag (at_flags a) BPF_F_BEFORE
          then Inr (take i progs @ pl # drop i progs, i)
          else Inr (take (Suc i) progs @ pl # drop (Suc i) progs, Suc i))"

definition set_progs :: "u64 \<Rightarrow> bpf_prog_list list \<Rightarrow> kstate \<Rightarrow> kstate" where
  "set_progs cgrp progs st = upd_cgroup cgrp (\<lambda>c. c\<lparr>cb_progs := progs\<rparr>) st"

definition remove_at :: "nat \<Rightarrow> 'a list \<Rightarrow> 'a list" where
  "remove_at i xs = take i xs @ drop (Suc i) xs"

text \<open>
  The part of \<open>__cgroup_bpf_attach\<close> after the entry is in place: \<open>progs\<close> with the entry at
  position \<open>i\<close>, and \<open>old_prog\<close> the program the entry had.
\<close>

definition attach_commit ::
  "attach_env \<Rightarrow> u64 \<Rightarrow> attach_args \<Rightarrow> u32 \<Rightarrow> bpf_prog_list list \<Rightarrow> nat \<Rightarrow> u64 option
     \<Rightarrow> kstate \<Rightarrow> errno option \<times> kstate" where
  "attach_commit env cgrp a saved_flags progs i old_prog st =
     (let pl = \<lparr> pl_prog = at_prog a, pl_link = at_link a, pl_flags = at_flags a \<rparr>;
          st = set_progs cgrp (progs[i := pl]) st;
          st = upd_cgroup cgrp (\<lambda>c. c\<lparr>cb_flags := saved_flags\<rparr>) st
      in case update_effective_progs (ae_array env) cgrp st of
           (None, st) \<Rightarrow>
             (None, upd_cgroup cgrp (\<lambda>c. c\<lparr>cb_revision := cb_revision c + 1\<rparr>)
                (if old_prog \<noteq> None then st else st\<lparr>ks_enabled := ks_enabled st + 1\<rparr>))
         | (Some err, st) \<Rightarrow>
             (Some err,
              if old_prog \<noteq> None
              then set_progs cgrp (progs[i := pl\<lparr>pl_prog := old_prog, pl_link := None\<rparr>]) st
              else set_progs cgrp (remove_at i (progs[i := pl])) st))"

definition cgroup_bpf_attach ::
  "attach_env \<Rightarrow> u64 \<Rightarrow> attach_args \<Rightarrow> kstate \<Rightarrow> errno option \<times> kstate" where
  "cgroup_bpf_attach env cgrp a st =
     (let flags = at_flags a;
          saved_flags = flags AND (BPF_F_ALLOW_OVERRIDE OR BPF_F_ALLOW_MULTI);
          progs = cb_progs (ks_cgroups st cgrp)
      in
      if (has_flag flags BPF_F_ALLOW_OVERRIDE \<and> has_flag flags BPF_F_ALLOW_MULTI) \<or>
         (has_flag flags BPF_F_REPLACE \<and> \<not> has_flag flags BPF_F_ALLOW_MULTI) then (Some EINVAL, st)
      else if has_flag flags BPF_F_REPLACE \<and> has_flag flags (BPF_F_BEFORE OR BPF_F_AFTER)
        then (Some EINVAL, st)
      else if at_link a \<noteq> None \<and> (at_prog a \<noteq> None \<or> at_replace_prog a \<noteq> None)
        then (Some EINVAL, st)
      else if (at_replace_prog a \<noteq> None) \<noteq> has_flag flags BPF_F_REPLACE then (Some EINVAL, st)
      else if at_revision a \<noteq> 0 \<and> at_revision a \<noteq> cb_revision (ks_cgroups st cgrp)
        then (Some ESTALE, st)
      else if \<not> hierarchy_allows_attach cgrp st then (Some EPERM, st)
      else if progs \<noteq> [] \<and> cb_flags (ks_cgroups st cgrp) \<noteq> saved_flags then (Some EPERM, st)
      else if fst (prog_list_length (ks_links st) progs) \<ge> BPF_CGROUP_MAX_PROGS then (Some E2BIG, st)
      else
        case find_attach_entry progs (at_prog a) (at_link a) (at_replace_prog a)
               (has_flag flags BPF_F_ALLOW_MULTI) of
          Inl e \<Rightarrow> (Some e, st)
        | Inr entry \<Rightarrow>
            if \<not> ae_storage env then (Some ENOMEM, st)
            else
              (case entry of
                 Some i \<Rightarrow> attach_commit env cgrp a saved_flags progs i (pl_prog (progs ! i)) st
               | None \<Rightarrow>
                   if \<not> ae_node env then (Some ENOMEM, st)
                   else
                     (case insert_pl_to_hlist env
                             \<lparr> pl_prog = at_prog a, pl_link = at_link a, pl_flags = flags \<rparr> progs a of
                        Inl e \<Rightarrow> (Some e, st)
                      | Inr (progs', i) \<Rightarrow> attach_commit env cgrp a saved_flags progs' i None st)))"

subsection \<open>Replace and detach\<close>

fun level_pos :: "(u64 \<Rightarrow> u64) \<Rightarrow> (bpf_prog_list \<Rightarrow> bool) \<Rightarrow> bpf_prog_list list \<Rightarrow> nat \<Rightarrow> nat + nat" where
  "level_pos links match [] pos = Inr pos"
| "level_pos links match (pl # pls) pos =
     (if prog_list_prog links pl = None then level_pos links match pls pos
      else if match pl then Inl pos
      else level_pos links match pls (Suc pos))"

text \<open>
  The position of an entry in the effective array, as \<open>replace_effective_prog\<close> and
  \<open>purge_effective_progs\<close> compute it; \<open>None\<close> when no entry matches.
\<close>

fun effective_pos :: "kstate \<Rightarrow> (bpf_prog_list \<Rightarrow> bool) \<Rightarrow> u64 list \<Rightarrow> nat \<Rightarrow> nat option" where
  "effective_pos st match [] pos = None"
| "effective_pos st match (cg # cgs) pos =
     (if pos \<noteq> 0 \<and> \<not> has_flag (cb_flags (ks_cgroups st cg)) BPF_F_ALLOW_MULTI
      then effective_pos st match cgs pos
      else case level_pos (ks_links st) match (cb_progs (ks_cgroups st cg)) pos of
             Inl found \<Rightarrow> Some found
           | Inr pos' \<Rightarrow> effective_pos st match cgs pos')"

definition set_effective_at :: "u64 \<Rightarrow> nat \<Rightarrow> u64 \<Rightarrow> kstate \<Rightarrow> kstate" where
  "set_effective_at cg pos prog st =
     upd_cgroup cg (\<lambda>c. c\<lparr>cb_effective := (cb_effective c)[pos := Some prog]\<rparr>) st"

text \<open>\<open>None\<close> is the \<open>BUG_ON\<close>.\<close>

definition replace_effective_prog :: "u64 \<Rightarrow> u64 \<Rightarrow> kstate \<Rightarrow> kstate option" where
  "replace_effective_prog cgrp link st =
     fold (\<lambda>d r. case r of None \<Rightarrow> None
             | Some s \<Rightarrow>
                 (case effective_pos s (\<lambda>pl. pl_link pl = Some link) (cgroup_chain d s) 0 of
                    None \<Rightarrow> None
                  | Some pos \<Rightarrow> Some (set_effective_at d pos (ks_links s link) s)))
       (live_descendants cgrp st) (Some st)"

text \<open>
  \<open>type_ok\<close> is the comparison of the program types, which the model does not carry.
\<close>

definition cgroup_bpf_replace ::
  "bool \<Rightarrow> u64 \<Rightarrow> u64 \<Rightarrow> u64 \<Rightarrow> kstate \<Rightarrow> (errno option \<times> kstate) option" where
  "cgroup_bpf_replace type_ok cgrp link new_prog st =
     (if \<not> type_ok then Some (Some EINVAL, st)
      else if \<not> list_ex (\<lambda>pl. pl_link pl = Some link) (cb_progs (ks_cgroups st cgrp))
        then Some (Some ENOENT, st)
      else
        let st = upd_cgroup cgrp (\<lambda>c. c\<lparr>cb_revision := cb_revision c + 1\<rparr>) st;
            st = st\<lparr>ks_links := (ks_links st)(link := new_prog)\<rparr>
        in map_option (\<lambda>st. (None, st)) (replace_effective_prog cgrp link st))"

definition find_detach_entry ::
  "bpf_prog_list list \<Rightarrow> u64 option \<Rightarrow> u64 option \<Rightarrow> bool \<Rightarrow> errno + nat" where
  "find_detach_entry progs prog link allow_multi =
     (if \<not> allow_multi then (if progs = [] then Inl ENOENT else Inr 0)
      else if prog = None \<and> link = None then Inl EINVAL
      else case find_index (\<lambda>pl. pl_prog pl = prog \<and> pl_link pl = link) progs of
             Some i \<Rightarrow> Inr i
           | None \<Rightarrow> Inl ENOENT)"

text \<open>
  \<open>bpf_prog_array_delete_safe_at\<close> is outside the sources: the parameter \<open>delete_at\<close>, from a
  position and the array to the array with that program out of use.
\<close>

definition purge_effective_progs ::
  "(nat \<Rightarrow> u64 option list \<Rightarrow> u64 option list) \<Rightarrow> u64 \<Rightarrow> u64 option \<Rightarrow> u64 option \<Rightarrow> kstate \<Rightarrow> kstate" where
  "purge_effective_progs delete_at cgrp prog link st =
     fold (\<lambda>d s.
         case effective_pos s (\<lambda>pl. pl_prog pl = prog \<and> pl_link pl = link) (cgroup_chain d s) 0 of
           None \<Rightarrow> s
         | Some pos \<Rightarrow> upd_cgroup d (\<lambda>c. c\<lparr>cb_effective := delete_at pos (cb_effective c)\<rparr>) s)
       (live_descendants cgrp st) st"

definition cgroup_bpf_detach ::
  "(nat \<Rightarrow> u64 option list \<Rightarrow> u64 option list) \<Rightarrow> (u64 \<Rightarrow> bool) \<Rightarrow> u64 \<Rightarrow> u64 option \<Rightarrow> u64 option \<Rightarrow>
     u64 \<Rightarrow> kstate \<Rightarrow> errno option \<times> kstate" where
  "cgroup_bpf_detach delete_at alloc cgrp prog link revision st =
     (let progs = cb_progs (ks_cgroups st cgrp);
          flags = cb_flags (ks_cgroups st cgrp)
      in
      if revision \<noteq> 0 \<and> revision \<noteq> cb_revision (ks_cgroups st cgrp) then (Some ESTALE, st)
      else if prog \<noteq> None \<and> link \<noteq> None then (Some EINVAL, st)
      else case find_detach_entry progs prog link (has_flag flags BPF_F_ALLOW_MULTI) of
        Inl e \<Rightarrow> (Some e, st)
      | Inr i \<Rightarrow>
          let pl = progs ! i;
              old_prog = pl_prog pl;
              st = set_progs cgrp (progs[i := pl\<lparr>pl_prog := None, pl_link := None\<rparr>]) st;
              st = (case update_effective_progs alloc cgrp st of
                      (None, st) \<Rightarrow> st
                    | (Some err, st) \<Rightarrow>
                        purge_effective_progs delete_at cgrp old_prog link
                          (set_progs cgrp (progs[i := pl\<lparr>pl_prog := old_prog, pl_link := link\<rparr>]) st));
              st = set_progs cgrp (remove_at i progs) st;
              st = upd_cgroup cgrp (\<lambda>c. c\<lparr>cb_revision := cb_revision c + 1\<rparr>) st;
              st = (if remove_at i progs = [] then upd_cgroup cgrp (\<lambda>c. c\<lparr>cb_flags := 0\<rparr>) st else st)
          in (None, st\<lparr>ks_enabled := ks_enabled st - 1\<rparr>))"

subsection \<open>Creation and release of a cgroup\<close>

text \<open>\<open>struct cgroup_bpf\<close> of a new cgroup, zeroed.\<close>

definition zero_cgroup_bpf :: "u64 list \<Rightarrow> cgroup_bpf" where
  "zero_cgroup_bpf ancestors =
     \<lparr> cb_ancestors = ancestors, cb_dead = False, cb_ref_live = True, cb_ref_zero = False,
       cb_progs = [], cb_flags = 0, cb_revision = 0, cb_effective = [], cb_scopes = None,
       cb_owner = None, cb_scope_active = False \<rparr>"

definition cgroup_bpf_inherit :: "bool \<Rightarrow> bool \<Rightarrow> u64 \<Rightarrow> kstate \<Rightarrow> errno option \<times> kstate" where
  "cgroup_bpf_inherit ref_init alloc cgrp st =
     (if \<not> ref_init then (Some ENOMEM, st)
      else
        let ancestors = cb_ancestors (ks_cgroups st cgrp);
            st = fold cgroup_bpf_get ancestors st;
            st = set_progs cgrp [] st
        in case compute_effective_progs alloc cgrp st of
             Inl e \<Rightarrow> (Some ENOMEM, fold cgroup_bpf_put ancestors st)
           | Inr arr \<Rightarrow> (None, activate_effective_progs cgrp arr st))"

text \<open>
  A link that is still in the list of a dying cgroup gives up its reference and is marked
  defunct; \<open>ks_link_cgroup\<close> is \<open>link->cgroup\<close>.
\<close>

definition bpf_cgroup_link_auto_detach :: "u64 \<Rightarrow> kstate \<Rightarrow> kstate" where
  "bpf_cgroup_link_auto_detach link st =
     (let st = (case ks_link_cgroup st link of Some cgrp \<Rightarrow> cgroup_put cgrp st | None \<Rightarrow> st)
      in st\<lparr>ks_link_cgroup := (ks_link_cgroup st)(link := None)\<rparr>)"

definition release_entries :: "bpf_prog_list list \<Rightarrow> kstate \<Rightarrow> kstate" where
  "release_entries progs st =
     fold (\<lambda>pl st. case pl_link pl of Some link \<Rightarrow> bpf_cgroup_link_auto_detach link st | None \<Rightarrow> st) progs st"

lemma release_entries_eq:
  "\<exists>refs lc. release_entries progs st = st\<lparr>ks_cgroup_refs := refs, ks_link_cgroup := lc\<rparr>"
proof (induction progs arbitrary: st)
  case Nil
  show ?case by (rule exI [of _ "ks_cgroup_refs st"], rule exI [of _ "ks_link_cgroup st"])
      (simp add: release_entries_def)
next
  case (Cons pl progs)
  let ?s = "case pl_link pl of Some link \<Rightarrow> bpf_cgroup_link_auto_detach link st | None \<Rightarrow> st"
  obtain r l where s: "?s = st\<lparr>ks_cgroup_refs := r, ks_link_cgroup := l\<rparr>"
  proof (cases "pl_link pl")
    case None
    then show ?thesis using that [where r = "ks_cgroup_refs st" and l = "ks_link_cgroup st"] by simp
  next
    case (Some link)
    then show ?thesis
      using that [where r = "ks_cgroup_refs ?s" and l = "ks_link_cgroup ?s"]
      by (cases "ks_link_cgroup st link") (simp_all add: bpf_cgroup_link_auto_detach_def cgroup_put_def)
  qed
  from Cons [of ?s] obtain r' l' where "release_entries progs ?s = ?s\<lparr>ks_cgroup_refs := r', ks_link_cgroup := l'\<rparr>"
    by blast
  then have "release_entries (pl # progs) st = st\<lparr>ks_cgroup_refs := r', ks_link_cgroup := l'\<rparr>"
    using s by (simp add: release_entries_def)
  then show ?case by blast
qed

definition cgroup_bpf_release :: "hashfn \<Rightarrow> u64 \<Rightarrow> kstate \<Rightarrow> kstate" where
  "cgroup_bpf_release hb cgrp st =
     (let progs = cb_progs (ks_cgroups st cgrp);
          st = release_entries progs st;
          st = st\<lparr>ks_enabled := ks_enabled st - int (length progs)\<rparr>;
          st = set_progs cgrp [] st;
          st = upd_cgroup cgrp (\<lambda>c. c\<lparr>cb_effective := []\<rparr>) st;
          st = namei_ext_cgroup_release hb cgrp st;
          st = fold cgroup_bpf_put (cb_ancestors (ks_cgroups st cgrp)) st
      in cgroup_put cgrp st)"

end
