(* ===== verification/Attach_Inv.thy ===== *)
theory Attach_Inv
  imports Cgroup_Attach
begin

text \<open>
  The transition system of the control plane: every operation that changes which cgroups
  have programs, who owns the policy of a cgroup, or which parents are in scope. By rule
  induction, in every reachable state the owner of a live cgroup's policy is on its way
  to the root and is counted as active, so the prefilter never skips a parent the
  authoritative check would accept.
\<close>

subsection \<open>Invariant\<close>

definition live :: "kstate \<Rightarrow> u64 \<Rightarrow> bool" where
  "live st cg \<longleftrightarrow> cg \<in> set (ks_online st) \<and> \<not> cb_ref_zero (ks_cgroups st cg)"

definition hierarchy_ok :: "kstate \<Rightarrow> bool" where
  "hierarchy_ok st \<longleftrightarrow>
     (\<forall>c. live st c \<longrightarrow> (\<forall>a\<in>set (cgroup_chain c st).
        live st a \<and> set (cgroup_chain a st) \<subseteq> set (cgroup_chain c st)))"

definition attached_active :: "kstate \<Rightarrow> bool" where
  "attached_active st \<longleftrightarrow>
     (\<forall>c. live st c \<longrightarrow> has_progs st c \<longrightarrow> cb_scope_active (ks_cgroups st c))"

definition owners_active :: "kstate \<Rightarrow> bool" where
  "owners_active st \<longleftrightarrow>
     (\<forall>c owner. live st c \<longrightarrow> cb_owner (ks_cgroups st c) = Some owner \<longrightarrow>
        owner \<in> set (cgroup_chain c st) \<and> cb_scope_active (ks_cgroups st owner))"

definition attach_inv :: "kstate \<Rightarrow> bool" where
  "attach_inv st \<longleftrightarrow> hierarchy_ok st \<and> attached_active st \<and> owners_active st"

definition kernel_inv :: "hashfn \<Rightarrow> kstate \<Rightarrow> bool" where
  "kernel_inv hb st \<longleftrightarrow> scopes_inv hb st \<and> targets_wf hb st \<and> attach_inv st"

text \<open>
  The attachment invariant only looks at the hierarchy, the program lists, the links and
  the owner and activity of each cgroup.
\<close>

definition attach_view :: "cgroup_bpf \<Rightarrow> u64 list \<times> bool \<times> bpf_prog_list list \<times> u64 option \<times> bool" where
  "attach_view c = (cb_ancestors c, cb_ref_zero c, cb_progs c, cb_owner c, cb_scope_active c)"

lemma attach_inv_cong:
  assumes "\<And>c. attach_view (ks_cgroups st' c) = attach_view (ks_cgroups st c)"
    "ks_online st' = ks_online st" "ks_links st' = ks_links st"
  shows "attach_inv st' = attach_inv st"
proof -
  have v: "cb_ancestors (ks_cgroups st' c) = cb_ancestors (ks_cgroups st c)"
    "cb_ref_zero (ks_cgroups st' c) = cb_ref_zero (ks_cgroups st c)"
    "cb_progs (ks_cgroups st' c) = cb_progs (ks_cgroups st c)"
    "cb_owner (ks_cgroups st' c) = cb_owner (ks_cgroups st c)"
    "cb_scope_active (ks_cgroups st' c) = cb_scope_active (ks_cgroups st c)" for c
    using assms(1) [of c] by (simp_all add: attach_view_def)
  have "live st' c = live st c" "cgroup_chain c st' = cgroup_chain c st"
    "has_progs st' c = has_progs st c" for c
    using v assms(2,3) by (simp_all add: live_def cgroup_chain_def has_progs_def)
  with v show ?thesis
    by (simp add: attach_inv_def hierarchy_ok_def attached_active_def owners_active_def)
qed

subsection \<open>Activation\<close>

lemma set_scope_active_fields:
  "ks_cgroups (namei_ext_cgroup_set_scope_active cg a st) =
     (ks_cgroups st)(cg := (ks_cgroups st cg)\<lparr>cb_scope_active := a\<rparr>)"
  "ks_online (namei_ext_cgroup_set_scope_active cg a st) = ks_online st"
  "ks_links (namei_ext_cgroup_set_scope_active cg a st) = ks_links st"
  "namei_ext_targets (namei_ext_cgroup_set_scope_active cg a st) = namei_ext_targets st"
  by (auto simp: namei_ext_cgroup_set_scope_active_def Let_def upd_cgroup_def
      namei_ext_global_scope_get_locked_def namei_ext_global_scope_put_locked_def)

lemma nearest_owner_cong:
  assumes "\<And>c. cb_progs (ks_cgroups st' c) = cb_progs (ks_cgroups st c)"
    "\<And>c. cb_ancestors (ks_cgroups st' c) = cb_ancestors (ks_cgroups st c)"
    "ks_links st' = ks_links st"
  shows "nearest_owner c st' = nearest_owner c st" "has_progs st' c = has_progs st c"
    "cgroup_chain c st' = cgroup_chain c st"
proof -
  have "has_progs st' = has_progs st" using assms by (simp add: has_progs_def fun_eq_iff [of "has_progs st'"])
  then show "nearest_owner c st' = nearest_owner c st" "has_progs st' c = has_progs st c"
    "cgroup_chain c st' = cgroup_chain c st"
    using assms by (simp_all add: nearest_owner_def cgroup_chain_def)
qed

lemma activate_fields:
  "ks_cgroups (activate_effective_progs d arr st) =
     (ks_cgroups st)(d := (ks_cgroups st d)
       \<lparr>cb_effective := arr, cb_owner := nearest_owner d st,
        cb_scope_active := (nearest_owner d st = Some d)\<rparr>)"
  "ks_online (activate_effective_progs d arr st) = ks_online st"
  "ks_links (activate_effective_progs d arr st) = ks_links st"
  "namei_ext_targets (activate_effective_progs d arr st) = namei_ext_targets st"
proof -
  have "nearest_owner d (upd_cgroup d (\<lambda>c. c\<lparr>cb_effective := arr\<rparr>) st) = nearest_owner d st"
    by (rule nearest_owner_cong) (simp_all add: upd_cgroup_def)
  then show "ks_cgroups (activate_effective_progs d arr st) =
     (ks_cgroups st)(d := (ks_cgroups st d)
       \<lparr>cb_effective := arr, cb_owner := nearest_owner d st,
        cb_scope_active := (nearest_owner d st = Some d)\<rparr>)"
    "ks_online (activate_effective_progs d arr st) = ks_online st"
    "ks_links (activate_effective_progs d arr st) = ks_links st"
    "namei_ext_targets (activate_effective_progs d arr st) = namei_ext_targets st"
    by (auto simp: activate_effective_progs_def Let_def set_scope_active_fields upd_cgroup_def
        fun_eq_iff intro!: cgroup_bpf.equality)
qed

lemma scopes_inv_upd [simp]:
  "scopes_inv hb (upd_cgroup cg (\<lambda>c. c\<lparr>cb_effective := f c\<rparr>) st) = scopes_inv hb st"
  "scopes_inv hb (upd_cgroup cg (\<lambda>c. c\<lparr>cb_owner := ow\<rparr>) st) = scopes_inv hb st"
  "scopes_inv hb (upd_cgroup cg (\<lambda>c. c\<lparr>cb_progs := ps\<rparr>) st) = scopes_inv hb st"
  "scopes_inv hb (upd_cgroup cg (\<lambda>c. c\<lparr>cb_flags := fl\<rparr>) st) = scopes_inv hb st"
  "scopes_inv hb (upd_cgroup cg (\<lambda>c. c\<lparr>cb_revision := g c\<rparr>) st) = scopes_inv hb st"
  "scopes_inv hb (set_progs cg ps st) = scopes_inv hb st"
  "scopes_inv hb (st\<lparr>ks_enabled := n\<rparr>) = scopes_inv hb st"
  "scopes_inv hb (st\<lparr>ks_links := ls\<rparr>) = scopes_inv hb st"
  by (rule scopes_inv_cong; simp add: upd_cgroup_def set_progs_def)+

lemma activate_scopes_inv:
  "scopes_inv hb st \<Longrightarrow> scopes_inv hb (activate_effective_progs d arr st)"
  by (simp add: activate_effective_progs_def Let_def set_scope_active_inv)

text \<open>
  One pass of activations: exactly the visited cgroups change, each to its own nearest
  owner.
\<close>

definition activate_all :: "(u64 \<times> (errno + u64 option list)) list \<Rightarrow> kstate \<Rightarrow> kstate" where
  "activate_all xs st =
     fold (\<lambda>(d, r) st. case r of Inl e \<Rightarrow> st | Inr arr \<Rightarrow> activate_effective_progs d arr st) xs st"

lemma activate_all_Cons:
  "\<not> isl r \<Longrightarrow>
     activate_all ((d, r) # xs) st = activate_all xs (activate_effective_progs d (projr r) st)"
  by (cases r) (simp_all add: activate_all_def)

lemma activate_nearest [simp]:
  "nearest_owner c (activate_effective_progs d arr st) = nearest_owner c st"
  by (rule nearest_owner_cong) (simp_all add: activate_fields)

definition activated :: "u64 \<Rightarrow> kstate \<Rightarrow> u64 option list \<Rightarrow> cgroup_bpf" where
  "activated c st arr =
     (ks_cgroups st c)\<lparr>cb_effective := arr, cb_owner := nearest_owner c st,
                        cb_scope_active := (nearest_owner c st = Some c)\<rparr>"

lemma activate_all_cgroups:
  assumes "\<forall>x\<in>set xs. \<not> isl (snd x)"
  shows "\<exists>arr. ks_cgroups (activate_all xs st) c =
           (if c \<in> fst ` set xs then activated c st arr else ks_cgroups st c)"
  using assms
proof (induction xs arbitrary: st)
  case Nil
  then show ?case by (simp add: activate_all_def)
next
  case (Cons x xs)
  obtain d r where x: "x = (d, r)" by (cases x)
  let ?st = "activate_effective_progs d (projr r) st"
  have eq: "activate_all ((d, r) # xs) st = activate_all xs ?st"
    using Cons.prems x by (simp add: activate_all_Cons)
  from Cons obtain arr where arr: "ks_cgroups (activate_all xs ?st) c =
      (if c \<in> fst ` set xs then activated c ?st arr else ks_cgroups ?st c)" by auto
  have same: "activated c ?st arr = activated c st arr"
    by (auto simp: activated_def activate_fields)
  have d: "ks_cgroups ?st c = (if c = d then activated c st (projr r) else ks_cgroups st c)"
    by (auto simp: activated_def activate_fields)
  show ?case
  proof (cases "c \<in> fst ` set xs")
    case True
    then show ?thesis using arr same by (intro exI [of _ arr]) (simp add: eq x)
  next
    case False
    then show ?thesis using arr d by (intro exI [of _ "projr r"]) (simp add: eq x)
  qed
qed

lemma activate_all_other:
  assumes "\<forall>x\<in>set xs. \<not> isl (snd x)"
  shows "ks_online (activate_all xs st) = ks_online st \<and> ks_links (activate_all xs st) = ks_links st \<and>
         namei_ext_targets (activate_all xs st) = namei_ext_targets st \<and>
         (scopes_inv hb st \<longrightarrow> scopes_inv hb (activate_all xs st))"
  using assms
proof (induction xs arbitrary: st)
  case Nil
  then show ?case by (simp add: activate_all_def)
next
  case (Cons x xs)
  then show ?case
    by (cases x) (simp add: activate_all_Cons activate_fields activate_scopes_inv)
qed

lemma activate_all_fields:
  assumes "\<forall>x\<in>set xs. \<not> isl (snd x)"
  shows "cb_owner (ks_cgroups (activate_all xs st) c) =
           (if c \<in> fst ` set xs then nearest_owner c st else cb_owner (ks_cgroups st c))"
    and "cb_scope_active (ks_cgroups (activate_all xs st) c) =
           (if c \<in> fst ` set xs then nearest_owner c st = Some c
            else cb_scope_active (ks_cgroups st c))"
    and "cb_progs (ks_cgroups (activate_all xs st) c) = cb_progs (ks_cgroups st c)"
    and "cb_ancestors (ks_cgroups (activate_all xs st) c) = cb_ancestors (ks_cgroups st c)"
    and "cb_ref_zero (ks_cgroups (activate_all xs st) c) = cb_ref_zero (ks_cgroups st c)"
    and "cb_flags (ks_cgroups (activate_all xs st) c) = cb_flags (ks_cgroups st c)"
    and "cb_scopes (ks_cgroups (activate_all xs st) c) = cb_scopes (ks_cgroups st c)"
proof -
  obtain arr where arr: "ks_cgroups (activate_all xs st) c =
      (if c \<in> fst ` set xs then activated c st arr else ks_cgroups st c)"
    using activate_all_cgroups [OF assms] by blast
  show "cb_owner (ks_cgroups (activate_all xs st) c) =
      (if c \<in> fst ` set xs then nearest_owner c st else cb_owner (ks_cgroups st c))"
    "cb_scope_active (ks_cgroups (activate_all xs st) c) =
      (if c \<in> fst ` set xs then nearest_owner c st = Some c else cb_scope_active (ks_cgroups st c))"
    "cb_progs (ks_cgroups (activate_all xs st) c) = cb_progs (ks_cgroups st c)"
    "cb_ancestors (ks_cgroups (activate_all xs st) c) = cb_ancestors (ks_cgroups st c)"
    "cb_ref_zero (ks_cgroups (activate_all xs st) c) = cb_ref_zero (ks_cgroups st c)"
    "cb_flags (ks_cgroups (activate_all xs st) c) = cb_flags (ks_cgroups st c)"
    "cb_scopes (ks_cgroups (activate_all xs st) c) = cb_scopes (ks_cgroups st c)"
    by (cases "c \<in> fst ` set xs"; simp add: arr activated_def)+
qed

subsection \<open>Updating all descendants\<close>

lemma find_SomeD: "find p xs = Some x \<Longrightarrow> p x \<and> x \<in> set xs"
  by (induction xs) (auto split: if_splits)

lemma update_effective_cases:
  obtains (error) e where "update_effective_progs alloc cgrp st = (Some e, st)"
  | (ok) xs where "update_effective_progs alloc cgrp st = (None, activate_all xs st)"
      "\<forall>x\<in>set xs. \<not> isl (snd x)" "fst ` set xs = set (live_descendants cgrp st)"
      "\<forall>x\<in>set xs. snd x = compute_effective_progs True (fst x) st"
proof -
  let ?xs = "map (\<lambda>d. (d, compute_effective_progs (alloc d) d st)) (live_descendants cgrp st)"
  let ?bad = "\<lambda>da :: u64 \<times> (errno + u64 option list). case snd da of Inl e \<Rightarrow> True | Inr arr \<Rightarrow> False"
  show thesis
  proof (cases "find ?bad ?xs")
    case None
    then have nl: "\<forall>x\<in>set ?xs. \<not> isl (snd x)"
      unfolding find_None_iff by (auto simp: isl_def split: sum.splits)
    moreover have "fst ` set ?xs = set (live_descendants cgrp st)" by force
    moreover have "\<forall>x\<in>set ?xs. snd x = compute_effective_progs True (fst x) st"
      using nl by (auto simp: compute_effective_progs_def Let_def split_beta split: if_splits)
    ultimately show thesis
      using None by (intro ok [of ?xs]) (simp_all add: update_effective_progs_def Let_def activate_all_def)
  next
    case (Some x)
    from find_SomeD [OF this] have "?bad x" ..
    then obtain d e where "x = (d, Inl e)" by (cases x) (auto split: sum.splits)
    with Some show thesis
      by (intro error [of e]) (simp add: update_effective_progs_def Let_def)
  qed
qed

lemma live_descendants_iff:
  "d \<in> set (live_descendants cgrp st) \<longleftrightarrow> live st d \<and> cgrp \<in> set (cgroup_chain d st)"
  by (auto simp: live_descendants_def css_descendants_def live_def)

lemma nearest_ownerD:
  assumes "nearest_owner c st = Some owner"
  shows "owner \<in> set (cgroup_chain c st)" "has_progs st owner"
  using assms by (auto simp: nearest_owner_def find_Some_iff)

lemma nearest_owner_self: "has_progs st c \<Longrightarrow> nearest_owner c st = Some c"
  by (simp add: nearest_owner_def cgroup_chain_def)

text \<open>
  The heart of the update: when the invariant holds everywhere but at the updated cgroup,
  recomputing its live descendants restores it.
\<close>

lemma activate_all_attach_inv:
  assumes "hierarchy_ok st" "owners_active st"
    and others: "\<And>c. c \<noteq> cgrp \<Longrightarrow> live st c \<Longrightarrow> has_progs st c \<Longrightarrow> cb_scope_active (ks_cgroups st c)"
    and xs: "\<forall>x\<in>set xs. \<not> isl (snd x)" "fst ` set xs = set (live_descendants cgrp st)"
  shows "attach_inv (activate_all xs st)"
proof -
  let ?st = "activate_all xs st"
  note f = activate_all_fields [OF xs(1), of st]
  have o: "ks_online ?st = ks_online st" "ks_links ?st = ks_links st"
    using activate_all_other [OF xs(1), of st] by simp_all
  have eqs: "live ?st c = live st c" "cgroup_chain c ?st = cgroup_chain c st"
    "has_progs ?st c = has_progs st c" for c
    using f o by (simp_all add: live_def cgroup_chain_def has_progs_def)
  have act: "cb_scope_active (ks_cgroups ?st c)" if "live st c" "has_progs st c" for c
  proof (cases "c \<in> set (live_descendants cgrp st)")
    case True
    then show ?thesis using f(2) [of c] xs(2) that nearest_owner_self by auto
  next
    case False
    then have "c \<noteq> cgrp" using that by (auto simp: live_descendants_iff cgroup_chain_def)
    with False show ?thesis using f(2) [of c] xs(2) others that by auto
  qed
  have own: "owner \<in> set (cgroup_chain c st) \<and> cb_scope_active (ks_cgroups ?st owner)"
    if c: "live st c" "cb_owner (ks_cgroups ?st c) = Some owner" for c owner
  proof (cases "c \<in> set (live_descendants cgrp st)")
    case True
    then have "nearest_owner c st = Some owner" using f(1) [of c] xs(2) c by simp
    note n = nearest_ownerD [OF this]
    with assms(1) c have "live st owner" by (auto simp: hierarchy_ok_def)
    with n act show ?thesis by blast
  next
    case False
    then have old: "owner \<in> set (cgroup_chain c st)" "cb_scope_active (ks_cgroups st owner)"
      using f(1) [of c] xs(2) c assms(2) by (auto simp: owners_active_def)
    have "owner \<notin> set (live_descendants cgrp st)"
    proof
      assume "owner \<in> set (live_descendants cgrp st)"
      then have "cgrp \<in> set (cgroup_chain owner st)" by (simp add: live_descendants_iff)
      then have "cgrp \<in> set (cgroup_chain c st)"
        using assms(1) c(1) old(1) by (auto simp: hierarchy_ok_def)
      with False c show False by (simp add: live_descendants_iff)
    qed
    with old f(2) [of owner] xs(2) show ?thesis by simp
  qed
  show ?thesis
    using assms(1) act own
    by (simp add: attach_inv_def hierarchy_ok_def attached_active_def owners_active_def eqs)
qed

subsection \<open>Attach, detach and replace keep the invariant\<close>

lemma prog_list_prog_None:
  "prog_list_prog links pl = None \<longleftrightarrow> pl_prog pl = None \<and> pl_link pl = None"
  by (auto simp: prog_list_prog_def split: option.splits)

lemma has_progs_iff:
  "has_progs st c \<longleftrightarrow>
     (\<exists>pl\<in>set (cb_progs (ks_cgroups st c)). pl_prog pl \<noteq> None \<or> pl_link pl \<noteq> None)"
proof -
  have "fst (prog_list_length links pls) \<noteq> 0 \<longleftrightarrow> (\<exists>pl\<in>set pls. \<not> (pl_prog pl = None \<and> pl_link pl = None))"
    for links pls
    by (induction pls) (auto simp: split_beta Let_def prog_list_prog_None)
  then show ?thesis by (simp add: has_progs_def)
qed

lemma set_progs_view [simp]:
  "live (set_progs cg ps st) c = live st c"
  "cgroup_chain c (set_progs cg ps st) = cgroup_chain c st"
  "cb_owner (ks_cgroups (set_progs cg ps st) c) = cb_owner (ks_cgroups st c)"
  "cb_scope_active (ks_cgroups (set_progs cg ps st) c) = cb_scope_active (ks_cgroups st c)"
  "has_progs (set_progs cg ps st) c =
     (if c = cg then \<exists>pl\<in>set ps. pl_prog pl \<noteq> None \<or> pl_link pl \<noteq> None else has_progs st c)"
  by (simp_all add: set_progs_def upd_cgroup_def live_def cgroup_chain_def has_progs_iff)

lemma set_progs_ok [simp]:
  "hierarchy_ok (set_progs cg ps st) = hierarchy_ok st"
  "owners_active (set_progs cg ps st) = owners_active st"
  by (simp_all add: hierarchy_ok_def owners_active_def)

lemma set_progs_shrink_inv:
  assumes "attach_inv st"
    and "\<And>pl. pl \<in> set ps \<Longrightarrow> pl_prog pl \<noteq> None \<or> pl_link pl \<noteq> None \<Longrightarrow> has_progs st cg"
  shows "attach_inv (set_progs cg ps st)"
  using assms by (auto simp: attach_inv_def attached_active_def)

lemma attach_inv_upd [simp]:
  "attach_inv (upd_cgroup cg (\<lambda>c. c\<lparr>cb_revision := g c\<rparr>) st) = attach_inv st"
  "attach_inv (upd_cgroup cg (\<lambda>c. c\<lparr>cb_flags := fl\<rparr>) st) = attach_inv st"
  "attach_inv (upd_cgroup cg (\<lambda>c. c\<lparr>cb_effective := f c\<rparr>) st) = attach_inv st"
  "attach_inv (upd_cgroup cg (\<lambda>c. c\<lparr>cb_scopes := sc\<rparr>) st) = attach_inv st"
  "attach_inv (st\<lparr>ks_enabled := n\<rparr>) = attach_inv st"
  by (rule attach_inv_cong; simp add: upd_cgroup_def attach_view_def)+

lemma set_progs_twice:
  "attach_inv (set_progs cg ps (upd_cgroup cg (\<lambda>c. c\<lparr>cb_flags := fl\<rparr>) (set_progs cg ps0 st))) =
     attach_inv (set_progs cg ps st)"
  "attach_inv (set_progs cg ps (set_progs cg ps0 st)) = attach_inv (set_progs cg ps st)"
  by (rule attach_inv_cong; simp add: upd_cgroup_def attach_view_def set_progs_def)+

text \<open>Recomputing the descendants after any change of one cgroup's programs.\<close>

lemma flags_view [simp]:
  "live (upd_cgroup cg (\<lambda>c. c\<lparr>cb_flags := fl\<rparr>) st) c = live st c"
  "cgroup_chain c (upd_cgroup cg (\<lambda>c. c\<lparr>cb_flags := fl\<rparr>) st) = cgroup_chain c st"
  "cb_owner (ks_cgroups (upd_cgroup cg (\<lambda>c. c\<lparr>cb_flags := fl\<rparr>) st) c) = cb_owner (ks_cgroups st c)"
  "has_progs (upd_cgroup cg (\<lambda>c. c\<lparr>cb_flags := fl\<rparr>) st) c = has_progs st c"
  "cb_scope_active (ks_cgroups (upd_cgroup cg (\<lambda>c. c\<lparr>cb_flags := fl\<rparr>) st) c) =
     cb_scope_active (ks_cgroups st c)"
  by (simp_all add: live_def cgroup_chain_def has_progs_def upd_cgroup_def)

lemma flags_ok [simp]:
  "hierarchy_ok (upd_cgroup cg (\<lambda>c. c\<lparr>cb_flags := fl\<rparr>) st) = hierarchy_ok st"
  "owners_active (upd_cgroup cg (\<lambda>c. c\<lparr>cb_flags := fl\<rparr>) st) = owners_active st"
  by (simp_all add: hierarchy_ok_def owners_active_def)

lemma update_after_change_inv:
  assumes "attach_inv st" "update_effective_progs alloc cg st1 = (None, st')"
    and "st1 = set_progs cg ps st \<or> st1 = upd_cgroup cg (\<lambda>c. c\<lparr>cb_flags := fl\<rparr>) (set_progs cg ps st)"
  shows "attach_inv st'"
proof (cases rule: update_effective_cases [of alloc cg st1])
  case (error e)
  then show ?thesis using assms(2) by simp
next
  case (ok xs)
  have "attach_inv (activate_all xs st1)"
    by (rule activate_all_attach_inv [OF _ _ _ ok(2,3)])
       (use assms(1,3) in \<open>auto simp: attach_inv_def attached_active_def\<close>)
  with ok assms(2) show ?thesis by simp
qed

lemma set_remove_at: "set (remove_at i xs) \<subseteq> set xs"
  by (auto simp: remove_at_def dest: in_set_takeD in_set_dropD)

lemma remove_at_update: "i < length xs \<Longrightarrow> remove_at i (xs[i := x]) = remove_at i xs"
  by (simp add: remove_at_def)

lemma attach_commit_inv:
  assumes "attach_inv st"
    and old: "\<And>p. old_prog = Some p \<Longrightarrow> has_progs st cg"
    and rest: "\<And>pl. old_prog = None \<Longrightarrow> pl \<in> set (remove_at i (progs[i := new])) \<Longrightarrow>
                pl_prog pl \<noteq> None \<or> pl_link pl \<noteq> None \<Longrightarrow> has_progs st cg"
    and new: "new = \<lparr> pl_prog = at_prog a, pl_link = at_link a, pl_flags = at_flags a \<rparr>"
  shows "attach_inv (snd (attach_commit env cg a fl progs i old_prog st))"
proof -
  let ?st1 = "upd_cgroup cg (\<lambda>c. c\<lparr>cb_flags := fl\<rparr>) (set_progs cg (progs[i := new]) st)"
  show ?thesis
  proof (cases rule: update_effective_cases [of "ae_array env" cg ?st1])
    case (error e)
    have "attach_inv (set_progs cg (progs[i := new\<lparr>pl_prog := old_prog, pl_link := None\<rparr>]) st)"
      if "old_prog \<noteq> None"
      using that old by (intro set_progs_shrink_inv assms(1)) auto
    moreover have "attach_inv (set_progs cg (remove_at i (progs[i := new])) st)" if "old_prog = None"
      by (intro set_progs_shrink_inv assms(1)) (use rest that in blast)
    ultimately show ?thesis
      using error new by (simp add: attach_commit_def Let_def set_progs_twice)
  next
    case (ok xs)
    have "attach_inv (activate_all xs ?st1)"
      using update_after_change_inv [OF assms(1) ok(1)] by blast
    then show ?thesis
      using ok(1) new by (simp add: attach_commit_def Let_def)
  qed
qed

lemma find_index_SomeD: "find_index p xs = Some i \<Longrightarrow> i < length xs \<and> p (xs ! i)"
  by (induction xs arbitrary: i) (auto split: if_splits)

lemma find_attach_entry_bound:
  "find_attach_entry progs prog link rep multi = Inr (Some i) \<Longrightarrow> i < length progs"
  by (auto simp: find_attach_entry_def dest: find_index_SomeD split: if_splits option.splits)

lemma insert_pl_remove:
  assumes "insert_pl_to_hlist env pl progs a = Inr (progs', i)"
  shows "remove_at i (progs'[i := pl']) = progs"
proof -
  have b: "j < length progs" if "get_prog_list env progs a = Inr (Some j)" for j
    using that
    by (auto simp: get_prog_list_def Let_def dest: find_index_SomeD
        split: if_splits option.splits sum.splits)
  show ?thesis
    using assms b
    by (auto simp: insert_pl_to_hlist_def remove_at_def list_update_append min_def
        split: sum.splits option.splits if_splits)
qed

lemma cgroup_bpf_attach_inv:
  assumes "attach_inv st"
  shows "attach_inv (snd (cgroup_bpf_attach env cg a st))"
proof -
  let ?progs = "cb_progs (ks_cgroups st cg)"
  let ?new = "\<lparr> pl_prog = at_prog a, pl_link = at_link a, pl_flags = at_flags a \<rparr>"
  have entry: "attach_inv (snd (attach_commit env cg a fl ?progs i (pl_prog (?progs ! i)) st))"
    if "i < length ?progs" for i fl
  proof (rule attach_commit_inv [OF assms _ _ refl])
    show "has_progs st cg" if "pl_prog (?progs ! i) = Some p" for p
      using that \<open>i < length ?progs\<close> by (force simp: has_progs_iff)
    show "has_progs st cg"
      if "pl \<in> set (remove_at i (?progs[i := ?new]))" "pl_prog pl \<noteq> None \<or> pl_link pl \<noteq> None" for pl
      using that \<open>i < length ?progs\<close> set_remove_at [of i ?progs]
      by (auto simp: has_progs_iff remove_at_update)
  qed
  have fresh: "attach_inv (snd (attach_commit env cg a fl progs' i None st))"
    if ins: "insert_pl_to_hlist env ?new ?progs a = Inr (progs', i)" for i fl progs'
  proof (rule attach_commit_inv [OF assms _ _ refl])
    show "has_progs st cg"
      if "pl \<in> set (remove_at i (progs'[i := ?new]))" "pl_prog pl \<noteq> None \<or> pl_link pl \<noteq> None" for pl
      using that insert_pl_remove [OF ins, of ?new] by (auto simp: has_progs_iff)
  qed simp
  have found: "attach_inv (snd (case e of
      Inl e \<Rightarrow> (Some e, st)
    | Inr entry \<Rightarrow>
        if \<not> ae_storage env then (Some ENOMEM, st)
        else (case entry of
            Some i \<Rightarrow> attach_commit env cg a fl ?progs i (pl_prog (?progs ! i)) st
          | None \<Rightarrow>
              if \<not> ae_node env then (Some ENOMEM, st)
              else (case insert_pl_to_hlist env ?new ?progs a of
                  Inl e \<Rightarrow> (Some e, st)
                | Inr (progs', i) \<Rightarrow> attach_commit env cg a fl progs' i None st))))"
    if "\<And>i. e = Inr (Some i) \<Longrightarrow> i < length ?progs" for e fl
    using assms that entry fresh by (auto split: sum.split option.split prod.split)
  show ?thesis
    unfolding cgroup_bpf_attach_def Let_def
    using assms found [OF find_attach_entry_bound]
    by (simp only: if_distrib [of snd] if_distrib [of attach_inv] snd_conv if_True if_False simp_thms)
       simp
qed

lemma purge_view:
  "attach_view (ks_cgroups (purge_effective_progs da cg prog link st) c) =
     attach_view (ks_cgroups st c) \<and>
   cb_scopes (ks_cgroups (purge_effective_progs da cg prog link st) c) = cb_scopes (ks_cgroups st c) \<and>
   ks_online (purge_effective_progs da cg prog link st) = ks_online st \<and>
   ks_links (purge_effective_progs da cg prog link st) = ks_links st \<and>
   namei_ext_targets (purge_effective_progs da cg prog link st) = namei_ext_targets st"
  unfolding purge_effective_progs_def
  by (rule fold_inv [of "\<lambda>s. attach_view (ks_cgroups s c) = attach_view (ks_cgroups st c) \<and>
        cb_scopes (ks_cgroups s c) = cb_scopes (ks_cgroups st c) \<and> ks_online s = ks_online st \<and>
        ks_links s = ks_links st \<and> namei_ext_targets s = namei_ext_targets st"])
     (auto simp: upd_cgroup_def attach_view_def split: option.split)

lemma purge_scopes_inv:
  "scopes_inv hb st \<Longrightarrow> scopes_inv hb (purge_effective_progs da cg prog link st)"
  unfolding purge_effective_progs_def
  by (rule fold_inv [of "scopes_inv hb"]) (auto split: option.split)

lemma set_progs_after_purge:
  "attach_inv (set_progs cg ps (purge_effective_progs da cg prog link (set_progs cg ps0
     (set_progs cg ps1 st)))) = attach_inv (set_progs cg ps st)"
  by (rule attach_inv_cong)
     (use purge_view [of da cg prog link "set_progs cg ps0 (set_progs cg ps1 st)"] in
       \<open>auto simp: set_progs_def upd_cgroup_def attach_view_def\<close>)

lemma find_detach_entry_bound:
  "find_detach_entry progs prog link multi = Inr i \<Longrightarrow> i < length progs"
  by (auto simp: find_detach_entry_def dest: find_index_SomeD split: if_splits option.splits)

lemma has_progs_remove_at:
  assumes "cb_progs (ks_cgroups st cg) = progs[i := x]" "i < length progs"
    "pl \<in> set (remove_at i progs)" "pl_prog pl \<noteq> None \<or> pl_link pl \<noteq> None"
  shows "has_progs st cg"
  using assms set_remove_at [of i "progs[i := x]"] remove_at_update [of i progs x]
  by (auto simp: has_progs_iff)

lemma update_progs:
  assumes "update_effective_progs alloc cg st = (r, st')"
  shows "cb_progs (ks_cgroups st' c) = cb_progs (ks_cgroups st c)"
proof (cases rule: update_effective_cases [of alloc cg st])
  case (ok xs)
  then show ?thesis using assms activate_all_fields(3) [OF ok(2)] by simp
qed (use assms in simp)

lemma cgroup_bpf_detach_inv:
  assumes "attach_inv st"
  shows "attach_inv (snd (cgroup_bpf_detach da alloc cg prog link rv st))"
proof -
  let ?progs = "cb_progs (ks_cgroups st cg)"
  let ?e = "find_detach_entry ?progs prog link (has_flag (cb_flags (ks_cgroups st cg)) BPF_F_ALLOW_MULTI)"
  show ?thesis
  proof (cases "(rv \<noteq> 0 \<and> rv \<noteq> cb_revision (ks_cgroups st cg)) \<or>
      (prog \<noteq> None \<and> link \<noteq> None) \<or> isl ?e")
    case True
    then show ?thesis using assms by (auto simp: cgroup_bpf_detach_def Let_def isl_def)
  next
    case False
    then obtain i where e: "?e = Inr i" by (cases ?e) auto
    then have i: "i < length ?progs" by (rule find_detach_entry_bound)
    let ?dead = "(?progs ! i)\<lparr>pl_prog := None, pl_link := None\<rparr>"
    let ?st1 = "set_progs cg (?progs[i := ?dead]) st"
    have shrink: "attach_inv (set_progs cg (remove_at i ?progs) st)"
      by (intro set_progs_shrink_inv assms) (use set_remove_at [of i ?progs] in \<open>auto simp: has_progs_iff\<close>)
    show ?thesis
    proof (cases rule: update_effective_cases [of alloc cg ?st1])
      case (error err)
      then show ?thesis
        using False e shrink assms by (auto simp: cgroup_bpf_detach_def Let_def set_progs_after_purge)
    next
      case (ok xs)
      have st2: "attach_inv (activate_all xs ?st1)"
        using update_after_change_inv [OF assms ok(1)] by blast
      have pr: "cb_progs (ks_cgroups (activate_all xs ?st1) cg) = ?progs[i := ?dead]"
        using update_progs [OF ok(1), of cg] by (simp add: set_progs_def upd_cgroup_def)
      have "attach_inv (set_progs cg (remove_at i ?progs) (activate_all xs ?st1))"
        by (rule set_progs_shrink_inv [OF st2]) (rule has_progs_remove_at [OF pr i])
      then show ?thesis
        using False e ok(1) assms by (auto simp: cgroup_bpf_detach_def Let_def)
    qed
  qed
qed

lemma replace_effective_prog_view:
  assumes "replace_effective_prog cg link st = Some st'"
  shows "(\<forall>c. attach_view (ks_cgroups st' c) = attach_view (ks_cgroups st c)) \<and>
         ks_online st' = ks_online st \<and> ks_links st' = ks_links st \<and>
         namei_ext_targets st' = namei_ext_targets st \<and> (scopes_inv hb st \<longrightarrow> scopes_inv hb st')"
proof -
  let ?P = "\<lambda>r. \<forall>s. r = Some s \<longrightarrow> (\<forall>c. attach_view (ks_cgroups s c) = attach_view (ks_cgroups st c)) \<and>
         ks_online s = ks_online st \<and> ks_links s = ks_links st \<and>
         namei_ext_targets s = namei_ext_targets st \<and> (scopes_inv hb st \<longrightarrow> scopes_inv hb s)"
  have "?P (replace_effective_prog cg link st)"
    unfolding replace_effective_prog_def
  proof (rule fold_inv [of ?P])
    fix d r assume P: "?P r"
    show "?P (case r of None \<Rightarrow> None
             | Some s \<Rightarrow>
                 (case effective_pos s (\<lambda>pl. pl_link pl = Some link) (cgroup_chain d s) 0 of
                    None \<Rightarrow> None
                  | Some pos \<Rightarrow> Some (set_effective_at d pos (ks_links s link) s)))"
    proof (cases r)
      case (Some s)
      have v: "attach_view (ks_cgroups (set_effective_at d pos p s) c) = attach_view (ks_cgroups s c)"
        "ks_online (set_effective_at d pos p s) = ks_online s"
        "ks_links (set_effective_at d pos p s) = ks_links s"
        "namei_ext_targets (set_effective_at d pos p s) = namei_ext_targets s"
        "scopes_inv hb (set_effective_at d pos p s) = scopes_inv hb s" for pos p c
        by (simp_all add: set_effective_at_def) (simp_all add: upd_cgroup_def attach_view_def)
      show ?thesis using P Some v by (auto split: option.splits)
    qed simp
  qed simp
  with assms show ?thesis by blast
qed

lemma cgroup_bpf_replace_inv:
  assumes "attach_inv st" "cgroup_bpf_replace ok cg link new st = Some (r, st')"
  shows "attach_inv st'"
proof (cases "ok \<and> list_ex (\<lambda>pl. pl_link pl = Some link) (cb_progs (ks_cgroups st cg))")
  case False
  then show ?thesis using assms by (auto simp: cgroup_bpf_replace_def Let_def split: if_splits)
next
  case True
  let ?st1 = "(upd_cgroup cg (\<lambda>c. c\<lparr>cb_revision := cb_revision c + 1\<rparr>) st)
      \<lparr>ks_links := (ks_links (upd_cgroup cg (\<lambda>c. c\<lparr>cb_revision := cb_revision c + 1\<rparr>) st))(link := new)\<rparr>"
  have r: "replace_effective_prog cg link ?st1 = Some st'"
    using True assms(2) by (auto simp: cgroup_bpf_replace_def Let_def)
  have eqs: "live ?st1 c = live st c" "cgroup_chain c ?st1 = cgroup_chain c st"
    "has_progs ?st1 c = has_progs st c" "cb_owner (ks_cgroups ?st1 c) = cb_owner (ks_cgroups st c)"
    "cb_scope_active (ks_cgroups ?st1 c) = cb_scope_active (ks_cgroups st c)" for c
    by (simp_all add: live_def cgroup_chain_def has_progs_iff upd_cgroup_def)
  have "attach_inv ?st1 = attach_inv st"
    unfolding attach_inv_def hierarchy_ok_def attached_active_def owners_active_def eqs ..
  moreover have "attach_inv st' = attach_inv ?st1"
    by (rule attach_inv_cong) (use replace_effective_prog_view [OF r] in auto)
  ultimately show ?thesis using assms(1) by blast
qed

subsection \<open>The other halves of the invariant\<close>

lemma update_scopes_inv:
  assumes "scopes_inv hb st"
  shows "scopes_inv hb (snd (update_effective_progs alloc cg st))"
    "namei_ext_targets (snd (update_effective_progs alloc cg st)) = namei_ext_targets st"
  using assms activate_all_other
  by (cases rule: update_effective_cases [of alloc cg st]; simp)+

lemma attach_commit_scopes_inv:
  assumes "scopes_inv hb st"
  shows "scopes_inv hb (snd (attach_commit env cg a fl progs i old st))"
    "namei_ext_targets (snd (attach_commit env cg a fl progs i old st)) = namei_ext_targets st"
proof -
  let ?new = "\<lparr> pl_prog = at_prog a, pl_link = at_link a, pl_flags = at_flags a \<rparr>"
  let ?st1 = "upd_cgroup cg (\<lambda>c. c\<lparr>cb_flags := fl\<rparr>) (set_progs cg (progs[i := ?new]) st)"
  obtain r st2 where u: "update_effective_progs (ae_array env) cg ?st1 = (r, st2)" by fastforce
  have st2: "scopes_inv hb st2" "namei_ext_targets st2 = namei_ext_targets st"
    using update_scopes_inv [of hb ?st1 "ae_array env" cg] assms u
    by (simp_all add: set_progs_def)
  then show "scopes_inv hb (snd (attach_commit env cg a fl progs i old st))"
    "namei_ext_targets (snd (attach_commit env cg a fl progs i old st)) = namei_ext_targets st"
    using u by (auto simp: attach_commit_def Let_def split: option.split)
       (simp_all add: set_progs_def)
qed

definition scopes_kept :: "hashfn \<Rightarrow> kstate \<Rightarrow> errno option \<times> kstate \<Rightarrow> bool" where
  "scopes_kept hb st r \<longleftrightarrow> scopes_inv hb (snd r) \<and> namei_ext_targets (snd r) = namei_ext_targets st"

lemma scopes_kept_if:
  "scopes_kept hb st x \<Longrightarrow> scopes_kept hb st y \<Longrightarrow> scopes_kept hb st (if b then x else y)"
  by simp

lemma cgroup_bpf_attach_scopes_inv:
  assumes "scopes_inv hb st"
  shows "scopes_kept hb st (cgroup_bpf_attach env cg a st)"
proof -
  have e: "scopes_kept hb st (x, st)" for x using assms by (simp add: scopes_kept_def)
  have c: "scopes_kept hb st (attach_commit env cg a fl progs i old st)" for fl progs i old
    using attach_commit_scopes_inv [OF assms] by (simp add: scopes_kept_def)
  have "scopes_kept hb st (case r of
      Inl e \<Rightarrow> (Some e, st)
    | Inr entry \<Rightarrow>
        if \<not> ae_storage env then (Some ENOMEM, st)
        else (case entry of
            Some i \<Rightarrow> attach_commit env cg a fl progs i (old i) st
          | None \<Rightarrow>
              if \<not> ae_node env then (Some ENOMEM, st)
              else (case ins of
                  Inl e \<Rightarrow> (Some e, st)
                | Inr (progs', i) \<Rightarrow> attach_commit env cg a fl progs' i None st)))" for r fl progs old ins
    using e c by (simp split: sum.split option.split prod.split)
  then show ?thesis
    unfolding cgroup_bpf_attach_def Let_def by (intro scopes_kept_if e)
qed

end
