(* ===== verification/Reach.thy ===== *)
theory Reach
  imports Attach_Inv
begin

text \<open>
  The steps of the control plane as a relation, the states they reach, and the invariant
  of every reachable state.
\<close>

subsection \<open>Scope invariant of the remaining operations\<close>

lemma targets_upd_cgroup [simp]:
  "targets_wf hb (upd_cgroup cg f st) = targets_wf hb st"
  "targets_wf hb (set_progs cg ps st) = targets_wf hb st"
  "targets_wf hb (st\<lparr>ks_enabled := n\<rparr>) = targets_wf hb st"
  "targets_wf hb (st\<lparr>ks_links := ls\<rparr>) = targets_wf hb st"
  by (simp_all add: targets_wf_def set_progs_def upd_cgroup_def)

lemma targets_wf_cong: "namei_ext_targets st' = namei_ext_targets st \<Longrightarrow> targets_wf hb st' = targets_wf hb st"
  by (simp add: targets_wf_def)

definition kernel_tables :: "hashfn \<Rightarrow> kstate \<Rightarrow> bool" where
  "kernel_tables hb st \<longleftrightarrow> scopes_inv hb st \<and> targets_wf hb st"

lemma tables_simps [simp]:
  "kernel_tables hb (set_progs cg ps st) = kernel_tables hb st"
  "kernel_tables hb (upd_cgroup cg (\<lambda>c. c\<lparr>cb_effective := f c\<rparr>) st) = kernel_tables hb st"
  "kernel_tables hb (upd_cgroup cg (\<lambda>c. c\<lparr>cb_owner := ow\<rparr>) st) = kernel_tables hb st"
  "kernel_tables hb (upd_cgroup cg (\<lambda>c. c\<lparr>cb_flags := fl\<rparr>) st) = kernel_tables hb st"
  "kernel_tables hb (upd_cgroup cg (\<lambda>c. c\<lparr>cb_revision := g c\<rparr>) st) = kernel_tables hb st"
  "kernel_tables hb (st\<lparr>ks_enabled := n\<rparr>) = kernel_tables hb st"
  "kernel_tables hb (st\<lparr>ks_links := ls\<rparr>) = kernel_tables hb st"
  by (simp_all add: kernel_tables_def)

lemma tables_refs [simp]:
  "kernel_tables hb (cgroup_get cg st) = kernel_tables hb st"
  "kernel_tables hb (cgroup_put cg st) = kernel_tables hb st"
  "kernel_tables hb (cgroup_bpf_get cg st) = kernel_tables hb st"
  "kernel_tables hb (cgroup_bpf_put cg st) = kernel_tables hb st"
  by (simp_all add: kernel_tables_def) (simp_all add: targets_wf_def cgroup_ref_defs)

lemma update_tables:
  "kernel_tables hb st \<Longrightarrow> update_effective_progs alloc cg st = (r, st') \<Longrightarrow> kernel_tables hb st'"
  using update_scopes_inv [of hb st alloc cg] targets_wf_cong [of st' st hb]
  by (simp add: kernel_tables_def)

lemma attach_tables:
  "kernel_tables hb st \<Longrightarrow> kernel_tables hb (snd (cgroup_bpf_attach env cg a st))"
  using cgroup_bpf_attach_scopes_inv [of hb st env cg a]
    targets_wf_cong [of "snd (cgroup_bpf_attach env cg a st)" st hb]
  by (simp add: kernel_tables_def scopes_kept_def)

lemma purge_tables:
  "kernel_tables hb st \<Longrightarrow> kernel_tables hb (purge_effective_progs da cg prog link st)"
  using purge_scopes_inv [of hb st da cg prog link] purge_view [of da cg prog link st]
    targets_wf_cong [of "purge_effective_progs da cg prog link st" st hb]
  by (simp add: kernel_tables_def)

lemma detach_tables:
  assumes "kernel_tables hb st"
  shows "kernel_tables hb (snd (cgroup_bpf_detach da alloc cg prog link rv st))"
proof -
  have "kernel_tables hb (snd (None :: errno option, s\<lparr>ks_enabled := n\<rparr>)) = kernel_tables hb s" for s n
    by simp
  moreover have "kernel_tables hb (case update_effective_progs alloc cg (set_progs cg ps st) of
      (None, st) \<Rightarrow> st
    | (Some err, st) \<Rightarrow> purge_effective_progs da cg p l (set_progs cg ps' st))" for ps ps' p l
    using update_tables [of hb "set_progs cg ps st" alloc cg] assms
    by (auto simp: purge_tables split: prod.split option.split)
  ultimately show ?thesis
    using assms by (simp add: cgroup_bpf_detach_def Let_def split: sum.split)
qed

lemma replace_tables:
  assumes "kernel_tables hb st" "cgroup_bpf_replace ok cg link new st = Some (r, st')"
  shows "kernel_tables hb st'"
proof (cases "ok \<and> list_ex (\<lambda>pl. pl_link pl = Some link) (cb_progs (ks_cgroups st cg))")
  case False
  then show ?thesis using assms by (auto simp: cgroup_bpf_replace_def Let_def split: if_splits)
next
  case True
  let ?st1 = "(upd_cgroup cg (\<lambda>c. c\<lparr>cb_revision := cb_revision c + 1\<rparr>) st)
      \<lparr>ks_links := (ks_links (upd_cgroup cg (\<lambda>c. c\<lparr>cb_revision := cb_revision c + 1\<rparr>) st))(link := new)\<rparr>"
  have r: "replace_effective_prog cg link ?st1 = Some st'"
    using True assms(2) by (auto simp: cgroup_bpf_replace_def Let_def)
  have "kernel_tables hb ?st1" using assms(1) by simp
  with replace_effective_prog_view [OF r, of hb] targets_wf_cong [of st' ?st1 hb] show ?thesis
    by (simp add: kernel_tables_def)
qed

lemma free_scopes_targets [simp]:
  "namei_ext_targets (namei_ext_free_scopes s st) = namei_ext_targets st"
  "namei_ext_targets (namei_ext_finish_scope_replace s st) = namei_ext_targets st"
  "ks_cgroups (namei_ext_free_scopes s st) = ks_cgroups st"
  "ks_cgroups (namei_ext_finish_scope_replace s st) = ks_cgroups st"
  "ks_online (namei_ext_finish_scope_replace s st) = ks_online st"
  "ks_links (namei_ext_finish_scope_replace s st) = ks_links st"
  "ks_online (namei_ext_free_scopes s st) = ks_online st"
  "ks_links (namei_ext_free_scopes s st) = ks_links st"
  by (simp_all add: namei_ext_finish_scope_replace_def namei_ext_free_scopes_def path_put_list_eq
      split: option.split)

lemma cgroup_release_targets_wf:
  assumes "targets_wf hb st"
  shows "targets_wf hb (namei_ext_cgroup_release hb cg st)"
  unfolding namei_ext_cgroup_release_def Let_def split_beta
  by (intro clear_targets_wf) (use assms in \<open>simp add: replace_locked_fields targets_wf_def\<close>)

lemma release_tables:
  assumes "kernel_tables hb st"
  shows "kernel_tables hb (cgroup_bpf_release hb cg st)"
proof -
  let ?progs = "cb_progs (ks_cgroups st cg)"
  let ?r = "release_entries ?progs st"
  let ?st = "upd_cgroup cg (\<lambda>c. c\<lparr>cb_effective := []\<rparr>) (set_progs cg []
      (?r\<lparr>ks_enabled := ks_enabled ?r - int (length ?progs)\<rparr>))"
  obtain refs lc where r: "?r = st\<lparr>ks_cgroup_refs := refs, ks_link_cgroup := lc\<rparr>"
    using release_entries_eq by blast
  have "kernel_tables hb ?r"
    unfolding r using assms scopes_inv_cong [of "st\<lparr>ks_cgroup_refs := refs, ks_link_cgroup := lc\<rparr>" st hb]
    by (simp add: kernel_tables_def targets_wf_def)
  then have st: "scopes_inv hb ?st" "targets_wf hb ?st" by (simp_all add: kernel_tables_def)
  from cgroup_release_targets_wf [OF st(2)] cgroup_release_inv [OF st(1)] have k: "kernel_tables hb (namei_ext_cgroup_release hb cg ?st)"
    by (simp add: kernel_tables_def)
  have "kernel_tables hb (fold cgroup_bpf_put cs s)" if "kernel_tables hb s" for cs s
    by (rule fold_inv [of "kernel_tables hb"], rule that) simp
  with k show ?thesis by (simp add: cgroup_bpf_release_def Let_def)
qed

subsection \<open>Scope and target commands leave the attachments alone\<close>

lemma publish_attach_inv:
  "attach_inv (namei_ext_finish_scope_replace old (snd (namei_ext_scope_replace_locked hb cg new st))) =
     attach_inv st"
  by (rule attach_inv_cong) (simp_all add: replace_locked_fields attach_view_def)

lemma attach_inv_refs [simp]:
  "attach_inv (path_get p st) = attach_inv st"
  "attach_inv (path_put p st) = attach_inv st"
  "attach_inv (path_get_list ps st) = attach_inv st"
  "attach_inv (st\<lparr>ks_next_addr := n\<rparr>) = attach_inv st"
  "attach_inv (namei_ext_free_scopes s st) = attach_inv st"
  "attach_inv (cgroup_get cg st) = attach_inv st"
  "attach_inv (cgroup_put cg st) = attach_inv st"
  "attach_inv (cgroup_bpf_get cg st) = attach_inv st"
  "attach_inv (cgroup_bpf_put cg st) = attach_inv st"
  "attach_inv (namei_ext_put_cgroup cg st) = attach_inv st"
  "attach_inv (namei_ext_clear_targets cg st) = attach_inv st"
  by (rule attach_inv_cong; simp add: refs_eq cgroup_ref_defs namei_ext_put_cgroup_def clear_targets_eq)+

lemma alloc_attach_inv [simp]:
  "attach_inv (snd (namei_ext_alloc_scopes alloc nr st)) = attach_inv st"
  by (simp add: namei_ext_alloc_scopes_def)

lemma scope_commands_attach_inv [simp]:
  "attach_inv (snd (namei_ext_scope_exact hb alloc cg path st)) = attach_inv st"
  "attach_inv (snd (namei_ext_scope_empty hb alloc cg st)) = attach_inv st"
  "attach_inv (snd (namei_ext_scope_global hb cg st)) = attach_inv st"
  "attach_inv (snd (namei_ext_scope_add hb alloc cg path st)) = attach_inv st"
  by (simp_all add: namei_ext_scope_exact_def namei_ext_scope_empty_def namei_ext_scope_global_def
      namei_ext_scope_add_def Let_def split_beta publish_attach_inv split: option.split)

lemma policy_parent_write_attach_inv:
  "attach_inv (snd (namei_ext_policy_parent_write hb env count st)) = attach_inv st"
proof (cases rule: policy_parent_write_cases [of hb env count st])
  case (command buf c f n r st')
  let ?st = "cgroup_get (we_current env) (cgroup_bpf_get (we_current env) st)"
  have "attach_inv (snd (policy_parent_command hb env (we_current env) c f n ?st)) = attach_inv ?st"
    by (simp add: policy_parent_command_def split: option.split)
  with command show ?thesis by simp
qed simp

lemma register_target_frame:
  "ks_online (snd (namei_ext_register_target hb alloc cg tid p st)) = ks_online st"
  "ks_links (snd (namei_ext_register_target hb alloc cg tid p st)) = ks_links st"
  "namei_ext_scope_index (snd (namei_ext_register_target hb alloc cg tid p st)) = namei_ext_scope_index st"
  "namei_ext_exact_scope_users (snd (namei_ext_register_target hb alloc cg tid p st)) = namei_ext_exact_scope_users st"
  "namei_ext_global_scope_users (snd (namei_ext_register_target hb alloc cg tid p st)) = namei_ext_global_scope_users st"
  "ks_next_addr (snd (namei_ext_register_target hb alloc cg tid p st)) = ks_next_addr st"
  by (auto simp: namei_ext_register_target_def Let_def path_put_def split: prod.split option.split)

lemma register_target_write_other:
  "attach_inv (snd (namei_ext_register_target_write hb env count st)) = attach_inv st \<and>
   scopes_inv hb' (snd (namei_ext_register_target_write hb env count st)) = scopes_inv hb' st"
proof (cases rule: register_target_write_cases [of hb env count st])
  case (registered buf tid fd p st')
  note fr = register_target_frame [of hb "we_alloc env" "we_current env" tid p "path_get p st"]
    register_target_cgroup_refs [of hb "we_alloc env" "we_current env" tid p "path_get p st"]
  have "attach_inv st' = attach_inv (path_get p st)"
    by (rule attach_inv_cong) (use registered fr in simp_all)
  moreover have "scopes_inv hb' st' = scopes_inv hb' (path_get p st)"
    by (rule scopes_inv_cong) (use registered fr in simp_all)
  ultimately show ?thesis using registered by simp
qed (auto simp: put_get_path)

lemma policy_parent_write_tables:
  assumes "kernel_tables hb st"
  shows "kernel_tables hb (snd (namei_ext_policy_parent_write hb env count st))"
proof -
  have t: "namei_ext_targets (snd (policy_parent_command hb env cg c f n s)) = namei_ext_targets s"
    for cg c f n s
    by (auto simp: policy_parent_command_def namei_ext_scope_exact_def namei_ext_scope_empty_def
        namei_ext_scope_global_def namei_ext_scope_add_def Let_def split_beta replace_locked_fields
        namei_ext_alloc_scopes_def refs_eq split: prod.split option.split)
  have "namei_ext_targets (snd (namei_ext_policy_parent_write hb env count st)) = namei_ext_targets st"
  proof (cases rule: policy_parent_write_cases [of hb env count st])
    case (command buf c f n r st')
    then show ?thesis
      using t [of "we_current env" c f n "cgroup_get (we_current env) (cgroup_bpf_get (we_current env) st)"]
      by (simp add: namei_ext_put_cgroup_def cgroup_ref_defs)
  qed simp
  with assms policy_parent_write_inv [of hb st env count] show ?thesis
    by (simp add: kernel_tables_def targets_wf_def)
qed

subsection \<open>Creation, death and release of cgroups\<close>

text \<open>
  A new cgroup: a fresh id below a live parent, linked into the hierarchy with a zeroed
  structure at some place of the pre-order, then \<open>cgroup_bpf_inherit\<close>.
\<close>

definition cgroup_link :: "u64 \<Rightarrow> u64 \<Rightarrow> u64 list \<Rightarrow> kstate \<Rightarrow> kstate" where
  "cgroup_link c parent online st =
     st\<lparr>ks_cgroups := (ks_cgroups st)(c := zero_cgroup_bpf (cgroup_chain parent st)),
        ks_online := online\<rparr>"

definition cgroup_unused :: "kstate \<Rightarrow> u64 \<Rightarrow> bool" where
  "cgroup_unused st c \<longleftrightarrow>
     c \<notin> set (ks_online st) \<and> scopes_of st c = None \<and> \<not> cb_scope_active (ks_cgroups st c)"

lemma cgroup_link_view:
  assumes "attach_inv st" "cgroup_unused st c" "live st parent" "set online = insert c (set (ks_online st))"
  shows "live (cgroup_link c parent online st) d \<longleftrightarrow> d = c \<or> live st d"
    and "d = c \<or> live st d \<Longrightarrow> cgroup_chain d (cgroup_link c parent online st) =
           (if d = c then c # cgroup_chain parent st else cgroup_chain d st)"
    and "hierarchy_ok (cgroup_link c parent online st)"
    and "owners_active (cgroup_link c parent online st)"
    and "\<And>d. d \<noteq> c \<Longrightarrow> live (cgroup_link c parent online st) d \<Longrightarrow>
           has_progs (cgroup_link c parent online st) d \<Longrightarrow>
           cb_scope_active (ks_cgroups (cgroup_link c parent online st) d)"
proof -
  let ?st = "cgroup_link c parent online st"
  have nl: "\<not> live st c" using assms(2) by (simp add: cgroup_unused_def live_def)
  show lv: "live ?st d \<longleftrightarrow> d = c \<or> live st d" for d
    using assms(2,4) by (auto simp: live_def cgroup_link_def zero_cgroup_bpf_def cgroup_unused_def)
  show ch: "d = c \<or> live st d \<Longrightarrow> cgroup_chain d ?st =
      (if d = c then c # cgroup_chain parent st else cgroup_chain d st)" for d
    by (auto simp: cgroup_chain_def cgroup_link_def zero_cgroup_bpf_def)
  have h: "live st a" "set (cgroup_chain a st) \<subseteq> set (cgroup_chain d st)"
    if "live st d" "a \<in> set (cgroup_chain d st)" for a d
    using assms(1) that by (auto simp: attach_inv_def hierarchy_ok_def)
  show "hierarchy_ok ?st"
    unfolding hierarchy_ok_def lv
  proof (intro allI impI ballI)
    fix d a assume d: "d = c \<or> live st d" and a: "a \<in> set (cgroup_chain d ?st)"
    show "(a = c \<or> live st a) \<and> set (cgroup_chain a ?st) \<subseteq> set (cgroup_chain d ?st)"
    proof (cases "d = c")
      case True
      with a ch have "a = c \<or> a \<in> set (cgroup_chain parent st)" by simp
      then show ?thesis
      proof
        assume "a = c"
        then show ?thesis using True by simp
      next
        assume *: "a \<in> set (cgroup_chain parent st)"
        then have "a \<noteq> c" using h(1) [OF assms(3)] nl by blast
        with True * ch [of a] ch [of d] h [OF assms(3) *] show ?thesis by auto
      qed
    next
      case False
      with d a ch have "live st d" "a \<in> set (cgroup_chain d st)" by auto
      moreover have "a \<noteq> c" using h(1) calculation nl by blast
      ultimately show ?thesis using h [of d a] False ch [of a] ch [of d] by auto
    qed
  qed
  have nc: "a \<noteq> c" if "live st d" "a \<in> set (cgroup_chain d st)" for a d
    using h [OF that] nl by auto
  show "owners_active ?st"
    unfolding owners_active_def lv
  proof (intro allI impI)
    fix d owner assume d: "d = c \<or> live st d" "cb_owner (ks_cgroups ?st d) = Some owner"
    then have "d \<noteq> c" by (auto simp: cgroup_link_def zero_cgroup_bpf_def)
    with d have "live st d" "owner \<in> set (cgroup_chain d st)" "cb_scope_active (ks_cgroups st owner)"
      using assms(1) by (auto simp: attach_inv_def owners_active_def cgroup_link_def)
    with nc [of d owner] ch [of d] \<open>d \<noteq> c\<close>
    show "owner \<in> set (cgroup_chain d ?st) \<and> cb_scope_active (ks_cgroups ?st owner)"
      by (simp add: cgroup_link_def)
  qed
  show "cb_scope_active (ks_cgroups ?st d)" if "d \<noteq> c" "live ?st d" "has_progs ?st d" for d
    using that assms(1) lv [of d]
    by (auto simp: attach_inv_def attached_active_def cgroup_link_def has_progs_def)
qed

lemma inherit_activate:
  assumes "cgroup_bpf_inherit ref_init alloc c st = (None, st')" "cb_progs (ks_cgroups st c) = []"
  shows "\<exists>arr. st' = activate_all [(c, Inr arr)] (fold cgroup_bpf_get (cb_ancestors (ks_cgroups st c)) st)"
proof -
  let ?g = "fold cgroup_bpf_get (cb_ancestors (ks_cgroups st c)) st"
  have "ks_cgroups ?g = ks_cgroups st"
    by (rule fold_inv [of "\<lambda>s. ks_cgroups s = ks_cgroups st"]) (simp_all add: cgroup_ref_defs)
  then have "set_progs c [] ?g = ?g"
    using assms(2) by (simp add: set_progs_def upd_cgroup_def fun_upd_idem)
  with assms(1) show ?thesis
    by (auto simp: cgroup_bpf_inherit_def Let_def activate_all_def split: if_splits sum.splits)
qed

lemma create_inv:
  assumes "kernel_inv hb st" "cgroup_unused st c" "live st parent"
    and "set online = insert c (set (ks_online st))"
    and "cgroup_bpf_inherit ref_init alloc c (cgroup_link c parent online st) = (None, st')"
  shows "kernel_inv hb st'"
proof -
  let ?st = "cgroup_link c parent online st"
  let ?g = "fold cgroup_bpf_get (cb_ancestors (ks_cgroups ?st c)) ?st"
  have a: "attach_inv st" using assms(1) by (simp add: kernel_inv_def)
  note view = cgroup_link_view [OF a assms(2,3,4)]
  have "cb_progs (ks_cgroups ?st c) = []" by (simp add: cgroup_link_def zero_cgroup_bpf_def)
  from inherit_activate [OF assms(5) this] obtain arr where st': "st' = activate_all [(c, Inr arr)] ?g"
    by blast
  have g: "ks_cgroups ?g = ks_cgroups ?st \<and> ks_online ?g = ks_online ?st \<and> ks_links ?g = ks_links ?st \<and>
      kernel_tables hb ?g = kernel_tables hb ?st"
    by (rule fold_inv [of "\<lambda>s. ks_cgroups s = ks_cgroups ?st \<and> ks_online s = ks_online ?st \<and>
          ks_links s = ks_links ?st \<and> kernel_tables hb s = kernel_tables hb ?st"])
       (simp_all, simp add: cgroup_ref_defs)
  have eqs: "live ?g d = live ?st d" "cgroup_chain d ?g = cgroup_chain d ?st"
    "has_progs ?g d = has_progs ?st d" for d
    using g by (simp_all only: live_def cgroup_chain_def has_progs_def)
  have ld: "set (live_descendants c ?g) = {c}"
  proof -
    have "\<not> live st c" using assms(2) by (simp add: cgroup_unused_def live_def)
    then have "live st d \<Longrightarrow> c \<notin> set (cgroup_chain d st)" for d
      using a unfolding attach_inv_def hierarchy_ok_def by blast
    then have "d \<in> set (live_descendants c ?g) \<longleftrightarrow> d = c" for d
      using view(1,2) [of d] unfolding live_descendants_iff eqs by (cases "d = c") auto
    then show ?thesis by blast
  qed
  have "attach_inv st'"
    unfolding st'
  proof (rule activate_all_attach_inv [of ?g c])
    show "hierarchy_ok ?g" using view(3) unfolding hierarchy_ok_def eqs .
    show "owners_active ?g" using view(4) g unfolding owners_active_def eqs by simp
    show "cb_scope_active (ks_cgroups ?g d)" if "d \<noteq> c" "live ?g d" "has_progs ?g d" for d
      using view(5) [of d] that g unfolding eqs by simp
    show "fst ` set [(c, Inr arr)] = set (live_descendants c ?g)" using ld by simp
  qed simp
  moreover have "kernel_tables hb ?st"
  proof -
    have "scopes_inv hb ?st = scopes_inv hb st"
      by (rule scopes_inv_cong)
         (use assms(2) in \<open>auto simp: cgroup_link_def zero_cgroup_bpf_def cgroup_unused_def\<close>)
    then show ?thesis
      using assms(1) by (simp add: kernel_tables_def kernel_inv_def targets_wf_def cgroup_link_def)
  qed
  then have "kernel_tables hb st'"
    using g activate_all_other [of "[(c, Inr arr)]" ?g hb] targets_wf_cong [of st' ?g hb]
    by (simp add: st' kernel_tables_def)
  ultimately show ?thesis by (simp add: kernel_inv_def kernel_tables_def)
qed

text \<open>
  The last reference to a cgroup's BPF data goes away. Every descendant holds one
  (\<open>cgroup_bpf_inherit\<close> takes it, \<open>cgroup_bpf_release\<close> drops it), so none is left.
\<close>

definition cgroup_ref_zero :: "u64 \<Rightarrow> kstate \<Rightarrow> kstate" where
  "cgroup_ref_zero c st = upd_cgroup c (\<lambda>b. b\<lparr>cb_ref_zero := True, cb_ref_live := False\<rparr>) st"

text \<open>
  Taking a cgroup offline marks it dead (\<open>cgroup_is_dead\<close>) and kills the reference to its BPF
  data, which needs the cgroup until \<open>cgroup_bpf_release\<close> has run.
\<close>

definition cgroup_bpf_offline :: "u64 \<Rightarrow> kstate \<Rightarrow> kstate" where
  "cgroup_bpf_offline c st = upd_cgroup c (\<lambda>b. b\<lparr>cb_ref_live := False\<rparr>) (cgroup_get c st)"

definition cgroup_offline :: "u64 \<Rightarrow> kstate \<Rightarrow> kstate" where
  "cgroup_offline c st = cgroup_bpf_offline c (upd_cgroup c (\<lambda>b. b\<lparr>cb_dead := True\<rparr>) st)"

lemma ref_zero_inv:
  assumes "kernel_inv hb st" "\<And>d. live st d \<Longrightarrow> c \<in> set (cgroup_chain d st) \<Longrightarrow> d = c"
  shows "kernel_inv hb (cgroup_ref_zero c st)"
proof -
  let ?st = "cgroup_ref_zero c st"
  have eqs: "live ?st d = (live st d \<and> d \<noteq> c)" "cgroup_chain d ?st = cgroup_chain d st"
    "has_progs ?st d = has_progs st d" "cb_owner (ks_cgroups ?st d) = cb_owner (ks_cgroups st d)"
    "cb_scope_active (ks_cgroups ?st d) = cb_scope_active (ks_cgroups st d)" for d
    by (auto simp: live_def cgroup_chain_def has_progs_def cgroup_ref_zero_def upd_cgroup_def)
  have "attach_inv ?st"
    using assms
    unfolding kernel_inv_def attach_inv_def hierarchy_ok_def attached_active_def owners_active_def eqs
    by blast
  moreover have "scopes_inv hb ?st = scopes_inv hb st"
    by (rule scopes_inv_cong) (simp_all add: cgroup_ref_zero_def upd_cgroup_def)
  ultimately show ?thesis
    using assms(1) by (simp add: kernel_inv_def) (simp add: cgroup_ref_zero_def)
qed

lemmas offline_defs = cgroup_offline_def cgroup_bpf_offline_def cgroup_get_def

lemma offline_inv: "kernel_inv hb st \<Longrightarrow> kernel_inv hb (cgroup_offline c st)"
proof -
  have "attach_inv (cgroup_offline c st) = attach_inv st"
    by (rule attach_inv_cong) (simp_all add: offline_defs upd_cgroup_def attach_view_def)
  moreover have "scopes_inv hb (cgroup_offline c st) = scopes_inv hb st"
    by (rule scopes_inv_cong) (simp_all add: offline_defs upd_cgroup_def)
  ultimately show "kernel_inv hb st \<Longrightarrow> kernel_inv hb (cgroup_offline c st)"
    by (simp add: kernel_inv_def) (simp add: offline_defs targets_wf_def upd_cgroup_def)
qed

lemma release_inv:
  assumes "kernel_inv hb st" "\<not> live st c"
  shows "kernel_inv hb (cgroup_bpf_release hb c st)"
proof -
  let ?st = "cgroup_bpf_release hb c st"
  have put: "ks_cgroups (fold cgroup_bpf_put cs s) = ks_cgroups s \<and>
      ks_online (fold cgroup_bpf_put cs s) = ks_online s \<and> ks_links (fold cgroup_bpf_put cs s) = ks_links s"
    for cs s
    by (rule fold_inv [of "\<lambda>t. ks_cgroups t = ks_cgroups s \<and> ks_online t = ks_online s \<and> ks_links t = ks_links s"])
       (simp_all add: cgroup_ref_defs)
  obtain refs lc where r: "release_entries (cb_progs (ks_cgroups st c)) st =
      st\<lparr>ks_cgroup_refs := refs, ks_link_cgroup := lc\<rparr>"
    using release_entries_eq by blast
  have f: "ks_online ?st = ks_online st" "ks_links ?st = ks_links st"
    "d \<noteq> c \<Longrightarrow> ks_cgroups ?st d = ks_cgroups st d"
    "cb_ref_zero (ks_cgroups ?st c) = cb_ref_zero (ks_cgroups st c)"
    "cb_ancestors (ks_cgroups ?st c) = cb_ancestors (ks_cgroups st c)" for d
    by (simp_all add: cgroup_bpf_release_def Let_def r namei_ext_cgroup_release_def split_beta put
        cgroup_put_def clear_targets_eq path_put_list_eq set_progs_def upd_cgroup_def
        replace_locked_fields)
  have lv: "live ?st d = live st d" "cgroup_chain d ?st = cgroup_chain d st" for d
    using f by (cases "d = c"; simp add: live_def cgroup_chain_def)+
  have other: "ks_cgroups ?st d = ks_cgroups st d" "has_progs ?st d = has_progs st d" if "live st d" for d
  proof -
    show "ks_cgroups ?st d = ks_cgroups st d" using that assms(2) f(3) [of d] by (cases "d = c") auto
    then show "has_progs ?st d = has_progs st d" using f(2) by (simp add: has_progs_def)
  qed
  have h: "hierarchy_ok st" "attached_active st" "owners_active st"
    using assms(1) by (simp_all add: kernel_inv_def attach_inv_def)
  have "attach_inv ?st"
    unfolding attach_inv_def
  proof (intro conjI)
    show "hierarchy_ok ?st" using h(1) unfolding hierarchy_ok_def lv .
    show "attached_active ?st" using h(2) other unfolding attached_active_def lv by simp
    show "owners_active ?st"
      unfolding owners_active_def lv
    proof (intro allI impI)
      fix d owner assume d: "live st d" "cb_owner (ks_cgroups ?st d) = Some owner"
      then have o: "owner \<in> set (cgroup_chain d st)" "cb_scope_active (ks_cgroups st owner)"
        using h(3) other(1) [OF d(1)] by (auto simp: owners_active_def)
      then have "live st owner" using h(1) d(1) by (auto simp: hierarchy_ok_def)
      with o other show "owner \<in> set (cgroup_chain d st) \<and> cb_scope_active (ks_cgroups ?st owner)"
        by simp
    qed
  qed
  with release_tables [of hb st c] assms(1) show ?thesis
    by (simp add: kernel_inv_def kernel_tables_def)
qed

subsection \<open>Reachable states\<close>

text \<open>
  One step is one operation, in the order \<open>cgroup_mutex\<close> and the two mutexes of
  \<open>fs/namei_ext.c\<close> serialise them.
\<close>

inductive kstep :: "hashfn \<Rightarrow> kstate \<Rightarrow> kstate \<Rightarrow> bool" for hb where
  attach: "kstep hb st (snd (cgroup_bpf_attach env cg a st))"
| detach: "kstep hb st (snd (cgroup_bpf_detach da alloc cg prog link rv st))"
| replace: "cgroup_bpf_replace ok cg link new st = Some (r, st') \<Longrightarrow> kstep hb st st'"
| register: "kstep hb st (snd (namei_ext_register_target_write hb env count st))"
| policy_parent: "kstep hb st (snd (namei_ext_policy_parent_write hb env count st))"
| create: "cgroup_unused st c \<Longrightarrow> live st parent \<Longrightarrow> set online = insert c (set (ks_online st)) \<Longrightarrow>
    cgroup_bpf_inherit ref_init alloc c (cgroup_link c parent online st) = (None, st') \<Longrightarrow>
    kstep hb st st'"
| offline: "kstep hb st (cgroup_offline c st)"
| ref_zero: "(\<And>d. live st d \<Longrightarrow> c \<in> set (cgroup_chain d st) \<Longrightarrow> d = c) \<Longrightarrow>
    kstep hb st (cgroup_ref_zero c st)"
| release: "\<not> live st c \<Longrightarrow> kstep hb st (cgroup_bpf_release hb c st)"

inductive reachable :: "hashfn \<Rightarrow> kstate \<Rightarrow> kstate \<Rightarrow> bool" for hb init where
  init: "reachable hb init init"
| step: "reachable hb init st \<Longrightarrow> kstep hb st st' \<Longrightarrow> reachable hb init st'"

text \<open>The state at boot: a root cgroup and empty tables.\<close>

definition kernel_boot :: "u64 \<Rightarrow> kstate" where
  "kernel_boot root =
     \<lparr> namei_ext_targets = (\<lambda>_. []), namei_ext_scope_index = (\<lambda>_. []),
       namei_ext_global_scope_users = 0, namei_ext_exact_scope_users = 0, ks_next_addr = 1,
       ks_cgroups = (\<lambda>_. zero_cgroup_bpf []), ks_links = (\<lambda>_. 0), ks_link_cgroup = (\<lambda>_. None), ks_online = [root],
       ks_enabled = 0, ks_path_refs = (\<lambda>_. 0), ks_cgroup_refs = (\<lambda>_. 0), ks_bpf_refs = (\<lambda>_. 0),
       ks_f_opened = False, ks_f_created = False \<rparr>"

lemma kernel_boot_inv: "kernel_inv hb (kernel_boot root)"
proof -
  have "scopes_inv hb (kernel_boot root)"
    by (simp add: scopes_inv_def addrs_ok_def index_ok_def index_hashed_def index_nodes_def
        global_ok_def global_cgroups_def counts_def kernel_boot_def zero_cgroup_bpf_def)
  moreover have "targets_wf hb (kernel_boot root)"
    by (simp add: targets_wf_def bucket_wf_def kernel_boot_def)
  moreover have "attach_inv (kernel_boot root)"
    by (simp add: attach_inv_def hierarchy_ok_def attached_active_def owners_active_def live_def
        cgroup_chain_def has_progs_def kernel_boot_def zero_cgroup_bpf_def)
  ultimately show ?thesis by (simp add: kernel_inv_def)
qed

lemma kernel_inv_split: "kernel_inv hb st \<longleftrightarrow> kernel_tables hb st \<and> attach_inv st"
  by (auto simp: kernel_inv_def kernel_tables_def)

lemma kstep_inv:
  assumes "kstep hb st st'" "kernel_inv hb st"
  shows "kernel_inv hb st'"
  using assms
proof (cases rule: kstep.cases)
  case (attach env cg a)
  then show ?thesis using assms(2) attach_tables cgroup_bpf_attach_inv by (simp add: kernel_inv_split)
next
  case (detach da alloc cg prog link rv)
  then show ?thesis using assms(2) detach_tables cgroup_bpf_detach_inv by (simp add: kernel_inv_split)
next
  case (replace ok cg link new r)
  then show ?thesis using assms(2) replace_tables cgroup_bpf_replace_inv by (auto simp: kernel_inv_split)
next
  case (register env count)
  then show ?thesis
    using assms(2) register_target_write_other [of hb env count st hb] register_target_write_wf [of hb st env count]
    by (simp add: kernel_inv_def)
next
  case (policy_parent env count)
  then show ?thesis
    using assms(2) policy_parent_write_tables [of hb st env count]
      policy_parent_write_attach_inv [of hb env count st]
    by (simp add: kernel_inv_split)
next
  case (create c parent online ref_init alloc)
  then show ?thesis using create_inv [OF assms(2)] by blast
next
  case (offline c)
  then show ?thesis using assms(2) offline_inv by simp
next
  case (ref_zero c)
  then show ?thesis using assms(2) ref_zero_inv by blast
next
  case (release c)
  then show ?thesis using assms(2) release_inv by simp
qed

lemma reachable_inv: "reachable hb init st \<Longrightarrow> kernel_inv hb init \<Longrightarrow> kernel_inv hb st"
  by (induction rule: reachable.induct) (auto intro: kstep_inv)

lemma reachable_no_false_negative:
  assumes "kernel_inv hb st" "live st cg" "cb_owner (ks_cgroups st cg) = Some owner"
    and "namei_ext_policy_parent_matches owner parent st"
  shows "namei_ext_parent_maybe_managed hb parent st"
proof (rule matches_maybe_managed)
  show "scopes_inv hb st" using assms(1) by (simp add: kernel_inv_def)
  show "scope_counted st owner"
    using assms(1-3) by (auto simp: kernel_inv_def attach_inv_def owners_active_def scope_counted_def)
qed (rule assms(4))

end
