(* ===== verification/Policies_Basic.thy ===== *)
theory Policies_Basic
  imports Policy_Lib
begin

text \<open>
  The policies without per-cgroup state: the pass-through programs, the minimal
  regression programs for each action, the exact-table diagnostic, and the two
  fault-injection programs with the two programs the verifier must refuse.
\<close>

subsection \<open>pass\_only, fxmark\_pass, fxmark\_select, hide\_secret, select\_portal\<close>

definition pass_only_policy :: "unit policy" where
  "pass_only_policy c m = (BPF_NAMEI_EXT_PASS, c, m)"

definition fxmark_pass_policy :: "unit policy" where
  "fxmark_pass_policy c m = (BPF_NAMEI_EXT_PASS, c, m)"

definition fxmark_select_policy :: "unit policy" where
  "fxmark_select_policy c m =
     (if c_event c = BPF_NAMEI_EXT_LOOKUP \<and> namei_ext_is c ''view''
      then (BPF_NAMEI_EXT_SELECT_TARGET, c\<lparr>c_target_id := 1\<rparr>, m)
      else (BPF_NAMEI_EXT_PASS, c, m))"

definition hide_secret_policy :: "unit policy" where
  "hide_secret_policy c m =
     (if (c_event c = BPF_NAMEI_EXT_LOOKUP \<or> c_event c = BPF_NAMEI_EXT_READDIR) \<and>
         namei_ext_is c ''secret''
      then (BPF_NAMEI_EXT_HIDE, c, m)
      else (BPF_NAMEI_EXT_PASS, c, m))"

definition select_portal_policy :: "unit policy" where
  "select_portal_policy c m =
     (if c_event c = BPF_NAMEI_EXT_LOOKUP \<and> namei_ext_is c ''portal''
      then (BPF_NAMEI_EXT_SELECT_TARGET, c\<lparr>c_target_id := 1\<rparr>, m)
      else if c_event c = BPF_NAMEI_EXT_LOOKUP \<and> namei_ext_is c ''selected-file''
      then (BPF_NAMEI_EXT_SELECT_TARGET, c\<lparr>c_target_id := 2\<rparr>, m)
      else if c_event c = BPF_NAMEI_EXT_LOOKUP \<and> namei_ext_is c ''selected-exec''
      then (BPF_NAMEI_EXT_SELECT_TARGET, c\<lparr>c_target_id := 3\<rparr>, m)
      else if c_event c = BPF_NAMEI_EXT_LOOKUP \<and> namei_ext_is c ''pinned-file''
      then (BPF_NAMEI_EXT_SELECT_TARGET, c\<lparr>c_target_id := 4\<rparr>, m)
      else (BPF_NAMEI_EXT_PASS, c, m))"

subsection \<open>table\_redirect\<close>

text \<open>The hash map \<open>exact_redirects\<close> is a partial function from component keys to rules.\<close>

definition table_redirect_policy :: "(ckey \<rightharpoonup> rrule) policy" where
  "table_redirect_policy c exact_redirects =
     (let key = namei_ext_build_component_key c zero_component_key;
          rule = exact_redirects key;
          (action, c') = namei_ext_apply_rule c rule
      in (action, c', exact_redirects))"

subsection \<open>redirect\_alias\<close>

definition name_is_tool :: "ctx \<Rightarrow> bool" where
  "name_is_tool c =
     (if c_name_len c \<noteq> 4 then False
      else c_name c ! 0 = CHR ''t'' \<and> c_name c ! 1 = CHR ''o'' \<and> c_name c ! 2 = CHR ''o'' \<and>
           c_name c ! 3 = CHR ''l'')"

definition name_is_tool_real :: "ctx \<Rightarrow> bool" where
  "name_is_tool_real c =
     (if c_name_len c \<noteq> 9 then False
      else c_name c ! 0 = CHR ''t'' \<and> c_name c ! 1 = CHR ''o'' \<and> c_name c ! 2 = CHR ''o'' \<and>
           c_name c ! 3 = CHR ''l'' \<and> c_name c ! 4 = CHR ''.'' \<and> c_name c ! 5 = CHR ''r'' \<and>
           c_name c ! 6 = CHR ''e'' \<and> c_name c ! 7 = CHR ''a'' \<and> c_name c ! 8 = CHR ''l'')"

definition redirect_to_tool :: "ctx \<Rightarrow> ctx" where
  "redirect_to_tool c =
     c\<lparr> c_redirect_name_len := 4,
        c_redirect_name := (c_redirect_name c)
          [0 := CHR ''t'', 1 := CHR ''o'', 2 := CHR ''o'', 3 := CHR ''l''] \<rparr>"

definition redirect_to_tool_real :: "ctx \<Rightarrow> ctx" where
  "redirect_to_tool_real c =
     c\<lparr> c_redirect_name_len := 9,
        c_redirect_name := (c_redirect_name c)
          [0 := CHR ''t'', 1 := CHR ''o'', 2 := CHR ''o'', 3 := CHR ''l'', 4 := CHR ''.'',
           5 := CHR ''r'', 6 := CHR ''e'', 7 := CHR ''a'', 8 := CHR ''l''] \<rparr>"

definition redirect_alias_policy :: "unit policy" where
  "redirect_alias_policy c m =
     (if c_event c = BPF_NAMEI_EXT_LOOKUP \<and> name_is_tool c
      then (BPF_NAMEI_EXT_REDIRECT, redirect_to_tool_real c, m)
      else if c_event c = BPF_NAMEI_EXT_READDIR \<and> name_is_tool_real c
      then (BPF_NAMEI_EXT_REDIRECT, redirect_to_tool c, m)
      else (BPF_NAMEI_EXT_PASS, c, m))"

text \<open>The hand-unrolled tests and stores agree with the library's loops.\<close>

lemma name_is_tool_iff: "name_is_tool c \<longleftrightarrow> namei_ext_is c ''tool''"
  by (auto simp: name_is_tool_def namei_ext_is_def namei_ext_name_is_def
      scan_loop_numeral scan_loop_Suc)

lemma name_is_tool_real_iff: "name_is_tool_real c \<longleftrightarrow> namei_ext_is c ''tool.real''"
  by (auto simp: name_is_tool_real_def namei_ext_is_def namei_ext_name_is_def
      scan_loop_numeral scan_loop_Suc)

lemma store_loop_prefix:
  assumes "length lit \<le> n" "n \<le> length xs"
  shows "store_loop n (\<lambda>i. i < length lit) (\<lambda>i. lit ! i) xs =
           fold (\<lambda>i a. a[i := lit ! i]) [0..<length lit] xs"
proof -
  have idx: "[0..<n] = [0..<length lit] @ [length lit..<n]"
    using assms upt_add_eq_append [of 0 "length lit" "n - length lit"] by simp
  have a: "fold (\<lambda>i a. if i < length lit then a[i := lit ! i] else a) [0..<length lit] xs =
      fold (\<lambda>i a. a[i := lit ! i]) [0..<length lit] xs"
    by (rule fold_cong) auto
  have b: "fold (\<lambda>i a. if i < length lit then a[i := lit ! i] else a) [length lit..<n] ys = ys"
    for ys :: "'a list"
  proof -
    have "fold (\<lambda>i a. if i < length lit then a[i := lit ! i] else a) is ys = ys"
      if "\<forall>i\<in>set is. length lit \<le> i" for "is"
      using that by (induction "is" arbitrary: ys) auto
    then show ?thesis by simp
  qed
  show ?thesis by (simp add: store_loop_def idx a b)
qed

lemma redirect_literal_fold:
  assumes "ctx_wf c" "length lit \<le> 64"
  shows "namei_ext_redirect_literal c lit =
           c\<lparr> c_redirect_name_len := of_nat (length lit),
              c_redirect_name := fold (\<lambda>i a. a[i := lit ! i]) [0..<length lit] (c_redirect_name c) \<rparr>"
  using assms store_loop_prefix [of lit 64 "c_redirect_name c"]
  by (simp add: namei_ext_redirect_literal_def namei_ext_set_redirect_def ctx_wf_def
      unat_of_nat_u32)

lemma redirect_to_tool_literal:
  "ctx_wf c \<Longrightarrow> redirect_to_tool c = namei_ext_redirect_literal c ''tool''"
  by (simp add: redirect_literal_fold redirect_to_tool_def upt_rec small_nats)

lemma redirect_to_tool_real_literal:
  "ctx_wf c \<Longrightarrow> redirect_to_tool_real c = namei_ext_redirect_literal c ''tool.real''"
  by (simp add: redirect_literal_fold redirect_to_tool_real_def upt_rec small_nats)

subsection \<open>Programs the verifier refuses\<close>

definition rq3_invalid_action_policy :: "unit policy" where
  "rq3_invalid_action_policy c m = (BPF_NAMEI_EXT_SELECT_TARGET + 1, c, m)"

definition rq3_invalid_ctx_write_policy :: "unit policy" where
  "rq3_invalid_ctx_write_policy c m =
     (BPF_NAMEI_EXT_PASS, c\<lparr>c_event := BPF_NAMEI_EXT_LOOKUP\<rparr>, m)"

subsection \<open>rq3\_fault\_injection\<close>

definition RQ3_FAULT_PASS :: u32 where "RQ3_FAULT_PASS = 0"
definition RQ3_FAULT_REDIRECT_LEN_ZERO :: u32 where "RQ3_FAULT_REDIRECT_LEN_ZERO = 1"
definition RQ3_FAULT_REDIRECT_LEN_65 :: u32 where "RQ3_FAULT_REDIRECT_LEN_65 = 2"
definition RQ3_FAULT_REDIRECT_DOT :: u32 where "RQ3_FAULT_REDIRECT_DOT = 3"
definition RQ3_FAULT_REDIRECT_DOT_DOT :: u32 where "RQ3_FAULT_REDIRECT_DOT_DOT = 4"
definition RQ3_FAULT_REDIRECT_SLASH :: u32 where "RQ3_FAULT_REDIRECT_SLASH = 5"
definition RQ3_FAULT_REDIRECT_EMBEDDED_NUL :: u32 where "RQ3_FAULT_REDIRECT_EMBEDDED_NUL = 6"
definition RQ3_FAULT_TARGET_ZERO :: u32 where "RQ3_FAULT_TARGET_ZERO = 7"
definition RQ3_FAULT_TARGET_UNREGISTERED :: u32 where "RQ3_FAULT_TARGET_UNREGISTERED = 8"
definition RQ3_FAULT_SELECT_READDIR :: u32 where "RQ3_FAULT_SELECT_READDIR = 9"
definition RQ3_FAULT_SELECT_CREATE :: u32 where "RQ3_FAULT_SELECT_CREATE = 10"
definition RQ3_FAULT_SELECT_FINAL_OPEN :: u32 where "RQ3_FAULT_SELECT_FINAL_OPEN = 11"
definition RQ3_FAULT_REDIRECT_CREATE :: u32 where "RQ3_FAULT_REDIRECT_CREATE = 12"

lemmas rq3_modes [simp] =
  RQ3_FAULT_PASS_def RQ3_FAULT_REDIRECT_LEN_ZERO_def RQ3_FAULT_REDIRECT_LEN_65_def
  RQ3_FAULT_REDIRECT_DOT_def RQ3_FAULT_REDIRECT_DOT_DOT_def RQ3_FAULT_REDIRECT_SLASH_def
  RQ3_FAULT_REDIRECT_EMBEDDED_NUL_def RQ3_FAULT_TARGET_ZERO_def
  RQ3_FAULT_TARGET_UNREGISTERED_def RQ3_FAULT_SELECT_READDIR_def RQ3_FAULT_SELECT_CREATE_def
  RQ3_FAULT_SELECT_FINAL_OPEN_def RQ3_FAULT_REDIRECT_CREATE_def

definition RQ3_UNREGISTERED_TARGET_ID :: u32 where
  "RQ3_UNREGISTERED_TARGET_ID = 0xffffffff"

text \<open>\<open>rq3_fault_mode\<close> is an array map with one \<open>__u32\<close> value.\<close>

record rq3_maps =
  rq3_fault_mode :: "u32 list"

definition emit_redirect_fault :: "ctx \<Rightarrow> u32 \<Rightarrow> u32 \<times> ctx" where
  "emit_redirect_fault c mode =
     (if mode = RQ3_FAULT_REDIRECT_LEN_ZERO
        then (BPF_NAMEI_EXT_REDIRECT, c\<lparr>c_redirect_name_len := 0\<rparr>)
      else if mode = RQ3_FAULT_REDIRECT_LEN_65
        then (BPF_NAMEI_EXT_REDIRECT,
              c\<lparr>c_redirect_name_len := of_nat BPF_NAMEI_EXT_NAME_MAX + 1,
                c_redirect_name := (c_redirect_name c)[0 := CHR ''x'']\<rparr>)
      else if mode = RQ3_FAULT_REDIRECT_DOT
        then (BPF_NAMEI_EXT_REDIRECT,
              c\<lparr>c_redirect_name_len := 1,
                c_redirect_name := (c_redirect_name c)[0 := CHR ''.'']\<rparr>)
      else if mode = RQ3_FAULT_REDIRECT_DOT_DOT
        then (BPF_NAMEI_EXT_REDIRECT,
              c\<lparr>c_redirect_name_len := 2,
                c_redirect_name := (c_redirect_name c)[0 := CHR ''.'', 1 := CHR ''.'']\<rparr>)
      else if mode = RQ3_FAULT_REDIRECT_SLASH
        then (BPF_NAMEI_EXT_REDIRECT,
              c\<lparr>c_redirect_name_len := 3,
                c_redirect_name := (c_redirect_name c)
                  [0 := CHR ''a'', 1 := CHR ''/'', 2 := CHR ''b'']\<rparr>)
      else if mode = RQ3_FAULT_REDIRECT_EMBEDDED_NUL
        then (BPF_NAMEI_EXT_REDIRECT,
              c\<lparr>c_redirect_name_len := 3,
                c_redirect_name := (c_redirect_name c)
                  [0 := CHR ''a'', 1 := NUL, 2 := CHR ''b'']\<rparr>)
      else (BPF_NAMEI_EXT_PASS, c))"

definition rq3_decide :: "ctx \<Rightarrow> u32 \<Rightarrow> u32 \<times> ctx" where
  "rq3_decide c mode =
     (if mode = RQ3_FAULT_PASS then (BPF_NAMEI_EXT_PASS, c)
      else if mode = RQ3_FAULT_SELECT_READDIR then
        (if c_event c = BPF_NAMEI_EXT_READDIR then (BPF_NAMEI_EXT_SELECT_TARGET, c)
         else (BPF_NAMEI_EXT_PASS, c))
      else if mode \<ge> RQ3_FAULT_REDIRECT_LEN_ZERO \<and> mode \<le> RQ3_FAULT_REDIRECT_EMBEDDED_NUL then
        (if \<not> namei_ext_is c ''rq3_redirect'' then (BPF_NAMEI_EXT_PASS, c)
         else emit_redirect_fault c mode)
      else if c_event c \<noteq> BPF_NAMEI_EXT_LOOKUP then (BPF_NAMEI_EXT_PASS, c)
      else if mode = RQ3_FAULT_TARGET_ZERO \<and> namei_ext_is c ''rq3_target''
        then (BPF_NAMEI_EXT_SELECT_TARGET, c\<lparr>c_target_id := 0\<rparr>)
      else if mode = RQ3_FAULT_TARGET_UNREGISTERED \<and> namei_ext_is c ''rq3_target''
        then (BPF_NAMEI_EXT_SELECT_TARGET, c\<lparr>c_target_id := RQ3_UNREGISTERED_TARGET_ID\<rparr>)
      else if mode = RQ3_FAULT_SELECT_CREATE \<and> namei_ext_is c ''rq3_select_create''
        then (BPF_NAMEI_EXT_SELECT_TARGET, c\<lparr>c_target_id := 1\<rparr>)
      else if mode = RQ3_FAULT_SELECT_FINAL_OPEN \<and> namei_ext_is c ''rq3_select_open''
        then (BPF_NAMEI_EXT_SELECT_TARGET, c\<lparr>c_target_id := 1\<rparr>)
      else if mode = RQ3_FAULT_REDIRECT_CREATE \<and> namei_ext_is c ''rq3_redirect_create''
        then (BPF_NAMEI_EXT_REDIRECT, namei_ext_redirect_literal c ''redirected_create'')
      else (BPF_NAMEI_EXT_PASS, c))"

definition rq3_fault_injection_policy :: "rq3_maps policy" where
  "rq3_fault_injection_policy c m =
     (case rq3_fault_mode m of
        [] \<Rightarrow> (BPF_NAMEI_EXT_PASS, c, m)
      | mode # _ \<Rightarrow> (let (action, c') = rq3_decide c mode in (action, c', m)))"

lemma rq3_redirect_fault_invalid:
  assumes "ctx_wf c" "emit_redirect_fault c mode = (BPF_NAMEI_EXT_REDIRECT, c')"
  shows "\<not> namei_ext_redirect_valid c'"
  using assms
  by (auto simp: emit_redirect_fault_def namei_ext_redirect_valid_def ctx_wf_def
      scan_loop_numeral scan_loop_Suc split: if_splits)

subsection \<open>Every program but the two refused ones meets the contract\<close>

interpretation pass_only: namei_policy pass_only_policy
  by unfold_locales (simp_all add: pass_only_policy_def)

interpretation fxmark_pass: namei_policy fxmark_pass_policy
  by unfold_locales (simp_all add: fxmark_pass_policy_def)

interpretation fxmark_select: namei_policy fxmark_select_policy
  by unfold_locales (simp_all add: fxmark_select_policy_def ctx_wf_def)

interpretation hide_secret: namei_policy hide_secret_policy
  by unfold_locales (simp_all add: hide_secret_policy_def)

interpretation select_portal: namei_policy select_portal_policy
  by unfold_locales (simp_all add: select_portal_policy_def ctx_wf_def)

interpretation table_redirect: namei_policy table_redirect_policy
proof unfold_locales
  fix c m
  have "fst (table_redirect_policy c m) \<le> 2"
    using apply_rule_range [of c "m (namei_ext_build_component_key c zero_component_key)"]
    by (simp add: table_redirect_policy_def split_beta Let_def)
  then show "fst (table_redirect_policy c m) \<le> BPF_NAMEI_EXT_SELECT_TARGET"
    by (simp add: word_le_nat_alt)
qed (simp_all add: table_redirect_policy_def split_beta Let_def)

interpretation redirect_alias: namei_policy redirect_alias_policy
  by unfold_locales
     (simp_all add: redirect_alias_policy_def redirect_to_tool_def redirect_to_tool_real_def
       ctx_wf_def)

lemma rq3_decide_contract:
  "fst (rq3_decide c mode) \<le> BPF_NAMEI_EXT_SELECT_TARGET"
  "same_input c (snd (rq3_decide c mode))"
  "ctx_wf c \<Longrightarrow> ctx_wf (snd (rq3_decide c mode))"
  by (simp_all add: rq3_decide_def emit_redirect_fault_def,
      simp_all add: ctx_wf_def namei_ext_redirect_literal_def namei_ext_set_redirect_def)

interpretation rq3_fault_injection: namei_policy rq3_fault_injection_policy
  by unfold_locales
     (use rq3_decide_contract in
       \<open>simp_all add: rq3_fault_injection_policy_def split_beta split: list.split\<close>)

end
