(* ===== verification/Dispatch.thy ===== *)
theory Dispatch
  imports Reach Policies_Basic
begin

text \<open>
  Running the policy for one component: the dispatch over the effective array
  (\<open>kernel/bpf/cgroup.c\<close>), the lookup hook with the validation of every action, and the
  resolution of a selected target (\<open>fs/namei_ext.c\<close>).

  A program is named by a number; \<open>run p\<close> is what \<open>bpf_prog_run\<close> does for program \<open>p\<close>, on
  the maps of all programs. \<open>fnh\<close> is \<open>full_name_hash\<close>. The lookup flags of
  \<open>linux/namei.h\<close> are given by their masks.
\<close>

subsection \<open>Dispatch\<close>

type_synonym 'm runner = "u64 \<Rightarrow> 'm policy"

fun run_items :: "'m runner \<Rightarrow> u64 option list \<Rightarrow> ctx \<Rightarrow> 'm \<Rightarrow> (errno + u32) \<times> ctx \<times> 'm" where
  "run_items run [] c m = (Inr BPF_NAMEI_EXT_PASS, c, m)"
| "run_items run (None # items) c m = (Inr BPF_NAMEI_EXT_PASS, c, m)"
| "run_items run (Some prog # items) c m =
     (let (func_ret, c, m) = run prog c m
      in if func_ret > BPF_NAMEI_EXT_SELECT_TARGET then (Inl EINVAL, c, m)
         else if func_ret \<noteq> BPF_NAMEI_EXT_PASS then (Inr func_ret, c, m)
         else run_items run items c m)"

definition cgroup_bpf_run_namei_ext_locked ::
  "'m runner \<Rightarrow> u64 \<Rightarrow> ctx \<Rightarrow> kstate \<Rightarrow> 'm \<Rightarrow> (errno + u32) \<times> ctx \<times> 'm" where
  "cgroup_bpf_run_namei_ext_locked run cgrp c st m =
     (let c = c\<lparr>c_cgroup_id := cgrp\<rparr>;
          array = cb_effective (ks_cgroups st cgrp)
      in if array = [] then (Inr BPF_NAMEI_EXT_PASS, c, m) else run_items run array c m)"

definition cgroup_bpf_run_namei_ext ::
  "'m runner \<Rightarrow> u64 \<Rightarrow> path \<Rightarrow> ctx \<Rightarrow> kstate \<Rightarrow> 'm \<Rightarrow> (errno + u32) \<times> ctx \<times> 'm" where
  "cgroup_bpf_run_namei_ext run current parent c st m =
     (case cb_owner (ks_cgroups st current) of
        Some owner \<Rightarrow>
          if namei_ext_policy_parent_matches owner parent st
          then cgroup_bpf_run_namei_ext_locked run current c st m
          else (Inr BPF_NAMEI_EXT_PASS, c, m)
      | None \<Rightarrow> (Inr BPF_NAMEI_EXT_PASS, c, m))"

definition cgroup_bpf_run_namei_ext_cgroup ::
  "'m runner \<Rightarrow> u64 \<Rightarrow> ctx \<Rightarrow> kstate \<Rightarrow> 'm \<Rightarrow> (errno + u32) \<times> ctx \<times> 'm" where
  "cgroup_bpf_run_namei_ext_cgroup run cgrp c st m = cgroup_bpf_run_namei_ext_locked run cgrp c st m"

text \<open>The cgroup to enumerate for, with both references taken, or nothing.\<close>

definition cgroup_bpf_get_namei_ext_cgroup ::
  "u64 \<Rightarrow> bool \<Rightarrow> path \<Rightarrow> kstate \<Rightarrow> u64 option \<times> kstate" where
  "cgroup_bpf_get_namei_ext_cgroup current tryget parent st =
     (case cb_owner (ks_cgroups st current) of
        None \<Rightarrow> (None, st)
      | Some owner \<Rightarrow>
          if \<not> namei_ext_policy_parent_matches owner parent st then (None, st)
          else if cb_effective (ks_cgroups st current) = [] then (None, st)
          else if \<not> cb_ref_live (ks_cgroups st current) then (None, st)
          else let st = cgroup_bpf_get current st in
            if \<not> tryget then (None, cgroup_bpf_put current st)
            else (Some current, cgroup_get current st))"

subsection \<open>The lookup hook\<close>

record namei_ext_redirect =
  rd_active :: bool
  rd_target_pending :: bool
  rd_target_active :: bool
  rd_target_borrowed :: bool
  rd_len :: u32
  rd_hash :: u32
  rd_target_id :: u32
  rd_target_cgroup_id :: u64
  rd_name :: bytes
  rd_target :: path

record lookup_masks =
  lm_create :: u32
  lm_open :: u32
  lm_directory :: u32
  lm_rcu :: u32
  lm_is_scoped :: u32
  lm_no_xdev :: u32

text \<open>
  The copy writes \<open>len\<close> bytes of the name array and leaves the rest of it as it was.
\<close>

definition namei_ext_fill_redirect ::
  "(u64 \<Rightarrow> bytes \<Rightarrow> u32 \<Rightarrow> u32) \<Rightarrow> path \<Rightarrow> ctx \<Rightarrow> namei_ext_redirect \<Rightarrow> namei_ext_redirect" where
  "namei_ext_fill_redirect fnh parent c rd =
     (let len = c_redirect_name_len c;
          name = take (unat len) (c_redirect_name c) @ drop (unat len) (rd_name rd)
      in rd\<lparr>rd_active := True, rd_len := len, rd_name := name,
            rd_hash := fnh (p_dentry parent) name len\<rparr>)"

definition namei_ext_lookup ::
  "'m runner \<Rightarrow> (u64 \<Rightarrow> inode option) \<Rightarrow> (u64 \<Rightarrow> bytes \<Rightarrow> u32 \<Rightarrow> u32) \<Rightarrow> lookup_masks \<Rightarrow> u64 \<Rightarrow>
     path \<Rightarrow> inode option \<Rightarrow> qstr \<Rightarrow> u32 \<Rightarrow> u32 \<Rightarrow> namei_ext_redirect \<Rightarrow> kstate \<Rightarrow> 'm \<Rightarrow>
     errno option \<times> namei_ext_redirect \<times> 'm" where
  "namei_ext_lookup run backing fnh lm current parent parent_inode name event lookup_flags rd st m =
     (let rd = rd\<lparr>rd_active := False, rd_target_pending := False, rd_target_active := False,
                  rd_target_borrowed := False\<rparr>;
          c = namei_ext_init_ctx backing (Some parent) parent_inode event lookup_flags name;
          (action, c, m) = cgroup_bpf_run_namei_ext run current parent c st m
      in case action of
           Inl e \<Rightarrow> (Some e, rd, m)
         | Inr a \<Rightarrow>
             if a = BPF_NAMEI_EXT_PASS then (None, rd, m)
             else if a = BPF_NAMEI_EXT_REDIRECT then
               (if has_flag lookup_flags (lm_create lm) then (Some EOPNOTSUPP, rd, m)
                else if \<not> namei_ext_redirect_valid c then (Some EINVAL, rd, m)
                else (None, namei_ext_fill_redirect fnh parent c rd, m))
             else if a = BPF_NAMEI_EXT_HIDE then (Some ENOENT, rd, m)
             else if a = BPF_NAMEI_EXT_SELECT_TARGET then
               (if has_flag lookup_flags (lm_create lm) then (Some EOPNOTSUPP, rd, m)
                else if has_flag lookup_flags (lm_open lm) \<and>
                        \<not> has_flag lookup_flags (lm_directory lm) then (Some EOPNOTSUPP, rd, m)
                else (None, rd\<lparr>rd_target_cgroup_id := c_cgroup_id c, rd_target_id := c_target_id c,
                               rd_target_pending := True\<rparr>, m))
             else (Some EINVAL, rd, m))"

definition namei_ext_resolve_target ::
  "hashfn \<Rightarrow> namei_ext_redirect \<Rightarrow> bool \<Rightarrow> kstate \<Rightarrow> errno option \<times> namei_ext_redirect \<times> kstate" where
  "namei_ext_resolve_target hb rd rcu_walk st =
     (if \<not> rd_target_pending rd then (None, rd, st)
      else if rd_target_id rd = 0 then (Some EINVAL, rd, st)
      else if rcu_walk then
        (case namei_ext_find_target_rcu hb (rd_target_cgroup_id rd) (rd_target_id rd) st of
           None \<Rightarrow> (Some ENOENT, rd, st)
         | Some target \<Rightarrow>
             (None, rd\<lparr>rd_target := t_path target, rd_target_borrowed := True,
                       rd_target_pending := False, rd_target_active := True\<rparr>, st))
      else
        (case namei_ext_get_target hb (rd_target_cgroup_id rd) (rd_target_id rd) st of
           (Inl e, st) \<Rightarrow> (Some e, rd, st)
         | (Inr p, st) \<Rightarrow>
             (None, rd\<lparr>rd_target := p, rd_target_pending := False, rd_target_active := True\<rparr>, st)))"

subsection \<open>The first program that does not pass decides\<close>

definition programs_of :: "u64 option list \<Rightarrow> u64 list" where
  "programs_of items = map the (takeWhile (\<lambda>x. x \<noteq> None) items)"

lemma programs_of_Some [simp]: "programs_of (map Some ps) = ps"
  by (induction ps) (simp_all add: programs_of_def)

lemma run_items_programs:
  "run_items run items c m = run_items run (map Some (programs_of items)) c m"
proof (induction run items c m rule: run_items.induct)
  case (3 run prog items c m)
  then show ?case by (auto simp: programs_of_def split: prod.split)
qed (simp_all add: programs_of_def)

text \<open>What every loaded program guarantees keeps holding after the dispatch.\<close>

lemma run_items_contract:
  assumes pol: "\<And>p. namei_policy (run p)"
  shows "same_input c (fst (snd (run_items run items c m))) \<and>
         (ctx_wf c \<longrightarrow> ctx_wf (fst (snd (run_items run items c m)))) \<and>
         (\<exists>a. fst (run_items run items c m) = Inr a \<and> a \<le> BPF_NAMEI_EXT_SELECT_TARGET)"
proof (induction items arbitrary: c m)
  case Nil
  then show ?case by simp
next
  case (Cons x items)
  show ?case
  proof (cases x)
    case None
    then show ?thesis by simp
  next
    case (Some p)
    obtain r c' m' where run: "run p c m = (r, c', m')" by (metis prod_cases3)
    have r: "r \<le> BPF_NAMEI_EXT_SELECT_TARGET" "same_input c c'" "ctx_wf c \<Longrightarrow> ctx_wf c'"
      using namei_policy.action_range [OF pol [of p], of c m] namei_policy.input_frame [OF pol [of p], of c m]
        namei_policy.keeps_wf [OF pol [of p], of c m] run by simp_all
    show ?thesis
      using Some run r Cons [of c' m'] same_input_trans [OF r(2)]
      by (auto simp: not_less simp del: abi_codes)
  qed
qed

lemma run_items_wf:
  assumes "\<And>p c m. ctx_wf c \<Longrightarrow> ctx_wf (fst (snd (run p c m)))" "ctx_wf c"
  shows "ctx_wf (fst (snd (run_items run items c m)))"
  using assms(2)
proof (induction items arbitrary: c m)
  case Nil
  then show ?case by simp
next
  case (Cons x items)
  show ?case
  proof (cases x)
    case None
    then show ?thesis using Cons.prems by simp
  next
    case (Some p)
    obtain r c' m' where run: "run p c m = (r, c', m')" by (metis prod_cases3)
    then have "ctx_wf c'" using assms(1) [OF Cons.prems, of p m] by simp
    then show ?thesis using Cons.IH [of c' m'] Some run by simp
  qed
qed

lemma ctx_wf_cgroup [simp]: "ctx_wf (c\<lparr>c_cgroup_id := g\<rparr>) = ctx_wf c"
  by (simp add: ctx_wf_def)

lemma dispatch_wf:
  assumes "\<And>p c m. ctx_wf c \<Longrightarrow> ctx_wf (fst (snd (run p c m)))" "ctx_wf c"
  shows "ctx_wf (fst (snd (cgroup_bpf_run_namei_ext run current parent c st m)))"
  using assms(2) run_items_wf [of run "c\<lparr>c_cgroup_id := current\<rparr>" "cb_effective (ks_cgroups st current)" m] assms(1)
  by (simp add: cgroup_bpf_run_namei_ext_def cgroup_bpf_run_namei_ext_locked_def Let_def split: option.split)

text \<open>The one program a cgroup is bound to under a parent in scope.\<close>

definition bound_to :: "kstate \<Rightarrow> u64 \<Rightarrow> path \<Rightarrow> u64 \<Rightarrow> bool" where
  "bound_to st current parent p \<longleftrightarrow>
     (case cb_owner (ks_cgroups st current) of
        Some owner \<Rightarrow> namei_ext_policy_parent_matches owner parent st
      | None \<Rightarrow> False) \<and>
     cb_effective (ks_cgroups st current) = [Some p]"

lemma dispatch_bound:
  assumes "bound_to st current parent p"
  shows "cgroup_bpf_run_namei_ext run current parent c st m =
           (let (r, c', m') = run p (c\<lparr>c_cgroup_id := current\<rparr>) m
            in (if r > BPF_NAMEI_EXT_SELECT_TARGET then Inl EINVAL else Inr r, c', m'))"
proof -
  obtain r c' m' where run: "run p (c\<lparr>c_cgroup_id := current\<rparr>) m = (r, c', m')"
    by (metis prod_cases3)
  show ?thesis
    using assms run
    by (auto simp: bound_to_def cgroup_bpf_run_namei_ext_def cgroup_bpf_run_namei_ext_locked_def Let_def
        split: option.splits)
qed

subsection \<open>Nothing unchecked leaves the hook\<close>

text \<open>
  What a successful lookup may hand to the path walk: nothing, one replacement component
  in the same directory, or a pending target; the last two never under \<open>LOOKUP_CREATE\<close>.
\<close>

definition redirect_ok :: "lookup_masks \<Rightarrow> u32 \<Rightarrow> namei_ext_redirect \<Rightarrow> bool" where
  "redirect_ok lm flags rd \<longleftrightarrow>
     \<not> rd_target_active rd \<and> \<not> rd_target_borrowed rd \<and> \<not> (rd_active rd \<and> rd_target_pending rd) \<and>
     (rd_active rd \<or> rd_target_pending rd \<longrightarrow> \<not> has_flag flags (lm_create lm)) \<and>
     (rd_active rd \<longrightarrow> unat (rd_len rd) \<le> 64 \<and> single_component (take (unat (rd_len rd)) (rd_name rd))) \<and>
     (rd_target_pending rd \<and> has_flag flags (lm_open lm) \<longrightarrow> has_flag flags (lm_directory lm))"

lemma fill_redirect_ok:
  assumes "ctx_wf c" "namei_ext_redirect_valid c"
  shows "unat (rd_len (namei_ext_fill_redirect fnh parent c rd)) \<le> 64"
    "take (unat (rd_len (namei_ext_fill_redirect fnh parent c rd)))
       (rd_name (namei_ext_fill_redirect fnh parent c rd)) = redirect_text c"
    "single_component (redirect_text c)"
  using assms redirect_valid_iff [OF assms(1)]
  by (simp_all add: namei_ext_fill_redirect_def Let_def redirect_text_def ctx_wf_def)

lemma lookup_redirect_ok:
  assumes "\<And>p c m. ctx_wf c \<Longrightarrow> ctx_wf (fst (snd (run p c m)))" "qstr_wf name"
    and "namei_ext_lookup run backing fnh lm current parent pino name ev flags rd st m = (None, rd', m')"
  shows "redirect_ok lm flags rd'"
proof -
  let ?c = "namei_ext_init_ctx backing (Some parent) pino ev flags name"
  obtain a c' m'' where d: "cgroup_bpf_run_namei_ext run current parent ?c st m = (a, c', m'')"
    by (metis prod_cases3)
  have "ctx_wf (fst (snd (cgroup_bpf_run_namei_ext run current parent ?c st m)))"
    by (rule dispatch_wf [OF assms(1) namei_ext_init_ctx_wf [OF assms(2)]])
  then have wf: "ctx_wf c'" by (simp add: d)
  show ?thesis
    using assms(3) d fill_redirect_ok [OF wf]
    by (auto simp: namei_ext_lookup_def redirect_ok_def Let_def split: sum.splits if_splits)
       (auto simp: namei_ext_fill_redirect_def Let_def)
qed

text \<open>A parent the prefilter does not know is left to the plain walk by the policy too.\<close>

lemma dispatch_unmanaged:
  assumes "kernel_inv hb st" "live st current" "\<not> namei_ext_parent_maybe_managed hb parent st"
  shows "cgroup_bpf_run_namei_ext run current parent c st m = (Inr BPF_NAMEI_EXT_PASS, c, m)"
  using assms reachable_no_false_negative [OF assms(1,2), of _ parent]
  by (auto simp: cgroup_bpf_run_namei_ext_def split: option.split)

lemma lookup_unmanaged:
  assumes "kernel_inv hb st" "live st current" "\<not> namei_ext_parent_maybe_managed hb parent st"
  shows "namei_ext_lookup run backing fnh lm current parent pino name ev flags rd st m =
           (None, rd\<lparr>rd_active := False, rd_target_pending := False, rd_target_active := False,
                     rd_target_borrowed := False\<rparr>, m)"
  by (simp add: namei_ext_lookup_def dispatch_unmanaged [OF assms])

subsection \<open>Resolution of a target\<close>

lemma resolve_target_spec:
  assumes "rd_target_pending rd" "rd_target_id rd \<noteq> 0"
  shows "namei_ext_resolve_target hb rd rcu st =
           (case target_path hb st (rd_target_cgroup_id rd) (rd_target_id rd) of
              None \<Rightarrow> (Some ENOENT, rd, st)
            | Some p \<Rightarrow>
                (None, rd\<lparr>rd_target := p, rd_target_borrowed := (rcu \<or> rd_target_borrowed rd),
                          rd_target_pending := False, rd_target_active := True\<rparr>,
                 if rcu then st else path_get p st))"
  using assms
  by (auto simp: namei_ext_resolve_target_def namei_ext_get_target_def target_path_def
      split: option.split intro!: namei_ext_redirect.equality)

subsection \<open>Every injected fault is contained\<close>

text \<open>
  The fault-injection program of \<open>bpf/policies/rq3_fault_injection.bpf.c\<close> in each mode:
  what the hook and the resolution answer to the component the fault is aimed at.
\<close>

definition rq3_lookup ::
  "(u64 \<Rightarrow> inode option) \<Rightarrow> (u64 \<Rightarrow> bytes \<Rightarrow> u32 \<Rightarrow> u32) \<Rightarrow> lookup_masks \<Rightarrow> u64 \<Rightarrow> path \<Rightarrow> inode option \<Rightarrow>
     bytes \<Rightarrow> u32 \<Rightarrow> namei_ext_redirect \<Rightarrow> kstate \<Rightarrow> u32 \<Rightarrow> errno option \<times> namei_ext_redirect" where
  "rq3_lookup backing fnh lm current parent pino name flags rd st mode =
     (let (e, rd, m) = namei_ext_lookup (\<lambda>_. rq3_fault_injection_policy) backing fnh lm current parent
            pino \<lparr>q_name = name, q_len = of_nat (length name), q_hash = 0\<rparr> BPF_NAMEI_EXT_LOOKUP flags rd st
            \<lparr>rq3_fault_mode = [mode]\<rparr>
      in (e, rd))"

definition cleared :: "namei_ext_redirect \<Rightarrow> namei_ext_redirect" where
  "cleared rd = rd\<lparr>rd_active := False, rd_target_pending := False, rd_target_active := False,
                   rd_target_borrowed := False\<rparr>"

abbreviation literal_qstr :: "bytes \<Rightarrow> qstr" where
  "literal_qstr s \<equiv> \<lparr>q_name = s, q_len = of_nat (length s), q_hash = 0\<rparr>"

lemma literal_ctx_named:
  assumes "length s \<le> 64"
  shows "ctx_named ((namei_ext_init_ctx b p pi ev fl (literal_qstr s))\<lparr>c_cgroup_id := g\<rparr>) s"
  using init_ctx_named [of "literal_qstr s" b p pi ev fl] assms
  by (simp add: qstr_wf_def qstr_text_def unat_of_nat_u32)

lemma rq3_lookup_bound:
  assumes "bound_to st current parent p"
    and "rq3_decide ((namei_ext_init_ctx backing (Some parent) pino BPF_NAMEI_EXT_LOOKUP flags
            (literal_qstr name))\<lparr>c_cgroup_id := current\<rparr>) mode = (a, c')"
    and "a \<le> BPF_NAMEI_EXT_SELECT_TARGET"
  shows "rq3_lookup backing fnh lm current parent pino name flags rd st mode =
     (if a = BPF_NAMEI_EXT_PASS then (None, cleared rd)
      else if a = BPF_NAMEI_EXT_REDIRECT then
        (if has_flag flags (lm_create lm) then (Some EOPNOTSUPP, cleared rd)
         else if \<not> namei_ext_redirect_valid c' then (Some EINVAL, cleared rd)
         else (None, namei_ext_fill_redirect fnh parent c' (cleared rd)))
      else if a = BPF_NAMEI_EXT_HIDE then (Some ENOENT, cleared rd)
      else if has_flag flags (lm_create lm) then (Some EOPNOTSUPP, cleared rd)
      else if has_flag flags (lm_open lm) \<and> \<not> has_flag flags (lm_directory lm)
        then (Some EOPNOTSUPP, cleared rd)
      else (None, (cleared rd)\<lparr>rd_target_cgroup_id := c_cgroup_id c', rd_target_id := c_target_id c',
                               rd_target_pending := True\<rparr>))"
proof -
  have "a = 0 \<or> a = 1 \<or> a = 2 \<or> a = 3"
  proof -
    have "unat a \<le> 3" using assms(3) by (simp add: word_le_nat_alt)
    then have "unat a = 0 \<or> unat a = 1 \<or> unat a = 2 \<or> unat a = 3" by auto
    then show ?thesis by (simp add: word_unat_eq_iff)
  qed
  then show ?thesis
    using assms(2,3)
    by (auto simp: rq3_lookup_def namei_ext_lookup_def dispatch_bound [OF assms(1)]
        rq3_fault_injection_policy_def cleared_def Let_def)
qed

lemma rq3_redirect_modes:
  assumes "RQ3_FAULT_REDIRECT_LEN_ZERO \<le> mode" "mode \<le> RQ3_FAULT_REDIRECT_EMBEDDED_NUL"
  obtains "mode = 1" | "mode = 2" | "mode = 3" | "mode = 4" | "mode = 5" | "mode = 6"
proof -
  have "1 \<le> unat mode" "unat mode \<le> 6"
    using assms by (simp_all add: word_le_nat_alt)
  then have "unat mode = 1 \<or> unat mode = 2 \<or> unat mode = 3 \<or> unat mode = 4 \<or> unat mode = 5 \<or>
      unat mode = 6" by linarith
  then show thesis using that by (auto simp: word_unat_eq_iff)
qed

lemma rq3_redirect_contained:
  assumes "bound_to st current parent p"
    and "RQ3_FAULT_REDIRECT_LEN_ZERO \<le> mode" "mode \<le> RQ3_FAULT_REDIRECT_EMBEDDED_NUL"
  shows "rq3_lookup backing fnh lm current parent pino ''rq3_redirect'' flags rd st mode =
           (Some (if has_flag flags (lm_create lm) then EOPNOTSUPP else EINVAL), cleared rd)"
proof -
  let ?c = "(namei_ext_init_ctx backing (Some parent) pino BPF_NAMEI_EXT_LOOKUP flags
            (literal_qstr ''rq3_redirect''))\<lparr>c_cgroup_id := current\<rparr>"
  have nm: "ctx_named ?c ''rq3_redirect''" by (rule literal_ctx_named) simp
  obtain a c' where e: "emit_redirect_fault ?c mode = (a, c')" by fastforce
  have a: "a = BPF_NAMEI_EXT_REDIRECT"
    using assms(2,3) e by (cases rule: rq3_redirect_modes) (auto simp: emit_redirect_fault_def)
  have "\<not> namei_ext_redirect_valid c'"
    by (rule rq3_redirect_fault_invalid [of ?c mode]) (use ctx_namedD(1) [OF nm] e a in auto)
  moreover have "rq3_decide ?c mode = (a, c')"
    using assms(2,3) e nm
    by (cases rule: rq3_redirect_modes) (auto simp: rq3_decide_def namei_ext_is_named word_le_nat_alt)
  ultimately show ?thesis
    using rq3_lookup_bound [OF assms(1), of backing pino flags "''rq3_redirect''" mode a c'] a
    by simp
qed

lemma rq3_select_contained:
  assumes "bound_to st current parent p"
  shows "\<not> has_flag flags (lm_create lm) \<Longrightarrow>
      (has_flag flags (lm_open lm) \<longrightarrow> has_flag flags (lm_directory lm)) \<Longrightarrow>
      rq3_lookup backing fnh lm current parent pino ''rq3_target'' flags rd st RQ3_FAULT_TARGET_ZERO =
        (None, (cleared rd)\<lparr>rd_target_cgroup_id := current, rd_target_id := 0, rd_target_pending := True\<rparr>)"
    and "\<not> has_flag flags (lm_create lm) \<Longrightarrow>
      (has_flag flags (lm_open lm) \<longrightarrow> has_flag flags (lm_directory lm)) \<Longrightarrow>
      rq3_lookup backing fnh lm current parent pino ''rq3_target'' flags rd st RQ3_FAULT_TARGET_UNREGISTERED =
        (None, (cleared rd)\<lparr>rd_target_cgroup_id := current, rd_target_id := RQ3_UNREGISTERED_TARGET_ID,
                            rd_target_pending := True\<rparr>)"
    and "has_flag flags (lm_create lm) \<Longrightarrow>
      rq3_lookup backing fnh lm current parent pino ''rq3_select_create'' flags rd st
        RQ3_FAULT_SELECT_CREATE = (Some EOPNOTSUPP, cleared rd)"
    and "has_flag flags (lm_open lm) \<Longrightarrow> \<not> has_flag flags (lm_directory lm) \<Longrightarrow>
      rq3_lookup backing fnh lm current parent pino ''rq3_select_open'' flags rd st
        RQ3_FAULT_SELECT_FINAL_OPEN = (Some EOPNOTSUPP, cleared rd)"
    and "has_flag flags (lm_create lm) \<Longrightarrow>
      rq3_lookup backing fnh lm current parent pino ''rq3_redirect_create'' flags rd st
        RQ3_FAULT_REDIRECT_CREATE = (Some EOPNOTSUPP, cleared rd)"
proof -
  let ?c = "\<lambda>s. (namei_ext_init_ctx backing (Some parent) pino BPF_NAMEI_EXT_LOOKUP flags
            (literal_qstr s))\<lparr>c_cgroup_id := current\<rparr>"
  have nm: "length s \<le> 64 \<Longrightarrow> ctx_named (?c s) s" for s by (rule literal_ctx_named)
  note nms = nm [of "''rq3_target''"] nm [of "''rq3_select_create''"] nm [of "''rq3_select_open''"]
    nm [of "''rq3_redirect_create''"]
  have d: "rq3_decide (?c ''rq3_target'') RQ3_FAULT_TARGET_ZERO =
      (BPF_NAMEI_EXT_SELECT_TARGET, (?c ''rq3_target'')\<lparr>c_target_id := 0\<rparr>)"
    "rq3_decide (?c ''rq3_target'') RQ3_FAULT_TARGET_UNREGISTERED =
      (BPF_NAMEI_EXT_SELECT_TARGET, (?c ''rq3_target'')\<lparr>c_target_id := RQ3_UNREGISTERED_TARGET_ID\<rparr>)"
    "rq3_decide (?c ''rq3_select_create'') RQ3_FAULT_SELECT_CREATE =
      (BPF_NAMEI_EXT_SELECT_TARGET, (?c ''rq3_select_create'')\<lparr>c_target_id := 1\<rparr>)"
    "rq3_decide (?c ''rq3_select_open'') RQ3_FAULT_SELECT_FINAL_OPEN =
      (BPF_NAMEI_EXT_SELECT_TARGET, (?c ''rq3_select_open'')\<lparr>c_target_id := 1\<rparr>)"
    "rq3_decide (?c ''rq3_redirect_create'') RQ3_FAULT_REDIRECT_CREATE =
      (BPF_NAMEI_EXT_REDIRECT, namei_ext_redirect_literal (?c ''rq3_redirect_create'') ''redirected_create'')"
    using nms by (simp_all add: rq3_decide_def namei_ext_is_named)
  note run = d [THEN rq3_lookup_bound [OF assms]]
  show "\<not> has_flag flags (lm_create lm) \<Longrightarrow>
      (has_flag flags (lm_open lm) \<longrightarrow> has_flag flags (lm_directory lm)) \<Longrightarrow>
      rq3_lookup backing fnh lm current parent pino ''rq3_target'' flags rd st RQ3_FAULT_TARGET_ZERO =
        (None, (cleared rd)\<lparr>rd_target_cgroup_id := current, rd_target_id := 0, rd_target_pending := True\<rparr>)"
    by (subst run(1)) auto
  show "\<not> has_flag flags (lm_create lm) \<Longrightarrow>
      (has_flag flags (lm_open lm) \<longrightarrow> has_flag flags (lm_directory lm)) \<Longrightarrow>
      rq3_lookup backing fnh lm current parent pino ''rq3_target'' flags rd st RQ3_FAULT_TARGET_UNREGISTERED =
        (None, (cleared rd)\<lparr>rd_target_cgroup_id := current, rd_target_id := RQ3_UNREGISTERED_TARGET_ID,
                            rd_target_pending := True\<rparr>)"
    by (subst run(2)) auto
  show "has_flag flags (lm_create lm) \<Longrightarrow>
      rq3_lookup backing fnh lm current parent pino ''rq3_select_create'' flags rd st
        RQ3_FAULT_SELECT_CREATE = (Some EOPNOTSUPP, cleared rd)"
    by (subst run(3)) auto
  show "has_flag flags (lm_open lm) \<Longrightarrow> \<not> has_flag flags (lm_directory lm) \<Longrightarrow>
      rq3_lookup backing fnh lm current parent pino ''rq3_select_open'' flags rd st
        RQ3_FAULT_SELECT_FINAL_OPEN = (Some EOPNOTSUPP, cleared rd)"
    by (subst run(4)) auto
  show "has_flag flags (lm_create lm) \<Longrightarrow>
      rq3_lookup backing fnh lm current parent pino ''rq3_redirect_create'' flags rd st
        RQ3_FAULT_REDIRECT_CREATE = (Some EOPNOTSUPP, cleared rd)"
    by (subst run(5)) auto
qed

end
