(* ===== verification/Walk.thy ===== *)
theory Walk
  imports Dispatch
begin

text \<open>
  The path walk of \<open>fs/namei.c\<close> at one component: the redirected and the selected
  component, \<open>walk_component\<close> and \<open>open_last_lookups\<close> with their plain counterparts. What
  the plain walk calls (dcache lookup, stepping into a dentry, symlink stack, leaving RCU
  mode) is the record \<open>vfs\<close>: the theorems hold for every behaviour of it that is not named
  as a hypothesis.
\<close>

subsection \<open>State and environment\<close>

datatype last_type = LAST_NORM | LAST_ROOT | LAST_DOT | LAST_DOTDOT

text \<open>
  The walk's own state. \<open>nd_stack\<close> holds the symbolic links being followed (the entries below
  \<open>nd_depth\<close>), in the embedded array until \<open>nd_stack_big\<close>. The bits of \<open>nd->state\<close> are
  separate fields; \<open>nd_dir\<close> is the mount and the inode whose owner, as the mount maps it, and mode
  \<open>dir_vfsuid\<close> and \<open>dir_mode\<close> record (\<open>None\<close> for a zero mode).
\<close>

record saved =
  sv_link :: path
  sv_seq :: nat

record nameidata =
  nd_path :: path
  nd_last :: qstr
  nd_root :: path
  nd_inode :: "inode option"
  nd_flags :: u32
  nd_root_preset :: bool
  nd_root_grabbed :: bool
  nd_jumped :: bool
  nd_seq :: nat
  nd_next_seq :: nat
  nd_m_seq :: nat
  nd_r_seq :: nat
  nd_last_type :: last_type
  nd_depth :: nat
  nd_total_link_count :: nat
  nd_stack :: "saved list"
  nd_stack_big :: bool
  nd_pathname :: bytes
  nd_root_seq :: nat
  nd_dfd :: int
  nd_dir :: "(u64 \<times> inode) option"

definition WALK_TRAILING :: u32 where "WALK_TRAILING = 1"

definition WALK_MORE :: u32 where "WALK_MORE = 2"

definition WALK_NOFOLLOW :: u32 where "WALK_NOFOLLOW = 4"

text \<open>
  The result of a walk step: done, an error, the body of a symbolic link to follow, or
  (\<open>Walk_retrying\<close>, never returned) still in the delegation retry loop of an open when the
  bound on its rounds is used up.
\<close>

datatype walk_res = Walk_done | Walk_err errno | Walk_link bytes | Walk_retrying

text \<open>
  What \<open>lookup_open\<close> ends with: an error (with a delegation to break first, or without), a
  dentry that is opened or created, or one that is only found; \<open>Open_retrying\<close> (never returned)
  when the bound on the rounds of its own loop is used up.
\<close>

datatype open_res = Open_err errno | Open_delegated errno | Open_opened u64 | Open_found u64 | Open_retrying

record vfs =
  vf_lookup_fast :: "nameidata \<Rightarrow> kstate \<Rightarrow> (errno + u64 option) \<times> nameidata \<times> kstate"
  vf_lookup_slow :: "qstr \<Rightarrow> u64 \<Rightarrow> u32 \<Rightarrow> kstate \<Rightarrow> (errno + u64) \<times> kstate"
  vf_put_link :: "nameidata \<Rightarrow> kstate \<Rightarrow> nameidata \<times> kstate"
  vf_step_into :: "nameidata \<Rightarrow> u32 \<Rightarrow> u64 \<Rightarrow> kstate \<Rightarrow> walk_res \<times> nameidata \<times> kstate"
  vf_try_to_unlazy :: "nameidata \<Rightarrow> kstate \<Rightarrow> bool \<times> nameidata \<times> kstate"
  vf_handle_dots :: "nameidata \<Rightarrow> last_type \<Rightarrow> kstate \<Rightarrow> walk_res \<times> nameidata \<times> kstate"
  vf_d_hash :: "u64 \<Rightarrow> qstr \<Rightarrow> errno option \<times> qstr"
  vf_op_hash :: "u64 \<Rightarrow> bool"
  vf_d_can_lookup :: "u64 \<Rightarrow> bool"
  vf_d_inode :: "u64 \<Rightarrow> inode option"
  vf_d_seq :: "u64 \<Rightarrow> nat"
  vf_mnt_want_write :: "u64 \<Rightarrow> kstate \<Rightarrow> bool \<times> kstate"
  vf_mnt_drop_write :: "u64 \<Rightarrow> kstate \<Rightarrow> kstate"
  vf_lookup_open :: "nameidata \<Rightarrow> u32 \<Rightarrow> bool \<Rightarrow> kstate \<Rightarrow> open_res \<times> nameidata \<times> kstate"
  vf_break_deleg_wait :: "kstate \<Rightarrow> errno option \<times> kstate"
  vf_d_positive :: "u64 \<Rightarrow> bool"
  vf_dput :: "u64 \<Rightarrow> kstate \<Rightarrow> kstate"

text \<open>
  What a walk step needs besides the VFS: the policy side and the masks. \<open>hk_rounds\<close> bounds
  the rounds of the delegation retry loop; \<open>hk_beyond\<close> is the byte of memory that follows a
  name array, for a read one past its end.
\<close>

record 'm hook =
  hk_run :: "'m runner"
  hk_backing :: "u64 \<Rightarrow> inode option"
  hk_fnh :: "u64 \<Rightarrow> bytes \<Rightarrow> u32 \<Rightarrow> u32"
  hk_masks :: lookup_masks
  hk_current :: u64
  hk_hash :: hashfn
  hk_follow :: u32
  hk_excl :: u32
  hk_o_creat :: u32
  hk_o_excl :: u32
  hk_o_write :: u32
  hk_rounds :: nat
  hk_beyond :: char

definition rcu_walk :: "'m hook \<Rightarrow> nameidata \<Rightarrow> bool" where
  "rcu_walk hk nd = has_flag (nd_flags nd) (lm_rcu (hk_masks hk))"

subsection \<open>Applying a redirect and a target\<close>

definition namei_ext_apply_redirect ::
  "nameidata \<Rightarrow> namei_ext_redirect \<Rightarrow> bool \<times> nameidata \<times> qstr" where
  "namei_ext_apply_redirect nd rd =
     (if \<not> rd_active rd then (False, nd, nd_last nd)
      else (True,
            nd\<lparr>nd_last := \<lparr>q_name = rd_name rd, q_len = rd_len rd, q_hash = rd_hash rd\<rparr>\<rparr>,
            nd_last nd))"

definition namei_ext_hash_redirect :: "vfs \<Rightarrow> nameidata \<Rightarrow> errno option \<times> nameidata" where
  "namei_ext_hash_redirect v nd =
     (if vf_op_hash v (p_dentry (nd_path nd))
      then let (e, q) = vf_d_hash v (p_dentry (nd_path nd)) (nd_last nd) in (e, nd\<lparr>nd_last := q\<rparr>)
      else (None, nd))"

definition namei_ext_apply_target ::
  "'m hook \<Rightarrow> vfs \<Rightarrow> nameidata \<Rightarrow> namei_ext_redirect \<Rightarrow> kstate \<Rightarrow>
     errno option \<times> nameidata \<times> namei_ext_redirect \<times> kstate" where
  "namei_ext_apply_target hk v nd rd st =
     (if \<not> rd_target_active rd then (None, nd, rd, st)
      else
        let borrowed = rd_target_borrowed rd;
            lm = hk_masks hk;
            done = rd\<lparr>rd_target_active := False, rd_target_borrowed := False\<rparr>;
            dropped = (if \<not> borrowed then path_put (rd_target rd) st else st)
        in
        if has_flag (nd_flags nd) (lm_is_scoped lm) then (Some EXDEV, nd, done, dropped)
        else if has_flag (nd_flags nd) (lm_no_xdev lm) \<and> p_mnt (nd_path nd) \<noteq> p_mnt (rd_target rd)
          then (Some EXDEV, nd, done, dropped)
        else if \<not> vf_d_can_lookup v (p_dentry (rd_target rd)) then (Some ENOTDIR, nd, done, dropped)
        else if borrowed \<and> \<not> has_flag (nd_flags nd) (lm_rcu lm) then (Some EINVAL, nd, done, st)
        else
          let (nd, st) = (if borrowed then (nd\<lparr>nd_seq := vf_d_seq v (p_dentry (rd_target rd))\<rparr>, st)
                          else (nd, path_put (nd_path nd) st))
          in (None,
              nd\<lparr>nd_path := rd_target rd, nd_inode := vf_d_inode v (p_dentry (rd_target rd)),
                 nd_jumped := True\<rparr>, done, st))"

subsection \<open>One component of the walk\<close>

definition walk_component_common ::
  "'m hook \<Rightarrow> vfs \<Rightarrow> nameidata \<Rightarrow> u32 \<Rightarrow> kstate \<Rightarrow> walk_res \<times> nameidata \<times> kstate" where
  "walk_component_common hk v nd flags st =
     (let (r, nd, st) = vf_lookup_fast v nd st
      in case r of
           Inl e \<Rightarrow> (Walk_err e, nd, st)
         | Inr fast \<Rightarrow>
             let (r, st) = (case fast of
                              Some dentry \<Rightarrow> (Inr dentry, st)
                            | None \<Rightarrow> vf_lookup_slow v (nd_last nd) (p_dentry (nd_path nd)) (nd_flags nd) st)
             in case r of
                  Inl e \<Rightarrow> (Walk_err e, nd, st)
                | Inr dentry \<Rightarrow>
                    let (nd, st) = (if nd_depth nd \<noteq> 0 \<and> \<not> has_flag flags WALK_MORE
                                    then vf_put_link v nd st else (nd, st))
                    in vf_step_into v nd flags dentry st)"

text \<open>\<^verbatim>\<open>if ((nd->flags & LOOKUP_RCU) && !try_to_unlazy(nd)) return -ECHILD; return error;\<close>\<close>

definition fail_unlazy ::
  "'m hook \<Rightarrow> vfs \<Rightarrow> errno \<Rightarrow> nameidata \<Rightarrow> kstate \<Rightarrow> walk_res \<times> nameidata \<times> kstate" where
  "fail_unlazy hk v e nd st =
     (if rcu_walk hk nd
      then let (ok, nd, st) = vf_try_to_unlazy v nd st
           in if \<not> ok then (Walk_err ECHILD, nd, st) else (Walk_err e, nd, st)
      else (Walk_err e, nd, st))"

text \<open>
  The part both hooks share: ask the policy, resolve a pending target, leave RCU mode
  before a redirect. Either the step is over, or a redirect record to apply is left.
\<close>

definition hook_decide ::
  "'m hook \<Rightarrow> vfs \<Rightarrow> nameidata \<Rightarrow> namei_ext_redirect \<Rightarrow> kstate \<Rightarrow> 'm \<Rightarrow>
     (walk_res + namei_ext_redirect) \<times> nameidata \<times> kstate \<times> 'm" where
  "hook_decide hk v nd rd st m =
     (let lm = hk_masks hk;
          (error, rd, m) =
            namei_ext_lookup (hk_run hk) (hk_backing hk) (hk_fnh hk) lm (hk_current hk) (nd_path nd)
              (nd_inode nd) (nd_last nd) BPF_NAMEI_EXT_LOOKUP (nd_flags nd AND NOT (lm_rcu lm)) rd st m
      in case error of
           Some e \<Rightarrow> (let (r, nd, st) = fail_unlazy hk v e nd st in (Inl r, nd, st, m))
         | None \<Rightarrow>
             let (error, rd, st) = (if rd_target_pending rd
                                    then namei_ext_resolve_target (hk_hash hk) rd (rcu_walk hk nd) st
                                    else (None, rd, st))
             in case error of
                  Some e \<Rightarrow> (let (r, nd, st) = fail_unlazy hk v e nd st in (Inl r, nd, st, m))
                | None \<Rightarrow>
                    if rd_active rd \<and> rcu_walk hk nd
                    then let (ok, nd, st) = vf_try_to_unlazy v nd st
                         in if \<not> ok then (Inl (Walk_err ECHILD), nd, st, m) else (Inr rd, nd, st, m)
                    else (Inr rd, nd, st, m))"

text \<open>The redirected tail: rename, rehash, run the plain walk, restore the name.\<close>

definition hook_redirected ::
  "vfs \<Rightarrow> (nameidata \<Rightarrow> kstate \<Rightarrow> walk_res \<times> nameidata \<times> kstate) \<Rightarrow> nameidata \<Rightarrow> namei_ext_redirect \<Rightarrow>
     kstate \<Rightarrow> walk_res \<times> nameidata \<times> kstate" where
  "hook_redirected v common nd rd st =
     (let (redirected, nd, saved_last) = namei_ext_apply_redirect nd rd
      in if redirected
         then let (error, nd) = namei_ext_hash_redirect v nd
              in case error of
                   Some e \<Rightarrow> (Walk_err e, nd\<lparr>nd_last := saved_last\<rparr>, st)
                 | None \<Rightarrow> (let (res, nd, st) = common nd st in (res, nd\<lparr>nd_last := saved_last\<rparr>, st))
         else common nd st)"

definition walk_component_namei_ext ::
  "'m hook \<Rightarrow> vfs \<Rightarrow> nameidata \<Rightarrow> u32 \<Rightarrow> namei_ext_redirect \<Rightarrow> kstate \<Rightarrow> 'm \<Rightarrow>
     walk_res \<times> nameidata \<times> kstate \<times> 'm" where
  "walk_component_namei_ext hk v nd flags rd st m =
     (let (r, nd, st, m) = hook_decide hk v nd rd st m
      in case r of
           Inl res \<Rightarrow> (res, nd, st, m)
         | Inr rd \<Rightarrow>
             if rd_target_active rd
             then let (error, nd, rd, st) = namei_ext_apply_target hk v nd rd st
                  in (case error of Some e \<Rightarrow> Walk_err e | None \<Rightarrow> Walk_done, nd, st, m)
             else let (res, nd, st) =
                        hook_redirected v (\<lambda>nd st. walk_component_common hk v nd flags st) nd rd st
                  in (res, nd, st, m))"

definition namei_ext_enabled :: "kstate \<Rightarrow> bool" where
  "namei_ext_enabled st \<longleftrightarrow> ks_enabled st > 0"

definition walk_component ::
  "'m hook \<Rightarrow> vfs \<Rightarrow> nameidata \<Rightarrow> u32 \<Rightarrow> namei_ext_redirect \<Rightarrow> kstate \<Rightarrow> 'm \<Rightarrow>
     walk_res \<times> nameidata \<times> kstate \<times> 'm" where
  "walk_component hk v nd flags rd st m =
     (if nd_last_type nd \<noteq> LAST_NORM then
        (let (nd, st) = (if nd_depth nd \<noteq> 0 \<and> \<not> has_flag flags WALK_MORE
                         then vf_put_link v nd st else (nd, st));
             (res, nd, st) = vf_handle_dots v nd (nd_last_type nd) st
         in (res, nd, st, m))
      else if namei_ext_enabled st \<and> namei_ext_parent_maybe_managed (hk_hash hk) (nd_path nd) st
        then walk_component_namei_ext hk v nd flags rd st m
      else let (res, nd, st) = walk_component_common hk v nd flags st in (res, nd, st, m))"

subsection \<open>The last component of open\<close>

definition trailing_slashes :: "'m hook \<Rightarrow> nameidata \<Rightarrow> bool" where
  "trailing_slashes hk nd \<longleftrightarrow>
     (let q = nd_last nd; len = unat (q_len q)
      in (if len < length (q_name q) then q_name q ! len else hk_beyond hk) \<noteq> NUL)"

definition lookup_fast_for_open ::
  "'m hook \<Rightarrow> vfs \<Rightarrow> nameidata \<Rightarrow> u32 \<Rightarrow> kstate \<Rightarrow> (errno + u64 option) \<times> nameidata \<times> kstate" where
  "lookup_fast_for_open hk v nd open_flag st =
     (if has_flag open_flag (hk_o_creat hk) \<and> trailing_slashes hk nd then (Inl EISDIR, nd, st)
      else if has_flag open_flag (hk_o_creat hk) \<and> has_flag open_flag (hk_o_excl hk) then (Inr None, nd, st)
      else
        let nd = (if trailing_slashes hk nd
                  then nd\<lparr>nd_flags := nd_flags nd OR (hk_follow hk OR lm_directory (hk_masks hk))\<rparr>
                  else nd);
            (r, nd, st) = vf_lookup_fast v nd st
        in case r of
             Inr (Some dentry) \<Rightarrow>
               if has_flag open_flag (hk_o_creat hk) \<and> \<not> vf_d_positive v dentry
               then (Inr None, nd, if \<not> rcu_walk hk nd then vf_dput v dentry st else st)
               else (Inr (Some dentry), nd, st)
           | _ \<Rightarrow> (r, nd, st))"

text \<open>The label \<open>finish_lookup\<close>.\<close>

definition open_finish_lookup ::
  "'m hook \<Rightarrow> vfs \<Rightarrow> u64 \<Rightarrow> nameidata \<Rightarrow> kstate \<Rightarrow> walk_res \<times> nameidata \<times> kstate" where
  "open_finish_lookup hk v dentry nd st =
     (let lm = hk_masks hk;
          (nd, st) = (if nd_depth nd \<noteq> 0 then vf_put_link v nd st else (nd, st));
          (res, nd, st) = vf_step_into v nd WALK_TRAILING dentry st
      in (res,
          if res \<noteq> Walk_done
          then nd\<lparr>nd_flags := nd_flags nd AND NOT (lm_open lm OR lm_create lm OR hk_excl hk)\<rparr>
          else nd, st))"

text \<open>
  The label \<open>retry\<close>: the locked lookup, repeated while a delegation has to be broken first.
  The inode lock and the notifications are not part of the state.
\<close>

fun open_retry ::
  "nat \<Rightarrow> 'm hook \<Rightarrow> vfs \<Rightarrow> u32 \<Rightarrow> nameidata \<Rightarrow> kstate \<Rightarrow> walk_res \<times> nameidata \<times> kstate" where
  "open_retry 0 hk v open_flag nd st = (Walk_retrying, nd, st)"
| "open_retry (Suc n) hk v open_flag nd st =
     (let mnt = p_mnt (nd_path nd);
          (got_write, st) = (if has_flag open_flag (hk_o_creat hk OR hk_o_write hk)
                             then vf_mnt_want_write v mnt st else (False, st));
          (r, nd, st) = vf_lookup_open v nd open_flag got_write st;
          st = (if got_write then vf_mnt_drop_write v (p_mnt (nd_path nd)) st else st)
      in case r of
           Open_err e \<Rightarrow> (Walk_err e, nd, st)
         | Open_delegated e \<Rightarrow>
             (case vf_break_deleg_wait v st of
                (None, st) \<Rightarrow> open_retry n hk v open_flag nd st
              | (Some error, st) \<Rightarrow> (Walk_err error, nd, st))
         | Open_opened dentry \<Rightarrow>
             (Walk_done, nd\<lparr>nd_path := (nd_path nd)\<lparr>p_dentry := dentry\<rparr>\<rparr>,
              vf_dput v (p_dentry (nd_path nd)) st)
         | Open_found dentry \<Rightarrow> open_finish_lookup hk v dentry nd st
         | Open_retrying \<Rightarrow> (Walk_retrying, nd, st))"

definition open_last_lookups_common ::
  "'m hook \<Rightarrow> vfs \<Rightarrow> u32 \<Rightarrow> u32 \<Rightarrow> nameidata \<Rightarrow> kstate \<Rightarrow> walk_res \<times> nameidata \<times> kstate" where
  "open_last_lookups_common hk v open_flag intent nd st =
     (let nd = nd\<lparr>nd_flags := nd_flags nd OR intent\<rparr>
      in
      if nd_last_type nd \<noteq> LAST_NORM then
        (let (nd, st) = (if nd_depth nd \<noteq> 0 then vf_put_link v nd st else (nd, st))
         in vf_handle_dots v nd (nd_last_type nd) st)
      else
        let (r, nd, st) = lookup_fast_for_open hk v nd open_flag st
        in case r of
             Inl e \<Rightarrow> (Walk_err e, nd, st)
           | Inr (Some dentry) \<Rightarrow> open_finish_lookup hk v dentry nd st
           | Inr None \<Rightarrow>
               if \<not> has_flag open_flag (hk_o_creat hk) then
                 (if rcu_walk hk nd then (Walk_err ECHILD, nd, st)
                  else open_retry (hk_rounds hk) hk v open_flag nd st)
               else if rcu_walk hk nd then
                 (let (ok, nd, st) = vf_try_to_unlazy v nd st
                  in if \<not> ok then (Walk_err ECHILD, nd, st)
                     else open_retry (hk_rounds hk) hk v open_flag nd st)
               else open_retry (hk_rounds hk) hk v open_flag nd st)"

definition open_last_lookups_namei_ext ::
  "'m hook \<Rightarrow> vfs \<Rightarrow> u32 \<Rightarrow> u32 \<Rightarrow> nameidata \<Rightarrow> namei_ext_redirect \<Rightarrow> kstate \<Rightarrow> 'm \<Rightarrow>
     walk_res \<times> nameidata \<times> kstate \<times> 'm" where
  "open_last_lookups_namei_ext hk v open_flag intent nd rd st m =
     (let nd = nd\<lparr>nd_flags := nd_flags nd OR intent\<rparr>
      in
      if nd_last_type nd \<noteq> LAST_NORM then
        (let (nd, st) = (if nd_depth nd \<noteq> 0 then vf_put_link v nd st else (nd, st));
             (res, nd, st) = vf_handle_dots v nd (nd_last_type nd) st
         in (res, nd, st, m))
      else
        let (r, nd, st, m) = hook_decide hk v nd rd st m
        in case r of
             Inl res \<Rightarrow> (res, nd, st, m)
           | Inr rd \<Rightarrow>
               if rd_target_active rd then
                 (if \<not> has_flag (nd_flags nd) (lm_directory (hk_masks hk)) then
                    (Walk_err EOPNOTSUPP, nd,
                     if \<not> rd_target_borrowed rd then path_put (rd_target rd) st else st, m)
                  else
                    let (error, nd, rd, st) = namei_ext_apply_target hk v nd rd st
                    in case error of
                         Some e \<Rightarrow> (Walk_err e, nd, st, m)
                       | None \<Rightarrow>
                           let (nd, st) = (if nd_depth nd \<noteq> 0 then vf_put_link v nd st else (nd, st))
                           in (Walk_done, nd, st, m))
               else
                 let (res, nd, st) =
                       hook_redirected v (open_last_lookups_common hk v open_flag intent) nd rd st
                 in (res, nd, st, m))"

definition open_last_lookups ::
  "'m hook \<Rightarrow> vfs \<Rightarrow> u32 \<Rightarrow> u32 \<Rightarrow> nameidata \<Rightarrow> namei_ext_redirect \<Rightarrow> kstate \<Rightarrow> 'm \<Rightarrow>
     walk_res \<times> nameidata \<times> kstate \<times> 'm" where
  "open_last_lookups hk v open_flag intent nd rd st m =
     (if namei_ext_enabled st \<and> namei_ext_parent_maybe_managed (hk_hash hk) (nd_path nd) st
      then open_last_lookups_namei_ext hk v open_flag intent nd rd st m
      else let (res, nd, st) = open_last_lookups_common hk v open_flag intent nd st in (res, nd, st, m))"

end
