(* ===== verification/Walk_Props.thy ===== *)
theory Walk_Props
  imports Walk
begin

text \<open>
  What the hooks in the path walk guarantee: the caller's component name is restored, a
  selected target moves the walk with its references balanced or leaves it where it was, a
  redirect is the plain walk at another name of the same directory, and the prefilter only
  ever skips hooks that would pass. The last lemma describes the byte behind a redirected
  name, which the open path reads.
\<close>

subsection \<open>The name the caller sees\<close>

text \<open>
  What the plain walk promises of the saved component: none of its steps writes
  \<open>nd->last\<close>.
\<close>

definition keeps_last :: "vfs \<Rightarrow> bool" where
  "keeps_last v \<longleftrightarrow>
     (\<forall>nd st. nd_last (fst (snd (vf_lookup_fast v nd st))) = nd_last nd) \<and>
     (\<forall>nd st. nd_last (fst (vf_put_link v nd st)) = nd_last nd) \<and>
     (\<forall>nd fl d st. nd_last (fst (snd (vf_step_into v nd fl d st))) = nd_last nd) \<and>
     (\<forall>nd st. nd_last (fst (snd (vf_try_to_unlazy v nd st))) = nd_last nd) \<and>
     (\<forall>nd t st. nd_last (fst (snd (vf_handle_dots v nd t st))) = nd_last nd) \<and>
     (\<forall>nd fl w st. nd_last (fst (snd (vf_lookup_open v nd fl w st))) = nd_last nd)"

lemma keeps_lastD:
  assumes "keeps_last v"
  shows "vf_lookup_fast v nd st = (a, nd', st') \<Longrightarrow> nd_last nd' = nd_last nd"
    and "vf_put_link v nd st = (nd', st') \<Longrightarrow> nd_last nd' = nd_last nd"
    and "vf_step_into v nd fl d st = (res, nd', st') \<Longrightarrow> nd_last nd' = nd_last nd"
    and "vf_try_to_unlazy v nd st = (ok, nd', st') \<Longrightarrow> nd_last nd' = nd_last nd"
    and "vf_handle_dots v nd t st = (res, nd', st') \<Longrightarrow> nd_last nd' = nd_last nd"
    and "vf_lookup_open v nd fl w st = (r, nd', st') \<Longrightarrow> nd_last nd' = nd_last nd"
  using assms unfolding keeps_last_def by (metis fst_conv snd_conv)+

lemma fail_unlazy_last:
  assumes "keeps_last v" "fail_unlazy hk v e nd st = (r, nd', st')"
  shows "nd_last nd' = nd_last nd"
  using assms(2) keeps_lastD(4) [OF assms(1)]
  by (auto simp: fail_unlazy_def split: if_splits prod.splits)

lemma hook_decide_last:
  assumes "keeps_last v" "hook_decide hk v nd rd st m = (r, nd', st', m')"
  shows "nd_last nd' = nd_last nd"
  using assms(2) keeps_lastD(4) [OF assms(1)] fail_unlazy_last [OF assms(1)]
  by (auto simp: hook_decide_def Let_def split: if_splits prod.splits option.splits)

lemma apply_target_last:
  "namei_ext_apply_target hk v nd rd st = (e, nd', rd', st') \<Longrightarrow> nd_last nd' = nd_last nd"
  by (auto simp: namei_ext_apply_target_def Let_def split: if_splits)

lemma common_last:
  assumes "keeps_last v" "walk_component_common hk v nd flags st = (res, nd', st')"
  shows "nd_last nd' = nd_last nd"
  using assms(2) keeps_lastD(1,2,3) [OF assms(1)]
  by (auto simp: walk_component_common_def Let_def
      split: if_splits prod.splits option.splits sum.splits)

lemma open_finish_last:
  assumes "keeps_last v" "open_finish_lookup hk v d nd st = (res, nd', st')"
  shows "nd_last nd' = nd_last nd"
  using assms(2) keeps_lastD(2,3) [OF assms(1)]
  by (auto simp: open_finish_lookup_def Let_def split: if_splits prod.splits)

lemma open_retry_last:
  assumes "keeps_last v" "open_retry n hk v fl nd st = (res, nd', st')"
  shows "nd_last nd' = nd_last nd"
  using assms(2)
proof (induction n arbitrary: nd st)
  case 0
  then show ?case by simp
next
  case (Suc n)
  from Suc.prems show ?case
    by (auto simp: Let_def dest!: keeps_lastD(6) [OF assms(1)] open_finish_last [OF assms(1)] Suc.IH
      split: if_splits prod.splits option.splits open_res.splits)
qed

lemma lookup_fast_for_open_last:
  assumes "keeps_last v" "lookup_fast_for_open hk v nd fl st = (r, nd', st')"
  shows "nd_last nd' = nd_last nd"
  using assms(2) keeps_lastD(1) [OF assms(1)]
  by (auto simp: lookup_fast_for_open_def Let_def
      split: if_splits prod.splits option.splits sum.splits)

lemma open_common_last:
  assumes "keeps_last v" "open_last_lookups_common hk v fl intent nd st = (res, nd', st')"
  shows "nd_last nd' = nd_last nd"
proof -
  note k = keeps_lastD(2,4,5) [OF assms(1)] lookup_fast_for_open_last [OF assms(1)]
    open_finish_last [OF assms(1)] open_retry_last [OF assms(1)]
  show ?thesis
    using assms(2)
    by (auto simp: open_last_lookups_common_def Let_def dest!: k
        split: if_splits prod.splits option.splits sum.splits)
qed

lemma redirected_last:
  assumes "\<And>nd st res nd' st'. common nd st = (res, nd', st') \<Longrightarrow> nd_last nd' = nd_last nd"
    and "hook_redirected v common nd rd st = (res, nd', st')"
  shows "nd_last nd' = nd_last nd"
  using assms(2)
  by (auto simp: hook_redirected_def namei_ext_apply_redirect_def Let_def
      split: if_splits prod.splits option.splits dest: assms(1))

lemma walk_namei_ext_last:
  assumes "keeps_last v" "walk_component_namei_ext hk v nd flags rd st m = (res, nd', st', m')"
  shows "nd_last nd' = nd_last nd"
  using assms(2)
  by (auto simp: walk_component_namei_ext_def dest!: hook_decide_last [OF assms(1)] apply_target_last
       redirected_last [rotated] common_last [OF assms(1)] split: prod.splits sum.splits if_splits)

lemma open_namei_ext_last:
  assumes "keeps_last v" "open_last_lookups_namei_ext hk v fl intent nd rd st m = (res, nd', st', m')"
  shows "nd_last nd' = nd_last nd"
  using assms(2)
  by (auto simp: open_last_lookups_namei_ext_def Let_def dest!: hook_decide_last [OF assms(1)] apply_target_last
       redirected_last [rotated] open_common_last [OF assms(1)] keeps_lastD(2,5) [OF assms(1)]
      split: prod.splits sum.splits if_splits option.splits)

subsection \<open>A step that selects a target\<close>

text \<open>
  \<open>walker_refs\<close> are the path references that are not the walk's own position: what a step
  in reference mode must leave as it found it.
\<close>

definition walker_refs :: "nameidata \<Rightarrow> kstate \<Rightarrow> path \<Rightarrow> int" where
  "walker_refs nd st p = ks_path_refs st p - of_bool (nd_path nd = p)"

text \<open>What the policy answers to the step the walk is at.\<close>

definition hook_lookup ::
  "'m hook \<Rightarrow> nameidata \<Rightarrow> namei_ext_redirect \<Rightarrow> kstate \<Rightarrow> 'm \<Rightarrow> errno option \<times> namei_ext_redirect \<times> 'm" where
  "hook_lookup hk nd rd st m =
     namei_ext_lookup (hk_run hk) (hk_backing hk) (hk_fnh hk) (hk_masks hk) (hk_current hk) (nd_path nd)
       (nd_inode nd) (nd_last nd) BPF_NAMEI_EXT_LOOKUP (nd_flags nd AND NOT (lm_rcu (hk_masks hk))) rd st m"

lemma hook_decide_lookup:
  "hook_decide hk v nd rd st m =
     (case hook_lookup hk nd rd st m of
        (Some e, rd, m) \<Rightarrow> (let (r, nd, st) = fail_unlazy hk v e nd st in (Inl r, nd, st, m))
      | (None, rd, m) \<Rightarrow>
          (case (if rd_target_pending rd
                 then namei_ext_resolve_target (hk_hash hk) rd (rcu_walk hk nd) st
                 else (None, rd, st)) of
             (Some e, rd, st) \<Rightarrow> (let (r, nd, st) = fail_unlazy hk v e nd st in (Inl r, nd, st, m))
           | (None, rd, st) \<Rightarrow>
               if rd_active rd \<and> rcu_walk hk nd
               then let (ok, nd, st) = vf_try_to_unlazy v nd st
                    in if \<not> ok then (Inl (Walk_err ECHILD), nd, st, m) else (Inr rd, nd, st, m)
               else (Inr rd, nd, st, m)))"
proof -
  obtain e rd1 m1 where l: "hook_lookup hk nd rd st m = (e, rd1, m1)" by (metis prod_cases3)
  obtain e2 rd2 st2 where r: "(if rd_target_pending rd1
      then namei_ext_resolve_target (hk_hash hk) rd1 (rcu_walk hk nd) st else (None, rd1, st)) = (e2, rd2, st2)"
    by (metis prod_cases3)
  show ?thesis
    using l r by (cases e; cases e2) (simp_all add: hook_decide_def hook_lookup_def Let_def)
qed

lemma lookup_clears:
  assumes "namei_ext_lookup run backing fnh lm current parent pino name ev flags rd st m = (e, rd', m')"
  shows "\<not> rd_target_active rd' \<and> \<not> rd_target_borrowed rd' \<and> \<not> (rd_active rd' \<and> rd_target_pending rd') \<and>
         (e \<noteq> None \<longrightarrow> \<not> rd_active rd' \<and> \<not> rd_target_pending rd')"
  using assms
  by (auto simp: namei_ext_lookup_def namei_ext_fill_redirect_def Let_def
      split: prod.splits sum.splits if_splits)

lemma hook_lookup_clears:
  assumes "hook_lookup hk nd rd st m = (e, rd', m')"
  shows "\<not> rd_target_active rd' \<and> \<not> rd_target_borrowed rd' \<and> \<not> (rd_active rd' \<and> rd_target_pending rd') \<and>
         (e \<noteq> None \<longrightarrow> \<not> rd_active rd' \<and> \<not> rd_target_pending rd')"
  using assms unfolding hook_lookup_def by (rule lookup_clears)

lemma resolve_apply_refs:
  assumes "rd_target_pending rd" "\<not> rd_target_borrowed rd"
    and "namei_ext_resolve_target hb rd False st = (None, rd', st1)"
    and "namei_ext_apply_target hk v nd rd' st1 = (e, nd', rd'', st')"
  shows "walker_refs nd' st' = walker_refs nd st \<and> (e \<noteq> None \<longrightarrow> nd' = nd \<and> st' = st)"
proof -
  have id: "rd_target_id rd \<noteq> 0"
    using assms(1,3) by (auto simp: namei_ext_resolve_target_def split: if_splits)
  obtain p where p: "rd' = rd\<lparr>rd_target := p, rd_target_borrowed := False,
        rd_target_pending := False, rd_target_active := True\<rparr>" "st1 = path_get p st"
    using assms(2,3) resolve_target_spec [OF assms(1) id, of hb False st]
    by (auto split: option.splits)
  show ?thesis
    using assms(4) unfolding p
    by (auto simp: namei_ext_apply_target_def Let_def walker_refs_def refs_eq fun_eq_iff
        split: if_splits intro!: kstate.equality)
qed

lemma fail_unlazy_ref: "\<not> rcu_walk hk nd \<Longrightarrow> fail_unlazy hk v e nd st = (Walk_err e, nd, st)"
  by (simp add: fail_unlazy_def)

text \<open>Failing to resolve a target takes no reference.\<close>

lemma resolve_error_refs:
  "namei_ext_resolve_target hb rd rcu st = (Some e, rd', st') \<Longrightarrow> st' = st"
  by (auto simp: namei_ext_resolve_target_def namei_ext_get_target_def split: if_splits option.splits prod.splits sum.splits)

lemma walk_target_refs:
  assumes "\<not> rcu_walk hk nd" "hook_lookup hk nd rd st m = (e, rd1, m1)"
    and "e \<noteq> None \<or> rd_target_pending rd1"
    and "walk_component_namei_ext hk v nd flags rd st m = (res, nd', st', m')"
  shows "walker_refs nd' st' = walker_refs nd st"
proof (cases e)
  case (Some e')
  then show ?thesis
    using assms by (auto simp: walk_component_namei_ext_def hook_decide_lookup fail_unlazy_ref)
next
  case None
  with assms(3) have pend: "rd_target_pending rd1" by simp
  note cl = hook_lookup_clears [OF assms(2)]
  obtain e2 rd2 st2 where res: "namei_ext_resolve_target (hk_hash hk) rd1 False st = (e2, rd2, st2)"
    by (metis prod_cases3)
  show ?thesis
  proof (cases e2)
    case (Some e')
    then show ?thesis
      using assms None pend res resolve_error_refs [OF res [unfolded Some]]
      by (auto simp: walk_component_namei_ext_def hook_decide_lookup fail_unlazy_ref)
  next
    case e2: None
    have a: "rd_target_active rd2" "\<not> rd_active rd2"
      using res e2 pend cl
      by (auto simp: namei_ext_resolve_target_def split: if_splits prod.splits sum.splits)
    obtain e3 nd3 rd3 st3 where ap: "namei_ext_apply_target hk v nd rd2 st2 = (e3, nd3, rd3, st3)"
      by (metis prod_cases4)
    have "nd' = nd3" "st' = st3"
      using assms(1,2,4) None pend res e2 a ap
      by (auto simp: walk_component_namei_ext_def hook_decide_lookup)
    then show ?thesis
      using resolve_apply_refs [OF pend _ res [unfolded e2] ap] cl by simp
  qed
qed

text \<open>In RCU mode the jump borrows the registry's reference and touches no count.\<close>

lemma walk_target_rcu:
  assumes "rcu_walk hk nd" "hook_lookup hk nd rd st m = (None, rd1, m1)" "rd_target_pending rd1"
    and "rd_target_id rd1 \<noteq> 0" "target_path (hk_hash hk) st (rd_target_cgroup_id rd1) (rd_target_id rd1) = Some p"
    and "walk_component_namei_ext hk v nd flags rd st m = (res, nd', st', m')"
  shows "st' = st \<and> nd_path nd' = (if res = Walk_done then p else nd_path nd)"
  using assms hook_lookup_clears [OF assms(2)]
  by (auto simp: walk_component_namei_ext_def hook_decide_lookup resolve_target_spec
      namei_ext_apply_target_def Let_def rcu_walk_def split: if_splits)

text \<open>Where a selected component leads, on every branch, in reference mode.\<close>

lemma walk_select_target:
  assumes "\<not> rcu_walk hk nd" "hook_lookup hk nd rd st m = (None, rd1, m1)" "rd_target_pending rd1"
  shows "walk_component_namei_ext hk v nd flags rd st m =
     (if rd_target_id rd1 = 0 then (Walk_err EINVAL, nd, st, m1)
      else case target_path (hk_hash hk) st (rd_target_cgroup_id rd1) (rd_target_id rd1) of
             None \<Rightarrow> (Walk_err ENOENT, nd, st, m1)
           | Some p \<Rightarrow>
               if has_flag (nd_flags nd) (lm_is_scoped (hk_masks hk)) then (Walk_err EXDEV, nd, st, m1)
               else if has_flag (nd_flags nd) (lm_no_xdev (hk_masks hk)) \<and> p_mnt (nd_path nd) \<noteq> p_mnt p
                 then (Walk_err EXDEV, nd, st, m1)
               else if \<not> vf_d_can_lookup v (p_dentry p) then (Walk_err ENOTDIR, nd, st, m1)
               else (Walk_done, nd\<lparr>nd_path := p, nd_inode := vf_d_inode v (p_dentry p), nd_jumped := True\<rparr>,
                     path_put (nd_path nd) (path_get p st), m1))"
proof -
  note cl = hook_lookup_clears [OF assms(2)]
  have f: "rd_target_pending rd1 \<Longrightarrow> rd_target_id rd1 = 0 \<Longrightarrow>
      namei_ext_resolve_target (hk_hash hk) rd1 False st = (Some EINVAL, rd1, st)"
    by (simp add: namei_ext_resolve_target_def)
  show ?thesis
    using assms cl f
    by (auto simp: walk_component_namei_ext_def hook_decide_lookup fail_unlazy_ref resolve_target_spec
        namei_ext_apply_target_def Let_def put_get_path split: option.split)
qed

subsection \<open>A step that redirects, and one the policy leaves alone\<close>

lemma walk_redirect:
  assumes "\<not> rcu_walk hk nd" "hook_lookup hk nd rd st m = (None, rd1, m1)" "rd_active rd1"
    and "\<not> vf_op_hash v (p_dentry (nd_path nd))"
  shows "walk_component_namei_ext hk v nd flags rd st m =
     (let (res, nd', st') = walk_component_common hk v
            (nd\<lparr>nd_last := \<lparr>q_name = rd_name rd1, q_len = rd_len rd1, q_hash = rd_hash rd1\<rparr>\<rparr>) flags st
      in (res, nd'\<lparr>nd_last := nd_last nd\<rparr>, st', m1))"
  using assms hook_lookup_clears [OF assms(2)]
  by (auto simp: walk_component_namei_ext_def hook_decide_lookup hook_redirected_def
      namei_ext_apply_redirect_def namei_ext_hash_redirect_def Let_def split: prod.split)

lemma walk_pass:
  assumes "hook_lookup hk nd rd st m = (None, rd1, m1)" "\<not> rd_active rd1" "\<not> rd_target_pending rd1"
  shows "walk_component_namei_ext hk v nd flags rd st m =
           (let (res, nd', st') = walk_component_common hk v nd flags st in (res, nd', st', m1))"
  using assms hook_lookup_clears [OF assms(1)]
  by (auto simp: walk_component_namei_ext_def hook_decide_lookup hook_redirected_def
      namei_ext_apply_redirect_def Let_def split: prod.split)

lemma open_pass:
  assumes "nd_last_type nd = LAST_NORM"
    and "hook_lookup hk (nd\<lparr>nd_flags := nd_flags nd OR intent\<rparr>) rd st m = (None, rd1, m1)"
    and "\<not> rd_active rd1" "\<not> rd_target_pending rd1"
  shows "open_last_lookups_namei_ext hk v fl intent nd rd st m =
           (let (res, nd', st') = open_last_lookups_common hk v fl intent nd st in (res, nd', st', m1))"
  using assms hook_lookup_clears [OF assms(2)]
  by (auto simp: open_last_lookups_namei_ext_def hook_decide_lookup hook_redirected_def
      namei_ext_apply_redirect_def open_last_lookups_common_def Let_def or.assoc split: prod.split)

subsection \<open>The prefilter changes nothing\<close>

lemma hook_unmanaged:
  assumes "kernel_inv (hk_hash hk) st" "live st (hk_current hk)"
    and "\<not> namei_ext_parent_maybe_managed (hk_hash hk) (nd_path nd) st"
  shows "hook_lookup hk nd rd st m = (None, cleared rd, m)"
  by (simp add: hook_lookup_def lookup_unmanaged [OF assms] cleared_def)

lemma cleared_inactive [simp]: "\<not> rd_active (cleared rd)" "\<not> rd_target_pending (cleared rd)"
  by (simp_all add: cleared_def)

lemma walk_prefilter:
  assumes "kernel_inv (hk_hash hk) st" "live st (hk_current hk)" "nd_last_type nd = LAST_NORM"
    and "namei_ext_enabled st"
  shows "walk_component hk v nd flags rd st m = walk_component_namei_ext hk v nd flags rd st m"
  using assms walk_pass [OF hook_unmanaged [OF assms(1,2)], where v = v and flags = flags and m = m]
  by (auto simp: walk_component_def)

lemma open_prefilter:
  assumes "kernel_inv (hk_hash hk) st" "live st (hk_current hk)" "namei_ext_enabled st"
  shows "open_last_lookups hk v fl intent nd rd st m = open_last_lookups_namei_ext hk v fl intent nd rd st m"
proof (cases "nd_last_type nd = LAST_NORM")
  case True
  then show ?thesis
    using assms open_pass [OF True hook_unmanaged [OF assms(1,2)], where v = v and fl = fl and m = m]
    by (auto simp: open_last_lookups_def)
next
  case False
  then show ?thesis
    by (auto simp: open_last_lookups_def open_last_lookups_namei_ext_def open_last_lookups_common_def Let_def
        split: prod.split)
qed

subsection \<open>The last component of an open\<close>

lemma open_select_target:
  assumes "nd_last_type nd = LAST_NORM" "nd1 = nd\<lparr>nd_flags := nd_flags nd OR intent\<rparr>"
    and "\<not> rcu_walk hk nd1" "hook_lookup hk nd1 rd st m = (None, rd1, m1)" "rd_target_pending rd1"
    and "rd_target_id rd1 \<noteq> 0"
    and "target_path (hk_hash hk) st (rd_target_cgroup_id rd1) (rd_target_id rd1) = Some p"
    and "\<not> has_flag (nd_flags nd1) (lm_directory (hk_masks hk))"
  shows "open_last_lookups_namei_ext hk v fl intent nd rd st m = (Walk_err EOPNOTSUPP, nd1, st, m1)"
  using assms hook_lookup_clears [OF assms(4)]
  by (auto simp: open_last_lookups_namei_ext_def hook_decide_lookup resolve_target_spec Let_def put_get_path)

text \<open>
  The byte behind a redirected name. \<open>trailing_slashes\<close> reads it, and it is whatever the
  redirect record held before the policy ran.
\<close>

lemma redirect_trailing_byte:
  assumes "rd1 = namei_ext_fill_redirect fnh parent c rd" "unat (c_redirect_name_len c) \<le> 64"
    and "length (rd_name rd) = 64" "length (c_redirect_name c) = 64"
    and "namei_ext_apply_redirect nd rd1 = (b, nd', saved)"
  shows "trailing_slashes hk nd' \<longleftrightarrow>
           (if unat (c_redirect_name_len c) < 64 then rd_name rd ! unat (c_redirect_name_len c) \<noteq> NUL
            else hk_beyond hk \<noteq> NUL)"
  using assms
  by (auto simp: namei_ext_fill_redirect_def namei_ext_apply_redirect_def trailing_slashes_def Let_def
      nth_append)

end
