(* ===== verification/Vfs_Walk.thy ===== *)
theory Vfs_Walk
  imports Walk_Props
begin

text \<open>
  The layer of \<open>fs/namei.c\<close> below one component: leaving RCU mode, the fast lookup, crossing
  mounts, stepping into a dentry, symbolic links and dots, from the dcache, the mount tree and
  the file systems upwards. Together these make up the record \<open>vfs\<close> the hooks of \<^verbatim>\<open>Walk\<close> are
  stated over (\<open>kernel_vfs\<close>). What comes from elsewhere is a parameter, in three records. The
  delayed calls that free the body of a link and the debugging assertions are left out, and a
  pair of retried reads under a seqlock is one read.
\<close>

subsection \<open>Parameters\<close>

datatype reval = Reval_ok | Reval_invalid | Reval_err errno

record dcache_ops =
  do_seq_begin :: "u64 \<Rightarrow> kstate \<Rightarrow> nat"
  do_seq_retry :: "u64 \<Rightarrow> nat \<Rightarrow> kstate \<Rightarrow> bool"
  do_d_lookup_rcu :: "u64 \<Rightarrow> qstr \<Rightarrow> kstate \<Rightarrow> (u64 \<times> nat) option"
  do_d_lookup :: "u64 \<Rightarrow> qstr \<Rightarrow> kstate \<Rightarrow> u64 option \<times> kstate"
  do_lookup_slow :: "qstr \<Rightarrow> u64 \<Rightarrow> u32 \<Rightarrow> kstate \<Rightarrow> (errno + u64) \<times> kstate"
  do_op_revalidate :: "u64 \<Rightarrow> bool"
  do_d_revalidate :: "inode option \<Rightarrow> qstr \<Rightarrow> u64 \<Rightarrow> u32 \<Rightarrow> kstate \<Rightarrow> reval \<times> kstate"
  do_op_weak_revalidate :: "u64 \<Rightarrow> bool"
  do_d_weak_revalidate :: "u64 \<Rightarrow> u32 \<Rightarrow> kstate \<Rightarrow> reval \<times> kstate"
  do_d_invalidate :: "u64 \<Rightarrow> kstate \<Rightarrow> kstate"
  do_lockref_get :: "u64 \<Rightarrow> kstate \<Rightarrow> bool \<times> kstate"
  do_dget :: "u64 \<Rightarrow> kstate \<Rightarrow> kstate"
  do_dput :: "u64 \<Rightarrow> kstate \<Rightarrow> kstate"
  do_d_inode :: "u64 \<Rightarrow> inode option"
  do_d_parent :: "u64 \<Rightarrow> kstate \<Rightarrow> u64"
  do_is_subdir :: "u64 \<Rightarrow> u64 \<Rightarrow> kstate \<Rightarrow> bool"
  do_d_managed :: "u64 \<Rightarrow> kstate \<Rightarrow> bool"
  do_d_is_symlink :: "u64 \<Rightarrow> kstate \<Rightarrow> bool"
  do_d_can_lookup :: "u64 \<Rightarrow> bool"
  do_d_positive :: "u64 \<Rightarrow> bool"
  do_d_seq :: "u64 \<Rightarrow> nat"
  do_op_hash :: "u64 \<Rightarrow> bool"
  do_d_hash :: "u64 \<Rightarrow> qstr \<Rightarrow> errno option \<times> qstr"

text \<open>
  Mounts and the task: \<open>mo_legitimize_mnt\<close> is \<open>__legitimize_mnt\<close>; the walks over stacked
  mounts (\<open>__follow_mount_rcu\<close>, \<open>traverse_mounts\<close>, \<open>choose_mountpoint\<close>) return the path they
  arrive at, whether they crossed a mount, and the sequence number or the automounts counted.
\<close>

record mount_ops =
  mo_mount_begin :: "kstate \<Rightarrow> nat"
  mo_mount_retry :: "nat \<Rightarrow> kstate \<Rightarrow> bool"
  mo_rename_begin :: "kstate \<Rightarrow> nat"
  mo_rename_retry :: "nat \<Rightarrow> kstate \<Rightarrow> bool"
  mo_legitimize_mnt :: "u64 \<Rightarrow> nat \<Rightarrow> kstate \<Rightarrow> int \<times> kstate"
  mo_mntget :: "u64 \<Rightarrow> kstate \<Rightarrow> kstate"
  mo_mntput :: "u64 \<Rightarrow> kstate \<Rightarrow> kstate"
  mo_mnt_root :: "u64 \<Rightarrow> u64"
  mo_sb_root :: "u64 \<Rightarrow> u64"
  mo_nosymfollow :: "u64 \<Rightarrow> bool"
  mo_follow_mount_rcu :: "path \<Rightarrow> u32 \<Rightarrow> nat \<Rightarrow> nat \<Rightarrow> kstate \<Rightarrow> bool \<times> path \<times> bool \<times> nat"
  mo_traverse_mounts :: "path \<Rightarrow> nat \<Rightarrow> u32 \<Rightarrow> kstate \<Rightarrow> (errno option \<times> path \<times> bool \<times> nat) \<times> kstate"
  mo_choose_mountpoint_rcu :: "u64 \<Rightarrow> path \<Rightarrow> kstate \<Rightarrow> (path \<times> nat) option"
  mo_choose_mountpoint :: "u64 \<Rightarrow> path \<Rightarrow> kstate \<Rightarrow> path option \<times> kstate"
  mo_path_is_under :: "path \<Rightarrow> path \<Rightarrow> kstate \<Rightarrow> bool"
  mo_fs_root :: "kstate \<Rightarrow> path"
  mo_fs_pwd :: "kstate \<Rightarrow> path"
  mo_fd :: "int \<Rightarrow> (path \<times> bool) option"

text \<open>
  Links, permissions and the open of a file. What \<open>get_link\<close> returns: an error, a body, nothing,
  or the path it jumps to through \<open>nd_jump_link\<close>.
\<close>

datatype link_ans = Link_err errno | Link_body bytes | Link_none | Link_jump path

record link_ops =
  lo_alloc_stack :: "kstate \<Rightarrow> bool \<times> kstate"
  lo_may_exec :: "u64 \<Rightarrow> inode option \<Rightarrow> bool \<Rightarrow> kstate \<Rightarrow> errno option \<times> kstate"
  lo_may_follow_link :: "nameidata \<Rightarrow> inode option \<Rightarrow> kstate \<Rightarrow> errno option \<times> kstate"
  lo_atime_needs_update :: "path \<Rightarrow> inode option \<Rightarrow> kstate \<Rightarrow> bool"
  lo_touch_atime :: "path \<Rightarrow> kstate \<Rightarrow> kstate"
  lo_security_follow_link :: "u64 \<Rightarrow> inode option \<Rightarrow> bool \<Rightarrow> kstate \<Rightarrow> errno option"
  lo_i_link :: "inode option \<Rightarrow> kstate \<Rightarrow> bytes option"
  lo_get_link :: "u64 option \<Rightarrow> inode option \<Rightarrow> kstate \<Rightarrow> link_ans \<times> kstate"
  lo_mnt_want_write :: "u64 \<Rightarrow> kstate \<Rightarrow> bool \<times> kstate"
  lo_mnt_drop_write :: "u64 \<Rightarrow> kstate \<Rightarrow> kstate"
  lo_lookup_open :: "nameidata \<Rightarrow> u32 \<Rightarrow> bool \<Rightarrow> kstate \<Rightarrow> open_res \<times> kstate"
  lo_break_deleg_wait :: "kstate \<Rightarrow> errno option \<times> kstate"

text \<open>The lookup flags that are not among those of the hook.\<close>

record walk_flags =
  wf_cached :: u32
  wf_beneath :: u32
  wf_in_root :: u32
  wf_no_symlinks :: u32
  wf_no_magiclinks :: u32
  wf_parent :: u32
  wf_down :: u32
  wf_mountpoint :: u32
  wf_reval :: u32
  wf_linkat_empty :: u32

record walk_env =
  we_dc :: dcache_ops
  we_mo :: mount_ops
  we_lo :: link_ops
  we_fl :: walk_flags

definition MAXSYMLINKS :: nat where "MAXSYMLINKS = 40"

definition EMBEDDED_LEVELS :: nat where "EMBEDDED_LEVELS = 2"

abbreviation null_path :: path where
  "null_path \<equiv> \<lparr>p_mnt = 0, p_dentry = 0\<rparr>"

text \<open>\<open>path_put\<close> of a path that failed to be legitimized: what is null is not put.\<close>

definition put_path :: "walk_env \<Rightarrow> path \<Rightarrow> kstate \<Rightarrow> kstate" where
  "put_path pr p st =
     (if p_mnt p \<noteq> 0 \<and> p_dentry p \<noteq> 0 then path_put p st
      else if p_dentry p \<noteq> 0 then do_dput (we_dc pr) (p_dentry p) st
      else if p_mnt p \<noteq> 0 then mo_mntput (we_mo pr) (p_mnt p) st
      else st)"

subsection \<open>Leaving RCU mode\<close>

definition path_connected :: "walk_env \<Rightarrow> u64 \<Rightarrow> u64 \<Rightarrow> kstate \<Rightarrow> bool" where
  "path_connected pr mnt dentry st \<longleftrightarrow>
     mo_mnt_root (we_mo pr) mnt = mo_sb_root (we_mo pr) mnt \<or>
     do_is_subdir (we_dc pr) dentry (mo_mnt_root (we_mo pr) mnt) st"

definition leave_rcu :: "'m hook \<Rightarrow> nameidata \<Rightarrow> nameidata" where
  "leave_rcu hk nd =
     nd\<lparr>nd_flags := nd_flags nd AND NOT (lm_rcu (hk_masks hk)), nd_seq := 0, nd_next_seq := 0\<rparr>"

definition terminate_walk :: "'m hook \<Rightarrow> walk_env \<Rightarrow> nameidata \<Rightarrow> kstate \<Rightarrow> nameidata \<times> kstate" where
  "terminate_walk hk pr nd st =
     (let (nd, st) =
            (if \<not> rcu_walk hk nd then
               let st = put_path pr (nd_path nd) st;
                   st = fold (\<lambda>s. put_path pr (sv_link s)) (take (nd_depth nd) (nd_stack nd)) st
               in if nd_root_grabbed nd
                  then (nd\<lparr>nd_root_grabbed := False\<rparr>, put_path pr (nd_root nd) st) else (nd, st)
             else (leave_rcu hk nd, st))
      in (nd\<lparr>nd_depth := 0, nd_path := null_path\<rparr>, st))"

definition legitimize_path ::
  "walk_env \<Rightarrow> path \<Rightarrow> nat \<Rightarrow> nat \<Rightarrow> kstate \<Rightarrow> bool \<times> path \<times> kstate" where
  "legitimize_path pr path seq mseq st =
     (let (res, st) = mo_legitimize_mnt (we_mo pr) (p_mnt path) mseq st in
      if res \<noteq> 0 then
        (False, (if res > 0 then path\<lparr>p_mnt := 0\<rparr> else path)\<lparr>p_dentry := 0\<rparr>, st)
      else
        let (ok, st) = do_lockref_get (we_dc pr) (p_dentry path) st in
        if \<not> ok then (False, path\<lparr>p_dentry := 0\<rparr>, st)
        else (\<not> do_seq_retry (we_dc pr) (p_dentry path) seq st, path, st))"

text \<open>The loop over the stack stops behind the first link that cannot be legitimized.\<close>

fun legitimize_stack :: "walk_env \<Rightarrow> nat \<Rightarrow> saved list \<Rightarrow> kstate \<Rightarrow> bool \<times> saved list \<times> kstate" where
  "legitimize_stack pr mseq [] st = (True, [], st)"
| "legitimize_stack pr mseq (s # ss) st =
     (let (ok, link, st) = legitimize_path pr (sv_link s) (sv_seq s) mseq st;
          s = s\<lparr>sv_link := link\<rparr>
      in if \<not> ok then (False, [s], st)
         else let (ok, ss, st) = legitimize_stack pr mseq ss st in (ok, s # ss, st))"

definition legitimize_links :: "walk_env \<Rightarrow> nameidata \<Rightarrow> kstate \<Rightarrow> bool \<times> nameidata \<times> kstate" where
  "legitimize_links pr nd st =
     (let (ok, ss, st) = legitimize_stack pr (nd_m_seq nd) (take (nd_depth nd) (nd_stack nd)) st
      in (ok, nd\<lparr>nd_stack := ss @ drop (length ss) (nd_stack nd), nd_depth := length ss\<rparr>, st))"

definition legitimize_root :: "walk_env \<Rightarrow> nameidata \<Rightarrow> kstate \<Rightarrow> bool \<times> nameidata \<times> kstate" where
  "legitimize_root pr nd st =
     (if p_mnt (nd_root nd) = 0 \<or> nd_root_preset nd then (True, nd, st)
      else let (ok, root, st) = legitimize_path pr (nd_root nd) (nd_root_seq nd) (nd_m_seq nd) st
           in (ok, nd\<lparr>nd_root_grabbed := True, nd_root := root\<rparr>, st))"

definition try_to_unlazy :: "'m hook \<Rightarrow> walk_env \<Rightarrow> nameidata \<Rightarrow> kstate \<Rightarrow> bool \<times> nameidata \<times> kstate" where
  "try_to_unlazy hk pr nd st =
     (if has_flag (nd_flags nd) (wf_cached (we_fl pr)) then
        (False, leave_rcu hk (nd\<lparr>nd_depth := 0, nd_path := null_path\<rparr>), st)
      else
        let (ok, nd, st) = (if nd_depth nd \<noteq> 0 then legitimize_links pr nd st else (True, nd, st)) in
        if \<not> ok then (False, leave_rcu hk (nd\<lparr>nd_path := null_path\<rparr>), st)
        else
          let (ok, path, st) = legitimize_path pr (nd_path nd) (nd_seq nd) (nd_m_seq nd) st;
              nd = nd\<lparr>nd_path := path\<rparr>
          in
          if \<not> ok then (False, leave_rcu hk nd, st)
          else let (ok, nd, st) = legitimize_root pr nd st in (ok, leave_rcu hk nd, st))"

definition try_to_unlazy_next ::
  "'m hook \<Rightarrow> walk_env \<Rightarrow> nameidata \<Rightarrow> u64 \<Rightarrow> kstate \<Rightarrow> bool \<times> nameidata \<times> kstate" where
  "try_to_unlazy_next hk pr nd dentry st =
     (if has_flag (nd_flags nd) (wf_cached (we_fl pr)) then
        (False, leave_rcu hk (nd\<lparr>nd_depth := 0, nd_path := null_path\<rparr>), st)
      else
        let (ok, nd, st) = (if nd_depth nd \<noteq> 0 then legitimize_links pr nd st else (True, nd, st)) in
        if \<not> ok then (False, leave_rcu hk (nd\<lparr>nd_path := null_path\<rparr>), st)
        else
          let (res, st) = mo_legitimize_mnt (we_mo pr) (p_mnt (nd_path nd)) (nd_m_seq nd) st in
          if res > 0 then (False, leave_rcu hk (nd\<lparr>nd_path := null_path\<rparr>), st)
          else if res \<noteq> 0 then (False, leave_rcu hk (nd\<lparr>nd_path := (nd_path nd)\<lparr>p_dentry := 0\<rparr>\<rparr>), st)
          else
            let (ok, st) = do_lockref_get (we_dc pr) (p_dentry (nd_path nd)) st in
            if \<not> ok then (False, leave_rcu hk (nd\<lparr>nd_path := (nd_path nd)\<lparr>p_dentry := 0\<rparr>\<rparr>), st)
            else
              let (ok, st) = do_lockref_get (we_dc pr) dentry st in
              if \<not> ok then (False, leave_rcu hk nd, st)
              else if do_seq_retry (we_dc pr) dentry (nd_next_seq nd) st
                then (False, leave_rcu hk nd, do_dput (we_dc pr) dentry st)
              else
                let (ok, nd, st) = legitimize_root pr nd st in
                if \<not> ok then (False, leave_rcu hk nd, do_dput (we_dc pr) dentry st)
                else (True, leave_rcu hk nd, st))"

subsection \<open>Completion, root and jumps\<close>

definition complete_walk :: "'m hook \<Rightarrow> walk_env \<Rightarrow> nameidata \<Rightarrow> kstate \<Rightarrow> errno option \<times> nameidata \<times> kstate" where
  "complete_walk hk pr nd st =
     (let dentry = p_dentry (nd_path nd);
          scoped = lm_is_scoped (hk_masks hk);
          (ok, nd, st) =
            (if rcu_walk hk nd then
               let nd = (if \<not> nd_root_preset nd \<and> \<not> has_flag (nd_flags nd) scoped
                         then nd\<lparr>nd_root := (nd_root nd)\<lparr>p_mnt := 0\<rparr>\<rparr> else nd);
                   nd = nd\<lparr>nd_flags := nd_flags nd AND NOT (wf_cached (we_fl pr))\<rparr>
               in try_to_unlazy hk pr nd st
             else (True, nd, st))
      in
      if \<not> ok then (Some ECHILD, nd, st)
      else if has_flag (nd_flags nd) scoped \<and> \<not> mo_path_is_under (we_mo pr) (nd_path nd) (nd_root nd) st
        then (Some EXDEV, nd, st)
      else if \<not> nd_jumped nd then (None, nd, st)
      else if \<not> do_op_weak_revalidate (we_dc pr) dentry then (None, nd, st)
      else case do_d_weak_revalidate (we_dc pr) dentry (nd_flags nd) st of
             (Reval_ok, st) \<Rightarrow> (None, nd, st)
           | (Reval_invalid, st) \<Rightarrow> (Some ESTALE, nd, st)
           | (Reval_err e, st) \<Rightarrow> (Some e, nd, st))"

definition set_root :: "'m hook \<Rightarrow> walk_env \<Rightarrow> nameidata \<Rightarrow> kstate \<Rightarrow> errno option \<times> nameidata \<times> kstate" where
  "set_root hk pr nd st =
     (if has_flag (nd_flags nd) (lm_is_scoped (hk_masks hk)) then (Some ENOTRECOVERABLE, nd, st)
      else
        let root = mo_fs_root (we_mo pr) st in
        if rcu_walk hk nd
        then (None, nd\<lparr>nd_root := root, nd_root_seq := do_seq_begin (we_dc pr) (p_dentry root) st\<rparr>, st)
        else (None, nd\<lparr>nd_root := root, nd_root_grabbed := True\<rparr>, path_get root st))"

definition nd_jump_root :: "'m hook \<Rightarrow> walk_env \<Rightarrow> nameidata \<Rightarrow> kstate \<Rightarrow> errno option \<times> nameidata \<times> kstate" where
  "nd_jump_root hk pr nd st =
     (if has_flag (nd_flags nd) (wf_beneath (we_fl pr)) then (Some EXDEV, nd, st)
      else if has_flag (nd_flags nd) (lm_no_xdev (hk_masks hk)) \<and> p_mnt (nd_path nd) \<noteq> 0 \<and>
              p_mnt (nd_path nd) \<noteq> p_mnt (nd_root nd)
        then (Some EXDEV, nd, st)
      else
        let (error, nd, st) = (if p_mnt (nd_root nd) = 0 then set_root hk pr nd st else (None, nd, st)) in
        case error of
          Some e \<Rightarrow> (Some e, nd, st)
        | None \<Rightarrow>
            if rcu_walk hk nd then
              let d = p_dentry (nd_root nd);
                  nd = nd\<lparr>nd_path := nd_root nd, nd_inode := do_d_inode (we_dc pr) d, nd_seq := nd_root_seq nd\<rparr>
              in if do_seq_retry (we_dc pr) d (nd_seq nd) st then (Some ECHILD, nd, st)
                 else (None, nd\<lparr>nd_jumped := True\<rparr>, st)
            else
              let st = put_path pr (nd_path nd) st;
                  nd = nd\<lparr>nd_path := nd_root nd\<rparr>;
                  st = path_get (nd_path nd) st
              in (None, nd\<lparr>nd_inode := do_d_inode (we_dc pr) (p_dentry (nd_path nd)), nd_jumped := True\<rparr>, st))"

definition nd_jump_link :: "'m hook \<Rightarrow> walk_env \<Rightarrow> path \<Rightarrow> nameidata \<Rightarrow> kstate \<Rightarrow> errno option \<times> nameidata \<times> kstate" where
  "nd_jump_link hk pr path nd st =
     (if has_flag (nd_flags nd) (wf_no_magiclinks (we_fl pr)) then (Some ELOOP, nd, put_path pr path st)
      else if has_flag (nd_flags nd) (lm_no_xdev (hk_masks hk)) \<and> p_mnt (nd_path nd) \<noteq> p_mnt path
        then (Some EXDEV, nd, put_path pr path st)
      else if has_flag (nd_flags nd) (lm_is_scoped (hk_masks hk)) then (Some EXDEV, nd, put_path pr path st)
      else (None,
            nd\<lparr>nd_path := path, nd_inode := do_d_inode (we_dc pr) (p_dentry path), nd_jumped := True\<rparr>,
            put_path pr (nd_path nd) st))"

text \<open>\<open>nd->depth\<close> is unsigned: the callers test it before.\<close>

definition put_link :: "'m hook \<Rightarrow> walk_env \<Rightarrow> nameidata \<Rightarrow> kstate \<Rightarrow> nameidata \<times> kstate" where
  "put_link hk pr nd st =
     (let nd = nd\<lparr>nd_depth := nd_depth nd - 1\<rparr>
      in (nd, if \<not> rcu_walk hk nd then put_path pr (sv_link (nd_stack nd ! nd_depth nd)) st else st))"

subsection \<open>Lookup and mounts\<close>

definition d_revalidate ::
  "walk_env \<Rightarrow> inode option \<Rightarrow> qstr \<Rightarrow> u64 \<Rightarrow> u32 \<Rightarrow> kstate \<Rightarrow> reval \<times> kstate" where
  "d_revalidate pr dir name dentry flags st =
     (if do_op_revalidate (we_dc pr) dentry then do_d_revalidate (we_dc pr) dir name dentry flags st
      else (Reval_ok, st))"

text \<open>The tail of \<open>lookup_fast\<close>: a zero status is returned as a null pointer.\<close>

definition lookup_fast_tail ::
  "walk_env \<Rightarrow> u64 \<Rightarrow> reval \<Rightarrow> nameidata \<Rightarrow> kstate \<Rightarrow> (errno + u64 option) \<times> nameidata \<times> kstate" where
  "lookup_fast_tail pr dentry status nd st =
     (case status of
        Reval_ok \<Rightarrow> (Inr (Some dentry), nd, st)
      | Reval_invalid \<Rightarrow> (Inr None, nd, do_dput (we_dc pr) dentry (do_d_invalidate (we_dc pr) dentry st))
      | Reval_err e \<Rightarrow> (Inl e, nd, do_dput (we_dc pr) dentry st))"

definition lookup_fast ::
  "'m hook \<Rightarrow> walk_env \<Rightarrow> nameidata \<Rightarrow> kstate \<Rightarrow> (errno + u64 option) \<times> nameidata \<times> kstate" where
  "lookup_fast hk pr nd st =
     (let parent = p_dentry (nd_path nd) in
      if rcu_walk hk nd then
        case do_d_lookup_rcu (we_dc pr) parent (nd_last nd) st of
          None \<Rightarrow>
            (let (ok, nd, st) = try_to_unlazy hk pr nd st
             in (if ok then Inr None else Inl ECHILD, nd, st))
        | Some (dentry, seq) \<Rightarrow>
            let nd = nd\<lparr>nd_next_seq := seq\<rparr> in
            if do_seq_retry (we_dc pr) parent (nd_seq nd) st then (Inl ECHILD, nd, st)
            else
              let (status, st) = d_revalidate pr (nd_inode nd) (nd_last nd) dentry (nd_flags nd) st in
              if status = Reval_ok then (Inr (Some dentry), nd, st)
              else
                let (ok, nd, st) = try_to_unlazy_next hk pr nd dentry st in
                if \<not> ok then (Inl ECHILD, nd, st)
                else
                  let (status, st) = (if status = Reval_err ECHILD
                                      then d_revalidate pr (nd_inode nd) (nd_last nd) dentry (nd_flags nd) st
                                      else (status, st))
                  in lookup_fast_tail pr dentry status nd st
      else
        case do_d_lookup (we_dc pr) parent (nd_last nd) st of
          (None, st) \<Rightarrow> (Inr None, nd, st)
        | (Some dentry, st) \<Rightarrow>
            let (status, st) = d_revalidate pr (nd_inode nd) (nd_last nd) dentry (nd_flags nd) st
            in lookup_fast_tail pr dentry status nd st)"

text \<open>The part of \<open>handle_mounts\<close> in reference mode.\<close>

definition handle_mounts_ref ::
  "walk_env \<Rightarrow> nameidata \<Rightarrow> path \<Rightarrow> kstate \<Rightarrow> errno option \<times> path \<times> nameidata \<times> kstate" where
  "handle_mounts_ref pr nd path st =
     (let ((ret, path, jumped, count), st) =
            mo_traverse_mounts (we_mo pr) path (nd_total_link_count nd) (nd_flags nd) st;
          nd = nd\<lparr>nd_total_link_count := nd_total_link_count nd + count\<rparr>;
          nd = (if jumped then nd\<lparr>nd_jumped := True\<rparr> else nd);
          st = (if ret \<noteq> None then
                  let st = do_dput (we_dc pr) (p_dentry path) st
                  in if p_mnt path \<noteq> p_mnt (nd_path nd) then mo_mntput (we_mo pr) (p_mnt path) st else st
                else st)
      in (ret, path, nd, st))"

definition handle_mounts ::
  "'m hook \<Rightarrow> walk_env \<Rightarrow> nameidata \<Rightarrow> u64 \<Rightarrow> kstate \<Rightarrow> errno option \<times> path \<times> nameidata \<times> kstate" where
  "handle_mounts hk pr nd dentry st =
     (let path = \<lparr>p_mnt = p_mnt (nd_path nd), p_dentry = dentry\<rparr> in
      if rcu_walk hk nd then
        if \<not> do_d_managed (we_dc pr) dentry st then (None, path, nd, st)
        else
          let (ok, path', jumped, seq) =
                mo_follow_mount_rcu (we_mo pr) path (nd_flags nd) (nd_m_seq nd) (nd_next_seq nd) st;
              nd = (if jumped then nd\<lparr>nd_jumped := True\<rparr> else nd)
          in if ok then (None, path', nd\<lparr>nd_next_seq := seq\<rparr>, st)
             else let (ok, nd, st) = try_to_unlazy_next hk pr nd dentry st
                  in if \<not> ok then (Some ECHILD, path, nd, st) else handle_mounts_ref pr nd path st
      else handle_mounts_ref pr nd path st)"

subsection \<open>Symbolic links\<close>

definition reserve_stack ::
  "'m hook \<Rightarrow> walk_env \<Rightarrow> nameidata \<Rightarrow> path \<Rightarrow> kstate \<Rightarrow> errno option \<times> path \<times> nameidata \<times> kstate" where
  "reserve_stack hk pr nd link st =
     (let full = nd_total_link_count nd \<ge> MAXSYMLINKS;
          nd = nd\<lparr>nd_total_link_count := nd_total_link_count nd + 1\<rparr>
      in
      if full then (Some ELOOP, link, nd, st)
      else if nd_depth nd \<noteq> EMBEDDED_LEVELS then (None, link, nd, st)
      else if nd_stack_big nd then (None, link, nd, st)
      else
        let (ok, st) = lo_alloc_stack (we_lo pr) st in
        if ok then (None, link, nd\<lparr>nd_stack_big := True\<rparr>, st)
        else if rcu_walk hk nd then
          let (grabbed_link, link, st) = legitimize_path pr link (nd_next_seq nd) (nd_m_seq nd) st;
              (ok, nd, st) = try_to_unlazy hk pr nd st
          in if \<not> ok \<or> \<not> grabbed_link then (Some ECHILD, link, nd, st)
             else let (ok, st) = lo_alloc_stack (we_lo pr) st
                  in if ok then (None, link, nd\<lparr>nd_stack_big := True\<rparr>, st) else (Some ENOMEM, link, nd, st)
        else (Some ENOMEM, link, nd, st))"

definition push_link :: "path \<Rightarrow> nameidata \<Rightarrow> nameidata" where
  "push_link link nd =
     nd\<lparr>nd_stack := take (nd_depth nd) (nd_stack nd) @ [\<lparr>sv_link = link, sv_seq = nd_next_seq nd\<rparr>],
        nd_depth := nd_depth nd + 1\<rparr>"

definition get_link ::
  "'m hook \<Rightarrow> walk_env \<Rightarrow> u64 option \<Rightarrow> inode option \<Rightarrow> nameidata \<Rightarrow> kstate \<Rightarrow>
     (errno + bytes option) \<times> nameidata \<times> kstate" where
  "get_link hk pr dentry inode nd st =
     (case lo_get_link (we_lo pr) dentry inode st of
        (Link_err e, st) \<Rightarrow> (Inl e, nd, st)
      | (Link_none, st) \<Rightarrow> (Inr None, nd, st)
      | (Link_body body, st) \<Rightarrow> (Inr (Some (cstr body)), nd, st)
      | (Link_jump path, st) \<Rightarrow>
          (case nd_jump_link hk pr path nd st of
             (Some e, nd, st) \<Rightarrow> (Inl e, nd, st)
           | (None, nd, st) \<Rightarrow> (Inr None, nd, st)))"

definition link_body ::
  "'m hook \<Rightarrow> walk_env \<Rightarrow> path \<Rightarrow> inode option \<Rightarrow> nameidata \<Rightarrow> kstate \<Rightarrow>
     (errno + bytes option) \<times> nameidata \<times> kstate" where
  "link_body hk pr link inode nd st =
     (case lo_i_link (we_lo pr) inode st of
        Some body \<Rightarrow> (Inr (Some (cstr body)), nd, st)
      | None \<Rightarrow>
          if rcu_walk hk nd then
            let (res, nd, st) = get_link hk pr None inode nd st in
            if res = Inl ECHILD then
              let (ok, nd, st) = try_to_unlazy hk pr nd st
              in if ok then get_link hk pr (Some (p_dentry link)) inode nd st else (res, nd, st)
            else (res, nd, st)
          else get_link hk pr (Some (p_dentry link)) inode nd st)"

text \<open>The end of \<open>pick_link\<close>: an absolute body starts at the root again.\<close>

definition pick_body ::
  "'m hook \<Rightarrow> walk_env \<Rightarrow> bytes option \<Rightarrow> nameidata \<Rightarrow> kstate \<Rightarrow> walk_res \<times> nameidata \<times> kstate" where
  "pick_body hk pr body nd st =
     (let all_done = (\<lambda>nd st. let (nd, st) = put_link hk pr nd st in (Walk_done, nd, st)) in
      case body of
        None \<Rightarrow> all_done nd st
      | Some res \<Rightarrow>
          let (error, nd, st) = (if res \<noteq> [] \<and> hd res = CHR ''/'' then nd_jump_root hk pr nd st else (None, nd, st));
              res = dropWhile (\<lambda>c. c = CHR ''/'') res
          in case error of
               Some e \<Rightarrow> (Walk_err e, nd, st)
             | None \<Rightarrow> if res \<noteq> [] then (Walk_link res, nd, st) else all_done nd st)"

definition follow_link ::
  "'m hook \<Rightarrow> walk_env \<Rightarrow> path \<Rightarrow> inode option \<Rightarrow> u32 \<Rightarrow> nameidata \<Rightarrow> kstate \<Rightarrow>
     walk_res \<times> nameidata \<times> kstate" where
  "follow_link hk pr link inode flags nd st =
     (let (error, st) = (if has_flag flags WALK_TRAILING then lo_may_follow_link (we_lo pr) nd inode st
                         else (None, st))
      in case error of
           Some e \<Rightarrow> (Walk_err e, nd, st)
         | None \<Rightarrow>
             if has_flag (nd_flags nd) (wf_no_symlinks (we_fl pr)) \<or> mo_nosymfollow (we_mo pr) (p_mnt link)
             then (Walk_err ELOOP, nd, st)
             else
               let (ok, nd, st) =
                     (if lo_atime_needs_update (we_lo pr) (sv_link (last (nd_stack nd))) inode st then
                        let (ok, nd, st) = (if rcu_walk hk nd then try_to_unlazy hk pr nd st else (True, nd, st))
                        in if ok then (True, nd, lo_touch_atime (we_lo pr) (sv_link (last (nd_stack nd))) st)
                           else (False, nd, st)
                      else (True, nd, st))
               in if \<not> ok then (Walk_err ECHILD, nd, st)
                  else
                    case lo_security_follow_link (we_lo pr) (p_dentry link) inode (rcu_walk hk nd) st of
                      Some e \<Rightarrow> (Walk_err e, nd, st)
                    | None \<Rightarrow>
                        let (res, nd, st) = link_body hk pr link inode nd st
                        in case res of
                             Inl e \<Rightarrow> (Walk_err e, nd, st)
                           | Inr body \<Rightarrow> pick_body hk pr body nd st)"

definition pick_link ::
  "'m hook \<Rightarrow> walk_env \<Rightarrow> nameidata \<Rightarrow> path \<Rightarrow> inode option \<Rightarrow> u32 \<Rightarrow> kstate \<Rightarrow>
     walk_res \<times> nameidata \<times> kstate" where
  "pick_link hk pr nd link inode flags st =
     (if rcu_walk hk nd \<and> do_seq_retry (we_dc pr) (p_dentry link) (nd_next_seq nd) st
      then (Walk_err ECHILD, nd, st)
      else
        let st = (if \<not> rcu_walk hk nd \<and> p_mnt link = p_mnt (nd_path nd)
                  then mo_mntget (we_mo pr) (p_mnt link) st else st);
            (error, link, nd, st) = reserve_stack hk pr nd link st
        in case error of
             Some e \<Rightarrow> (Walk_err e, nd, if \<not> rcu_walk hk nd then put_path pr link st else st)
           | None \<Rightarrow> follow_link hk pr link inode flags (push_link link nd) st)"

definition step_into_slowpath ::
  "'m hook \<Rightarrow> walk_env \<Rightarrow> nameidata \<Rightarrow> u32 \<Rightarrow> u64 \<Rightarrow> kstate \<Rightarrow> walk_res \<times> nameidata \<times> kstate" where
  "step_into_slowpath hk pr nd flags dentry st =
     (let (err, path, nd, st) = handle_mounts hk pr nd dentry st in
      case err of
        Some e \<Rightarrow> (Walk_err e, nd, st)
      | None \<Rightarrow>
          let inode = do_d_inode (we_dc pr) (p_dentry path) in
          if \<not> do_d_is_symlink (we_dc pr) (p_dentry path) st \<or>
             (has_flag flags WALK_TRAILING \<and> \<not> has_flag (nd_flags nd) (hk_follow hk)) \<or>
             has_flag flags WALK_NOFOLLOW
          then
            let moved = nd\<lparr>nd_path := path, nd_inode := inode, nd_seq := nd_next_seq nd\<rparr> in
            if rcu_walk hk nd then
              (if do_seq_retry (we_dc pr) (p_dentry path) (nd_next_seq nd) st then (Walk_err ECHILD, nd, st)
               else if inode = None then (Walk_err ENOENT, nd, st)
               else (Walk_done, moved, st))
            else
              let st = do_dput (we_dc pr) (p_dentry (nd_path nd)) st;
                  st = (if p_mnt (nd_path nd) \<noteq> p_mnt path then mo_mntput (we_mo pr) (p_mnt (nd_path nd)) st
                        else st)
              in (Walk_done, moved, st)
          else pick_link hk pr nd path inode flags st)"

definition step_into ::
  "'m hook \<Rightarrow> walk_env \<Rightarrow> nameidata \<Rightarrow> u32 \<Rightarrow> u64 \<Rightarrow> kstate \<Rightarrow> walk_res \<times> nameidata \<times> kstate" where
  "step_into hk pr nd flags dentry st =
     (if rcu_walk hk nd \<and> \<not> do_d_managed (we_dc pr) dentry st \<and> \<not> do_d_is_symlink (we_dc pr) dentry st then
        let inode = do_d_inode (we_dc pr) dentry in
        if do_seq_retry (we_dc pr) dentry (nd_next_seq nd) st then (Walk_err ECHILD, nd, st)
        else if inode = None then (Walk_err ENOENT, nd, st)
        else (Walk_done,
              nd\<lparr>nd_path := (nd_path nd)\<lparr>p_dentry := dentry\<rparr>, nd_inode := inode, nd_seq := nd_next_seq nd\<rparr>, st)
      else step_into_slowpath hk pr nd flags dentry st)"

subsection \<open>Dots\<close>

definition follow_dotdot_rcu ::
  "'m hook \<Rightarrow> walk_env \<Rightarrow> nameidata \<Rightarrow> kstate \<Rightarrow> (errno + u64) \<times> nameidata" where
  "follow_dotdot_rcu hk pr nd st =
     (let dc = we_dc pr; mo = we_mo pr;
          up = (\<lambda>nd.
            let old = p_dentry (nd_path nd);
                parent = do_d_parent dc old st;
                nd = nd\<lparr>nd_next_seq := do_seq_begin dc parent st\<rparr>
            in if do_seq_retry dc old (nd_seq nd) st then (Inl ECHILD, nd)
               else if \<not> path_connected pr (p_mnt (nd_path nd)) parent st then (Inl ECHILD, nd)
               else (Inr parent, nd));
          in_root =
            (if mo_mount_retry mo (nd_m_seq nd) st then (Inl ECHILD, nd)
             else if has_flag (nd_flags nd) (wf_beneath (we_fl pr)) then (Inl ECHILD, nd)
             else (Inr (p_dentry (nd_path nd)), nd\<lparr>nd_next_seq := nd_seq nd\<rparr>))
      in
      if path_equal (nd_path nd) (nd_root nd) then in_root
      else if p_dentry (nd_path nd) = mo_mnt_root mo (p_mnt (nd_path nd)) then
        (case mo_choose_mountpoint_rcu mo (p_mnt (nd_path nd)) (nd_root nd) st of
           None \<Rightarrow> in_root
         | Some (path, seq) \<Rightarrow>
             if has_flag (nd_flags nd) (lm_no_xdev (hk_masks hk)) then (Inl ECHILD, nd)
             else
               let nd = nd\<lparr>nd_path := path, nd_inode := do_d_inode dc (p_dentry path), nd_seq := seq\<rparr>
               in if mo_mount_retry mo (nd_m_seq nd) st then (Inl ECHILD, nd) else up nd)
      else up nd)"

definition follow_dotdot ::
  "'m hook \<Rightarrow> walk_env \<Rightarrow> nameidata \<Rightarrow> kstate \<Rightarrow> (errno + u64) \<times> nameidata \<times> kstate" where
  "follow_dotdot hk pr nd st =
     (let dc = we_dc pr; mo = we_mo pr;
          up = (\<lambda>nd st.
            let parent = do_d_parent dc (p_dentry (nd_path nd)) st;
                st = do_dget dc parent st
            in if \<not> path_connected pr (p_mnt (nd_path nd)) parent st
               then (Inl ENOENT, nd, do_dput dc parent st) else (Inr parent, nd, st));
          in_root = (\<lambda>st.
            if has_flag (nd_flags nd) (wf_beneath (we_fl pr)) then (Inl EXDEV, nd, st)
            else (Inr (p_dentry (nd_path nd)), nd, do_dget dc (p_dentry (nd_path nd)) st))
      in
      if path_equal (nd_path nd) (nd_root nd) then in_root st
      else if p_dentry (nd_path nd) = mo_mnt_root mo (p_mnt (nd_path nd)) then
        (case mo_choose_mountpoint mo (p_mnt (nd_path nd)) (nd_root nd) st of
           (None, st) \<Rightarrow> in_root st
         | (Some path, st) \<Rightarrow>
             let st = put_path pr (nd_path nd) st;
                 nd = nd\<lparr>nd_path := path, nd_inode := do_d_inode dc (p_dentry path)\<rparr>
             in if has_flag (nd_flags nd) (lm_no_xdev (hk_masks hk)) then (Inl EXDEV, nd, st) else up nd st)
      else up nd st)"

definition handle_dots ::
  "'m hook \<Rightarrow> walk_env \<Rightarrow> nameidata \<Rightarrow> last_type \<Rightarrow> kstate \<Rightarrow> walk_res \<times> nameidata \<times> kstate" where
  "handle_dots hk pr nd type st =
     (if type \<noteq> LAST_DOTDOT then (Walk_done, nd, st)
      else
        let (error, nd, st) = (if p_mnt (nd_root nd) = 0 then set_root hk pr nd st else (None, nd, st)) in
        case error of
          Some e \<Rightarrow> (Walk_err e, nd, st)
        | None \<Rightarrow>
            let (parent, nd, st) =
                  (if rcu_walk hk nd then let (p, nd) = follow_dotdot_rcu hk pr nd st in (p, nd, st)
                   else follow_dotdot hk pr nd st)
            in case parent of
                 Inl e \<Rightarrow> (Walk_err e, nd, st)
               | Inr parent \<Rightarrow>
                   let (res, nd, st) = step_into hk pr nd WALK_NOFOLLOW parent st in
                   if res \<noteq> Walk_done then (res, nd, st)
                   else if has_flag (nd_flags nd) (lm_is_scoped (hk_masks hk)) \<and>
                           (mo_mount_retry (we_mo pr) (nd_m_seq nd) st \<or> mo_rename_retry (we_mo pr) (nd_r_seq nd) st)
                     then (Walk_err EAGAIN, nd, st)
                   else (Walk_done, nd, st))"

subsection \<open>The record of the walk\<close>

definition kernel_vfs :: "'m hook \<Rightarrow> walk_env \<Rightarrow> vfs" where
  "kernel_vfs hk pr =
     \<lparr>vf_lookup_fast = lookup_fast hk pr, vf_lookup_slow = do_lookup_slow (we_dc pr),
      vf_put_link = put_link hk pr, vf_step_into = step_into hk pr,
      vf_try_to_unlazy = try_to_unlazy hk pr, vf_handle_dots = handle_dots hk pr,
      vf_d_hash = do_d_hash (we_dc pr), vf_op_hash = do_op_hash (we_dc pr),
      vf_d_can_lookup = do_d_can_lookup (we_dc pr), vf_d_inode = do_d_inode (we_dc pr),
      vf_d_seq = do_d_seq (we_dc pr), vf_mnt_want_write = lo_mnt_want_write (we_lo pr),
      vf_mnt_drop_write = lo_mnt_drop_write (we_lo pr),
      vf_lookup_open = (\<lambda>nd fl w st. let (r, st) = lo_lookup_open (we_lo pr) nd fl w st in (r, nd, st)),
      vf_break_deleg_wait = lo_break_deleg_wait (we_lo pr), vf_d_positive = do_d_positive (we_dc pr),
      vf_dput = do_dput (we_dc pr)\<rparr>"

end
