(* ===== verification/Link_Stack.thy ===== *)
theory Link_Stack
  imports Vfs_Walk
begin

text \<open>
  The stack of symbolic links of a walk, as a contract of the functions a component is walked
  with: the locale \<open>walk_vfs\<close>. Its client is \<open>walk_component\<close> with the hook in it, its provider
  the layer of \<^verbatim>\<open>Vfs_Walk\<close>.
\<close>

subsection \<open>The contract\<close>

text \<open>
  The entries in use exist, they fit the array they are in, and each was counted.
\<close>

definition stack_ok :: "nameidata \<Rightarrow> bool" where
  "stack_ok nd \<longleftrightarrow>
     nd_depth nd \<le> nd_total_link_count nd \<and> nd_depth nd \<le> length (nd_stack nd) \<and>
     nd_depth nd \<le> (if nd_stack_big nd then MAXSYMLINKS else EMBEDDED_LEVELS)"

text \<open>
  A call that follows no link: it leaves the component name alone, may count automounts, and
  keeps the links when it succeeds.
\<close>

definition quiet_step :: "bool \<Rightarrow> nameidata \<Rightarrow> nameidata \<Rightarrow> bool" where
  "quiet_step ok nd nd' \<longleftrightarrow>
     nd_last nd' = nd_last nd \<and> nd_total_link_count nd \<le> nd_total_link_count nd' \<and>
     (stack_ok nd \<longrightarrow> stack_ok nd' \<and> (ok \<longrightarrow> nd_depth nd' = nd_depth nd))"

text \<open>A call that may follow one: a link is pushed and counted, below the limit.\<close>

definition link_step :: "walk_res \<Rightarrow> nameidata \<Rightarrow> nameidata \<Rightarrow> bool" where
  "link_step res nd nd' \<longleftrightarrow>
     nd_last nd' = nd_last nd \<and> nd_total_link_count nd \<le> nd_total_link_count nd' \<and>
     (\<forall>body. res = Walk_link body \<longrightarrow>
        body \<noteq> [] \<and> hd body \<noteq> CHR ''/'' \<and>
        nd_total_link_count nd < MAXSYMLINKS \<and> nd_total_link_count nd < nd_total_link_count nd') \<and>
     res \<noteq> Walk_retrying \<and>
     (stack_ok nd \<longrightarrow> stack_ok nd' \<and>
        (case res of Walk_done \<Rightarrow> nd_depth nd' = nd_depth nd
         | Walk_link body \<Rightarrow> nd_depth nd' = Suc (nd_depth nd) | _ \<Rightarrow> True))"

lemma quiet_refl [simp]: "quiet_step ok nd nd"
  by (simp add: quiet_step_def)

lemma quiet_trans: "quiet_step ok a b \<Longrightarrow> quiet_step ok' b c \<Longrightarrow> quiet_step (ok \<and> ok') a c"
  by (auto simp: quiet_step_def)

lemma quiet_then_link: "quiet_step True a b \<Longrightarrow> link_step res b c \<Longrightarrow> link_step res a c"
  by (auto simp: quiet_step_def link_step_def split: walk_res.splits)

lemma quiet_err: "quiet_step ok nd nd' \<Longrightarrow> link_step (Walk_err e) nd nd'"
  by (simp add: quiet_step_def link_step_def)

lemma quiet_done: "quiet_step True nd nd' \<Longrightarrow> link_step Walk_done nd nd'"
  by (simp add: quiet_step_def link_step_def)

text \<open>Updates of fields the contract does not mention.\<close>

definition same_links :: "nameidata \<Rightarrow> nameidata \<Rightarrow> bool" where
  "same_links nd nd' \<longleftrightarrow>
     nd_last nd' = nd_last nd \<and> nd_total_link_count nd' = nd_total_link_count nd \<and>
     nd_depth nd' = nd_depth nd \<and> nd_stack nd' = nd_stack nd \<and> nd_stack_big nd' = nd_stack_big nd"

lemma same_links_quiet: "same_links nd nd' \<Longrightarrow> quiet_step ok nd nd'"
  by (simp add: same_links_def quiet_step_def stack_ok_def)

locale walk_vfs =
  fixes v :: vfs
  assumes lookup_fast_quiet: "vf_lookup_fast v nd st = (r, nd', st') \<Longrightarrow> quiet_step (\<not> isl r) nd nd'"
    and unlazy_quiet: "vf_try_to_unlazy v nd st = (ok, nd', st') \<Longrightarrow> quiet_step ok nd nd'"
    and put_link_pops: "vf_put_link v nd st = (nd', st') \<Longrightarrow> same_links (nd\<lparr>nd_depth := nd_depth nd - 1\<rparr>) nd'"
    and handle_dots_quiet: "vf_handle_dots v nd t st = (res, nd', st') \<Longrightarrow>
      quiet_step (res = Walk_done) nd nd' \<and> (res = Walk_done \<or> (\<exists>e. res = Walk_err e))"
    and step_into_links: "vf_step_into v nd fl d st = (res, nd', st') \<Longrightarrow> link_step res nd nd'"
    and lookup_open_quiet: "vf_lookup_open v nd fl w st = (ores, nd', st') \<Longrightarrow> nd' = nd"
begin

lemma keeps_last: "keeps_last v"
proof -
  have "nd_last (fst (snd (vf_lookup_fast v nd st))) = nd_last nd" for nd st
    using lookup_fast_quiet [of nd st] by (metis prod.collapse quiet_step_def)
  moreover have "nd_last (fst (vf_put_link v nd st)) = nd_last nd" for nd st
  proof -
    have "same_links (nd\<lparr>nd_depth := nd_depth nd - 1\<rparr>) (fst (vf_put_link v nd st))"
      using put_link_pops [of nd st] by (metis prod.collapse)
    then show ?thesis by (simp add: same_links_def)
  qed
  moreover have "nd_last (fst (snd (vf_step_into v nd fl d st))) = nd_last nd" for nd fl d st
    using step_into_links [of nd fl d st] by (metis prod.collapse link_step_def)
  moreover have "nd_last (fst (snd (vf_try_to_unlazy v nd st))) = nd_last nd" for nd st
    using unlazy_quiet [of nd st] by (metis prod.collapse quiet_step_def)
  moreover have "nd_last (fst (snd (vf_handle_dots v nd t st))) = nd_last nd" for nd t st
    using handle_dots_quiet [of nd t st] by (metis prod.collapse quiet_step_def)
  moreover have "nd_last (fst (snd (vf_lookup_open v nd fl w st))) = nd_last nd" for nd fl w st
    using lookup_open_quiet [of nd fl w st] by (metis prod.collapse)
  ultimately show ?thesis by (simp add: keeps_last_def)
qed

end

text \<open>
  One component of the walk, as its caller sees it. Without \<open>WALK_MORE\<close> the link that ends
  here is popped; a component that selects a target keeps it.
\<close>

definition comp_step :: "bool \<Rightarrow> walk_res \<Rightarrow> nameidata \<Rightarrow> nameidata \<Rightarrow> bool" where
  "comp_step stay res nd nd' \<longleftrightarrow>
     nd_last nd' = nd_last nd \<and> nd_total_link_count nd \<le> nd_total_link_count nd' \<and>
     (\<forall>body. res = Walk_link body \<longrightarrow>
        body \<noteq> [] \<and> hd body \<noteq> CHR ''/'' \<and>
        nd_total_link_count nd < MAXSYMLINKS \<and> nd_total_link_count nd < nd_total_link_count nd') \<and>
     res \<noteq> Walk_retrying \<and>
     (stack_ok nd \<longrightarrow> stack_ok nd' \<and>
        (case res of Walk_done \<Rightarrow> nd_depth nd - (if stay then 0 else 1) \<le> nd_depth nd'
         | Walk_link body \<Rightarrow> nd_depth nd - (if stay then 0 else 1) < nd_depth nd' | _ \<Rightarrow> True))"

lemma link_comp: "link_step res nd nd' \<Longrightarrow> comp_step stay res nd nd'"
  by (auto simp: link_step_def comp_step_def split: walk_res.splits)

lemma quiet_then_comp: "quiet_step True a b \<Longrightarrow> comp_step stay res b c \<Longrightarrow> comp_step stay res a c"
  by (auto simp: quiet_step_def comp_step_def split: walk_res.splits)

lemma popped_comp:
  assumes "same_links (a\<lparr>nd_depth := nd_depth a - 1\<rparr>) b" "link_step res b c"
  shows "comp_step False res a c"
proof -
  have "stack_ok a \<Longrightarrow> stack_ok b"
    using assms(1) by (auto simp: same_links_def stack_ok_def)
  then show ?thesis using assms by (auto simp: same_links_def link_step_def comp_step_def split: walk_res.splits)
qed

context walk_vfs
begin

lemma common_comp:
  assumes "walk_component_common hk v nd flags st = (res, nd', st')"
  shows "comp_step (has_flag flags WALK_MORE) res nd nd'"
proof -
  obtain r nd1 st1 where f: "vf_lookup_fast v nd st = (r, nd1, st1)" by (metis prod_cases3)
  note q = lookup_fast_quiet [OF f]
  show ?thesis
  proof (cases "\<exists>d st2 nd2 st3. (if nd_depth nd1 \<noteq> 0 \<and> \<not> has_flag flags WALK_MORE
        then vf_put_link v nd1 st2 else (nd1, st2)) = (nd2, st3) \<and> vf_step_into v nd2 flags d st3 = (res, nd', st') \<and> \<not> isl r")
    case True
    then obtain d st2 nd2 st3 where s: "(if nd_depth nd1 \<noteq> 0 \<and> \<not> has_flag flags WALK_MORE
        then vf_put_link v nd1 st2 else (nd1, st2)) = (nd2, st3)" "vf_step_into v nd2 flags d st3 = (res, nd', st')" "\<not> isl r"
      by blast
    have l: "link_step res nd2 nd'" by (rule step_into_links [OF s(2)])
    have "comp_step (has_flag flags WALK_MORE) res nd1 nd'"
    proof (cases "nd_depth nd1 \<noteq> 0 \<and> \<not> has_flag flags WALK_MORE")
      case True
      then show ?thesis using popped_comp [OF put_link_pops l, of nd1 st2] s(1) by simp
    next
      case False
      then have "nd2 = nd1" using s(1) by (simp split: if_splits)
      then show ?thesis using l link_comp by blast
    qed
    then show ?thesis using q s(3) quiet_then_comp by simp
  next
    case False
    then obtain e where "res = Walk_err e" "nd' = nd1"
      using assms f unfolding walk_component_common_def
      by (auto simp: Let_def split: sum.splits prod.splits option.splits)
    then show ?thesis using q quiet_err link_comp by blast
  qed
qed

lemma fail_unlazy_quiet:
  assumes "fail_unlazy hk v e nd st = (res, nd', st')"
  shows "link_step res nd nd' \<and> (\<exists>e. res = Walk_err e)"
  using assms unlazy_quiet [of nd st] quiet_err
  by (auto simp: fail_unlazy_def split: if_splits prod.splits)

lemma hook_decide_links:
  assumes "hook_decide hk v nd rd st m = (r, nd', st', m')"
  shows "case r of Inl res \<Rightarrow> link_step res nd nd' \<and> (\<exists>e. res = Walk_err e) | Inr rd' \<Rightarrow> quiet_step True nd nd'"
  using assms fail_unlazy_quiet unlazy_quiet quiet_err
  by (fastforce simp: hook_decide_def Let_def split: if_splits prod.splits option.splits)

lemma apply_target_same:
  "namei_ext_apply_target hk v nd rd st = (e, nd', rd', st') \<Longrightarrow> same_links nd nd'"
  by (auto simp: namei_ext_apply_target_def Let_def same_links_def split: if_splits)

lemma redirected_comp:
  assumes "\<And>nd st res nd' st'. common nd st = (res, nd', st') \<Longrightarrow> comp_step stay res nd nd'"
    and "hook_redirected v common nd rd st = (res, nd', st')"
  shows "comp_step stay res nd nd'"
proof -
  have c: "comp_step stay r (n\<lparr>nd_last := q\<rparr>) (n'\<lparr>nd_last := q'\<rparr>)"
    if "comp_step stay r n n'" "q' = q" for r n n' q q'
    using that by (auto simp: comp_step_def stack_ok_def split: walk_res.splits)
  have u: "comp_step stay r nd (n'\<lparr>nd_last := nd_last nd\<rparr>)" if "common (nd\<lparr>nd_last := q\<rparr>) s = (r, n', s')" for r n' q s s'
    using c [OF assms(1) [OF that], of "nd_last nd" "nd_last nd"] by simp
  have e: "comp_step stay (Walk_err e) nd nd" for e by (rule link_comp [OF quiet_err]) simp
  show ?thesis
    using assms(2) u assms(1) e
    by (auto simp: hook_redirected_def namei_ext_apply_redirect_def namei_ext_hash_redirect_def Let_def
        split: if_splits prod.splits option.splits)
qed

lemma walk_namei_ext_comp:
  assumes "walk_component_namei_ext hk v nd flags rd st m = (res, nd', st', m')"
  shows "comp_step (has_flag flags WALK_MORE) res nd nd'"
proof -
  obtain r nd1 st1 m1 where d: "hook_decide hk v nd rd st m = (r, nd1, st1, m1)" by (metis prod_cases4)
  note q = hook_decide_links [OF d]
  show ?thesis
  proof (cases r)
    case (Inl r')
    then show ?thesis using assms d q link_comp by (auto simp: walk_component_namei_ext_def)
  next
    case (Inr rd1)
    then have q1: "quiet_step True nd nd1" using q by simp
    show ?thesis
    proof (cases "rd_target_active rd1")
      case True
      obtain e nd2 rd2 st2 where a: "namei_ext_apply_target hk v nd1 rd1 st1 = (e, nd2, rd2, st2)" by (metis prod_cases4)
      have "quiet_step True nd nd2" using quiet_trans [OF q1 same_links_quiet [OF apply_target_same [OF a], of True]] by simp
      moreover have "res = (case e of Some e \<Rightarrow> Walk_err e | None \<Rightarrow> Walk_done)" "nd' = nd2"
        using assms d Inr True a by (auto simp: walk_component_namei_ext_def)
      ultimately show ?thesis using quiet_err quiet_done link_comp by (cases e) auto
    next
      case False
      obtain s2 where "hook_redirected v (\<lambda>nd st. walk_component_common hk v nd flags st) nd1 rd1 st1 = (res, nd', s2)"
        using assms d Inr False by (auto simp: walk_component_namei_ext_def split: prod.splits)
      then have "comp_step (has_flag flags WALK_MORE) res nd1 nd'" by (rule redirected_comp [rotated]) (rule common_comp)
      then show ?thesis using q1 quiet_then_comp by blast
    qed
  qed
qed

lemma walk_component_comp:
  assumes "walk_component hk v nd flags rd st m = (res, nd', st', m')"
  shows "comp_step (has_flag flags WALK_MORE) res nd nd'"
proof (cases "nd_last_type nd = LAST_NORM")
  case True
  then show ?thesis
    using assms walk_namei_ext_comp common_comp
    by (auto simp: walk_component_def split: if_splits prod.splits)
next
  case False
  let ?pop = "nd_depth nd \<noteq> 0 \<and> \<not> has_flag flags WALK_MORE"
  obtain nd1 st1 where p: "(if ?pop then vf_put_link v nd st else (nd, st)) = (nd1, st1)" by fastforce
  obtain s2 where h: "vf_handle_dots v nd1 (nd_last_type nd1) st1 = (res, nd', s2)"
    using assms False p by (auto simp: walk_component_def split: prod.splits)
  then have l: "link_step res nd1 nd'" using handle_dots_quiet [OF h] quiet_err quiet_done by auto
  show ?thesis
  proof (cases ?pop)
    case True
    then show ?thesis using popped_comp [OF put_link_pops l, of nd st] p by simp
  next
    case False
    then have "nd1 = nd" using p by (simp split: if_splits)
    then show ?thesis using l link_comp by blast
  qed
qed

end

subsection \<open>The provider\<close>

lemma leave_rcu_same [simp]: "same_links nd (leave_rcu hk nd)"
  by (simp add: leave_rcu_def same_links_def)

lemma same_links_trans: "same_links a b \<Longrightarrow> same_links b c \<Longrightarrow> same_links a c"
  by (simp add: same_links_def)

lemma quiet_same: "quiet_step ok a b \<Longrightarrow> same_links b c \<Longrightarrow> quiet_step ok a c"
  by (auto simp: quiet_step_def same_links_def stack_ok_def)

lemma same_quiet: "same_links a b \<Longrightarrow> quiet_step ok b c \<Longrightarrow> quiet_step ok a c"
  by (auto simp: quiet_step_def same_links_def stack_ok_def)

lemma same_links_upd [simp]:
  "same_links nd (nd\<lparr>nd_path := p\<rparr>)" "same_links nd (nd\<lparr>nd_next_seq := s\<rparr>)"
  "same_links nd (nd\<lparr>nd_jumped := j\<rparr>)" "same_links nd (nd\<lparr>nd_flags := f\<rparr>)" "same_links nd (nd\<lparr>nd_root := p\<rparr>)"
  "same_links nd nd"
  by (simp_all add: same_links_def)

lemma quiet_upd [simp]:
  "quiet_step ok a (b\<lparr>nd_path := p\<rparr>) = quiet_step ok a b"
  "quiet_step ok a (b\<lparr>nd_next_seq := s\<rparr>) = quiet_step ok a b"
  "quiet_step ok a (b\<lparr>nd_seq := s\<rparr>) = quiet_step ok a b"
  "quiet_step ok a (b\<lparr>nd_inode := i\<rparr>) = quiet_step ok a b"
  "quiet_step ok a (b\<lparr>nd_jumped := j\<rparr>) = quiet_step ok a b"
  "quiet_step ok a (b\<lparr>nd_flags := f\<rparr>) = quiet_step ok a b"
  "quiet_step ok a (b\<lparr>nd_root := p\<rparr>) = quiet_step ok a b"
  "quiet_step ok a (b\<lparr>nd_root_grabbed := g\<rparr>) = quiet_step ok a b"
  "quiet_step ok a (leave_rcu hk b) = quiet_step ok a b"
  by (simp_all add: quiet_step_def stack_ok_def leave_rcu_def)

lemma quiet_upd_left [simp]:
  "quiet_step ok (a\<lparr>nd_path := p\<rparr>) b = quiet_step ok a b"
  "quiet_step ok (a\<lparr>nd_seq := s\<rparr>) b = quiet_step ok a b"
  "quiet_step ok (a\<lparr>nd_inode := i\<rparr>) b = quiet_step ok a b"
  "quiet_step ok (a\<lparr>nd_flags := f\<rparr>) b = quiet_step ok a b"
  "quiet_step ok (a\<lparr>nd_root := p\<rparr>) b = quiet_step ok a b"
  "quiet_step ok (a\<lparr>nd_next_seq := s\<rparr>) b = quiet_step ok a b"
  "quiet_step ok (a\<lparr>nd_jumped := j\<rparr>) b = quiet_step ok a b"
  by (simp_all add: quiet_step_def stack_ok_def)

lemma legitimize_stack_length:
  assumes "legitimize_stack pr mseq ss st = (ok, ss', st')"
  shows "length ss' \<le> length ss" "ok \<Longrightarrow> length ss' = length ss"
  using assms
  by (induction ss arbitrary: ss' st ok st') (auto simp: Let_def split: prod.splits if_splits)

lemma legitimize_links_quiet:
  assumes "legitimize_links pr nd st = (ok, nd', st')"
  shows "quiet_step ok nd nd'"
proof -
  obtain ss where s: "legitimize_stack pr (nd_m_seq nd) (take (nd_depth nd) (nd_stack nd)) st = (ok, ss, st')"
    "nd' = nd\<lparr>nd_stack := ss @ drop (length ss) (nd_stack nd), nd_depth := length ss\<rparr>"
    using assms by (auto simp: legitimize_links_def split: prod.splits)
  show ?thesis
    using legitimize_stack_length [OF s(1)] unfolding s(2) by (auto simp: quiet_step_def stack_ok_def)
qed

lemma legitimize_root_quiet: "legitimize_root pr nd st = (ok, nd', st') \<Longrightarrow> quiet_step ok' nd nd'"
  by (auto simp: legitimize_root_def split: if_splits prod.splits)

lemma depth_zero_quiet [simp]: "quiet_step False nd (nd\<lparr>nd_depth := 0\<rparr>)"
  by (simp add: quiet_step_def stack_ok_def)

lemma quiet_weaken: "quiet_step True a b \<Longrightarrow> quiet_step ok a b"
  "quiet_step ok a b \<Longrightarrow> quiet_step False a b"
  by (auto simp: quiet_step_def)

lemma try_to_unlazy_quiet:
  assumes "try_to_unlazy hk pr nd st = (ok, nd', st')"
  shows "quiet_step ok nd nd'"
proof -
  obtain l nd1 st1 where l: "(if nd_depth nd \<noteq> 0 then legitimize_links pr nd st else (True, nd, st)) = (l, nd1, st1)"
    by (metis prod_cases3)
  have q: "quiet_step l nd nd1" using l legitimize_links_quiet by (auto split: if_splits)
  obtain k p2 st2 where k: "legitimize_path pr (nd_path nd1) (nd_seq nd1) (nd_m_seq nd1) st1 = (k, p2, st2)" by (metis prod_cases3)
  obtain j nd3 st3 where j: "legitimize_root pr (nd1\<lparr>nd_path := p2\<rparr>) st2 = (j, nd3, st3)" by (metis prod_cases3)
  have q3: "quiet_step l nd nd3"
    using quiet_trans [OF q legitimize_root_quiet [OF j, of True, simplified]] by simp
  show ?thesis
    using assms l k j q q3 quiet_weaken
    by (auto simp: try_to_unlazy_def Let_def split: if_splits)
qed

lemma try_to_unlazy_next_quiet:
  assumes "try_to_unlazy_next hk pr nd dentry st = (ok, nd', st')"
  shows "quiet_step ok nd nd'"
proof -
  obtain l nd1 st1 where l: "(if nd_depth nd \<noteq> 0 then legitimize_links pr nd st else (True, nd, st)) = (l, nd1, st1)"
    by (metis prod_cases3)
  have q: "quiet_step l nd nd1" using l legitimize_links_quiet by (auto split: if_splits)
  have q3: "quiet_step l nd nd3" if "legitimize_root pr nd1 st2 = (j, nd3, st3)" for st2 j nd3 st3
    using quiet_trans [OF q legitimize_root_quiet [OF that, of True]] by simp
  show ?thesis
    using assms l q q3 quiet_weaken
    by (auto simp: try_to_unlazy_next_def Let_def split: if_splits prod.splits)
qed

lemma lookup_fast_tail_quiet: "lookup_fast_tail pr d status nd st = (r, nd', st') \<Longrightarrow> nd' = nd"
  by (auto simp: lookup_fast_tail_def split: reval.splits)

lemma lookup_fast_kernel_quiet:
  assumes "lookup_fast hk pr nd st = (r, nd', st')"
  shows "quiet_step (\<not> isl r) nd nd'"
proof (cases "rcu_walk hk nd")
  case False
  then have "nd' = nd"
    using assms lookup_fast_tail_quiet by (auto simp: lookup_fast_def Let_def split: prod.splits option.splits)
  then show ?thesis by simp
next
  case rcu: True
  show ?thesis
  proof (cases "do_d_lookup_rcu (we_dc pr) (p_dentry (nd_path nd)) (nd_last nd) st")
    case None
    then show ?thesis
      using assms rcu by (auto simp: lookup_fast_def dest!: try_to_unlazy_quiet split: prod.splits if_splits)
  next
    case (Some ds)
    obtain d seq where ds: "ds = (d, seq)" by fastforce
    have u: "quiet_step ok nd nd2" if "try_to_unlazy_next hk pr (nd\<lparr>nd_next_seq := seq\<rparr>) d st1 = (ok, nd2, st2)"
      for ok nd2 st1 st2
      using try_to_unlazy_next_quiet [OF that] by simp
    show ?thesis
      using assms rcu Some ds
      by (auto simp: lookup_fast_def Let_def dest!: u lookup_fast_tail_quiet intro: quiet_weaken
          split: prod.splits if_splits)
  qed
qed

lemma handle_mounts_ref_quiet:
  assumes "handle_mounts_ref pr nd path st = (e, path', nd', st')"
  shows "quiet_step True nd nd'"
proof -
  have "quiet_step True nd (nd\<lparr>nd_total_link_count := nd_total_link_count nd + n\<rparr>)" for n
    by (auto simp: quiet_step_def stack_ok_def)
  then show ?thesis using assms by (auto simp: handle_mounts_ref_def Let_def split: prod.splits if_splits)
qed

lemma handle_mounts_quiet:
  assumes "handle_mounts hk pr nd dentry st = (e, path', nd', st')"
  shows "quiet_step (e = None) nd nd'"
proof -
  have ref: "quiet_step ok nd nd3"
    if "quiet_step True nd nd1" "try_to_unlazy_next hk pr nd1 dentry st1 = (True, nd2, st2)"
      "handle_mounts_ref pr nd2 p st2 = (e', p', nd3, st3)" for ok nd1 nd2 nd3 st1 st2 st3 p e' p'
    using quiet_weaken(1) [OF quiet_trans [OF quiet_trans [OF that(1) try_to_unlazy_next_quiet [OF that(2)], simplified]
      handle_mounts_ref_quiet [OF that(3)], simplified]] .
  have fail: "quiet_step False nd nd2" if "quiet_step True nd nd1" "try_to_unlazy_next hk pr nd1 dentry st1 = (ok, nd2, st2)"
    for nd1 nd2 st1 st2 ok
    using quiet_weaken(2) [OF quiet_trans [OF that(1) try_to_unlazy_next_quiet [OF that(2)]]] .
  define nj where "nj j = (if j then nd\<lparr>nd_jumped := True\<rparr> else nd)" for j
  have nj: "quiet_step True nd (nj j)" for j by (simp add: nj_def)
  show ?thesis
    using assms nj unfolding handle_mounts_def Let_def nj_def [symmetric]
    by (auto split: prod.splits if_splits intro: quiet_weaken(1) [OF handle_mounts_ref_quiet] fail [OF nj] ref [OF nj])
qed

text \<open>Symbolic links.\<close>

lemma reserve_stack_quiet:
  assumes "reserve_stack hk pr nd link st = (e, link', nd', st')"
  shows "quiet_step (e = None) nd nd'"
    and "e = None \<Longrightarrow> nd_total_link_count nd < MAXSYMLINKS \<and> nd_total_link_count nd < nd_total_link_count nd'"
    and "e = None \<Longrightarrow> stack_ok nd \<Longrightarrow> nd_depth nd' < nd_total_link_count nd' \<and>
           nd_depth nd' < (if nd_stack_big nd' then MAXSYMLINKS else EMBEDDED_LEVELS)"
proof -
  let ?n = "nd\<lparr>nd_total_link_count := nd_total_link_count nd + 1\<rparr>"
  have n: "quiet_step True nd ?n" by (auto simp: quiet_step_def stack_ok_def)
  have u: "quiet_step ok ?n nd2" if "try_to_unlazy hk pr ?n st1 = (ok, nd2, st2)" for ok nd2 st1 st2
    using try_to_unlazy_quiet [OF that] .
  have f: "quiet_step False ?n nd2" if "try_to_unlazy hk pr ?n st1 = (ok, nd2, st2)" for ok nd2 st1 st2
    using u [OF that] quiet_weaken(2) by blast
  consider (fail) "e \<noteq> None" "quiet_step False ?n nd'"
    | (room) "e = None" "nd' = ?n" "nd_total_link_count nd < MAXSYMLINKS" "nd_depth nd \<noteq> EMBEDDED_LEVELS \<or> nd_stack_big nd"
    | (big) nd2 where "e = None" "quiet_step True ?n nd2" "nd' = nd2\<lparr>nd_stack_big := True\<rparr>" "nd_total_link_count nd < MAXSYMLINKS"
  proof (cases "nd_total_link_count nd \<ge> MAXSYMLINKS \<or> nd_depth nd \<noteq> EMBEDDED_LEVELS \<or> nd_stack_big nd")
    case True
    then show thesis
      using assms fail room unfolding reserve_stack_def Let_def by (auto split: if_splits)
  next
    case False
    obtain ok st1 where a: "lo_alloc_stack (we_lo pr) st = (ok, st1)" by fastforce
    obtain g l st2 where g: "legitimize_path pr link (nd_next_seq nd) (nd_m_seq nd) st1 = (g, l, st2)" by (metis prod_cases3)
    obtain k nd2 st3 where k: "try_to_unlazy hk pr ?n st2 = (k, nd2, st3)" by (metis prod_cases3)
    obtain ok' st4 where b: "lo_alloc_stack (we_lo pr) st3 = (ok', st4)" by fastforce
    have call: "(e, link', nd', st') =
        (if ok then (None, link, ?n\<lparr>nd_stack_big := True\<rparr>, st1)
         else if rcu_walk hk ?n
         then if \<not> k \<or> \<not> g then (Some ECHILD, l, nd2, st3)
              else if ok' then (None, l, nd2\<lparr>nd_stack_big := True\<rparr>, st4) else (Some ENOMEM, l, nd2, st4)
         else (Some ENOMEM, link, ?n, st1))"
      using False a g k b unfolding assms [symmetric] reserve_stack_def Let_def by simp
    have q2: "quiet_step k ?n nd2" "quiet_step False ?n nd2" using u [OF k] f [OF k] .
    have lim: "nd_total_link_count nd < MAXSYMLINKS" using False by simp
    consider "ok" | "\<not> ok" "\<not> rcu_walk hk ?n" | "\<not> ok" "rcu_walk hk ?n" "k" "g" "ok'"
      | "\<not> ok" "rcu_walk hk ?n" "\<not> (k \<and> g \<and> ok')" by blast
    then show thesis
    proof cases
      case 1
      then show thesis using big [OF _ quiet_refl _ lim] call by (simp only: if_True prod.inject)
    next
      case 2
      then have "e = Some ENOMEM" "nd' = ?n" using call by simp_all
      then show thesis using fail by simp
    next
      case 3
      then have "e = None" "nd' = nd2\<lparr>nd_stack_big := True\<rparr>" using call by simp_all
      then show thesis using big [OF _ _ _ lim] q2(1) 3 by simp
    next
      case 4
      then have "e \<noteq> None" "nd' = nd2" using call by (auto split: if_splits)
      then show thesis using fail q2(2) by simp
    qed
  qed
  note cs = this
  show "quiet_step (e = None) nd nd'"
    using cs
  proof cases
    case big
    then have "quiet_step True ?n nd'" by (auto simp: quiet_step_def stack_ok_def MAXSYMLINKS_def EMBEDDED_LEVELS_def)
    then show ?thesis using quiet_trans [OF n] big(1) by auto
  qed (use n quiet_trans [OF n] in auto)
  show "e = None \<Longrightarrow> nd_total_link_count nd < MAXSYMLINKS \<and> nd_total_link_count nd < nd_total_link_count nd'"
    using cs by cases (auto simp: quiet_step_def)
  show "e = None \<Longrightarrow> stack_ok nd \<Longrightarrow> nd_depth nd' < nd_total_link_count nd' \<and>
           nd_depth nd' < (if nd_stack_big nd' then MAXSYMLINKS else EMBEDDED_LEVELS)"
    using cs
  proof cases
    case big
    then show "stack_ok nd \<Longrightarrow> nd_depth nd' < nd_total_link_count nd' \<and>
           nd_depth nd' < (if nd_stack_big nd' then MAXSYMLINKS else EMBEDDED_LEVELS)"
      using n by (auto simp: quiet_step_def stack_ok_def)
  qed (auto simp: stack_ok_def split: if_splits)
qed

lemma push_link_step:
  assumes "stack_ok nd" "nd_depth nd < nd_total_link_count nd"
    "nd_depth nd < (if nd_stack_big nd then MAXSYMLINKS else EMBEDDED_LEVELS)"
  shows "stack_ok (push_link link nd)" "nd_depth (push_link link nd) = Suc (nd_depth nd)"
  using assms by (auto simp: push_link_def stack_ok_def)

lemma push_link_fields [simp]:
  "nd_last (push_link link nd) = nd_last nd" "nd_total_link_count (push_link link nd) = nd_total_link_count nd"
  by (simp_all add: push_link_def)

lemma set_root_quiet: "set_root hk pr nd st = (e, nd', st') \<Longrightarrow> same_links nd nd'"
  by (auto simp: set_root_def Let_def same_links_def split: if_splits)

lemma jump_root_same:
  assumes "nd_jump_root hk pr nd st = (e, nd', st')"
  shows "same_links nd nd'"
  using assms set_root_quiet [of hk pr nd st]
  by (auto simp: nd_jump_root_def Let_def same_links_def split: if_splits prod.splits option.splits)

lemma jump_link_same: "nd_jump_link hk pr path nd st = (e, nd', st') \<Longrightarrow> same_links nd nd'"
  by (auto simp: nd_jump_link_def same_links_def split: if_splits)

lemma get_link_same: "get_link hk pr d i nd st = (r, nd', st') \<Longrightarrow> same_links nd nd'"
  by (auto simp: get_link_def dest: jump_link_same split: prod.splits link_ans.splits option.splits)

lemma link_body_quiet:
  assumes "link_body hk pr link inode nd st = (r, nd', st')"
  shows "quiet_step (\<not> isl r) nd nd'"
proof (cases "lo_i_link (we_lo pr) inode st")
  case (Some b)
  then show ?thesis using assms by (auto simp: link_body_def)
next
  case None
  obtain g nd1 st1 where g: "get_link hk pr None inode nd st = (g, nd1, st1)" by (metis prod_cases3)
  have q1: "quiet_step ok nd nd1" for ok by (rule same_links_quiet [OF get_link_same [OF g]])
  have direct: "quiet_step ok nd nd'" if "get_link hk pr d inode nd st = (r, nd', st')" for ok d
    by (rule same_links_quiet [OF get_link_same [OF that]])
  obtain ok nd2 st2 where t: "try_to_unlazy hk pr nd1 st1 = (ok, nd2, st2)" by (metis prod_cases3)
  have q2: "quiet_step ok nd nd2" using quiet_trans [OF q1 [of True] try_to_unlazy_quiet [OF t]] by simp
  have q3: "quiet_step ok nd nd'" if "get_link hk pr d inode nd2 st2 = (r, nd', st')" for d
    using quiet_same [OF q2 get_link_same [OF that]] .
  show ?thesis
    using assms None g t direct q1 q2 q3
    by (auto simp: link_body_def Let_def intro: quiet_weaken split: if_splits)
qed

text \<open>From the push to the end of \<open>pick_link\<close>.\<close>

lemma put_link_same: "put_link hk pr nd st = (nd', st') \<Longrightarrow> same_links (nd\<lparr>nd_depth := nd_depth nd - 1\<rparr>) nd'"
  by (auto simp: put_link_def Let_def same_links_def)

lemma pick_body_links:
  assumes "pick_body hk pr body nd st = (res, nd', st')"
  shows "(\<exists>e. res = Walk_err e) \<and> same_links nd nd' \<or>
    (\<exists>b. res = Walk_link b \<and> b \<noteq> [] \<and> hd b \<noteq> CHR ''/'') \<and> same_links nd nd' \<or>
    res = Walk_done \<and> same_links (nd\<lparr>nd_depth := nd_depth nd - 1\<rparr>) nd'"
proof -
  have popd: "same_links (a\<lparr>nd_depth := nd_depth a - 1\<rparr>) c"
    if "same_links a b" "put_link hk pr b s = (c, s')" for a b c s s'
    using that put_link_same [OF that(2)] by (simp add: same_links_def)
  have hd: "hd (dropWhile (\<lambda>c. c = CHR ''/'') b) \<noteq> CHR ''/''" if "dropWhile (\<lambda>c. c = CHR ''/'') b \<noteq> []" for b
    using hd_dropWhile [OF that] .
  have refl: "same_links a a" for a by simp
  show ?thesis
  proof (cases body)
    case None
    then show ?thesis using assms popd [OF refl] by (auto simp: pick_body_def split: prod.splits)
  next
    case (Some b)
    obtain e nd1 st1 where j: "(if b \<noteq> [] \<and> hd b = CHR ''/'' then nd_jump_root hk pr nd st else (None, nd, st)) = (e, nd1, st1)"
      by (metis prod_cases3)
    have s: "same_links nd nd1" using j jump_root_same [of hk pr nd st] by (auto split: if_splits)
    let ?b = "dropWhile (\<lambda>c. c = CHR ''/'') b"
    obtain nd2 st2 where p: "put_link hk pr nd1 st1 = (nd2, st2)" by fastforce
    have "(res, nd', st') = (case e of Some x \<Rightarrow> (Walk_err x, nd1, st1)
        | None \<Rightarrow> if ?b \<noteq> [] then (Walk_link ?b, nd1, st1) else (Walk_done, nd2, st2))"
      unfolding assms [symmetric] Some pick_body_def Let_def option.case j prod.case p by simp
    then show ?thesis
      using s popd [OF s p] hd [of b] by (cases e) (simp_all split: if_splits)
  qed
qed

definition follow_step :: "walk_res \<Rightarrow> nameidata \<Rightarrow> nameidata \<Rightarrow> bool" where
  "follow_step res nd nd' \<longleftrightarrow>
     nd_last nd' = nd_last nd \<and> nd_total_link_count nd \<le> nd_total_link_count nd' \<and>
     (\<forall>b. res = Walk_link b \<longrightarrow> b \<noteq> [] \<and> hd b \<noteq> CHR ''/'') \<and> res \<noteq> Walk_retrying \<and>
     (stack_ok nd \<longrightarrow> stack_ok nd' \<and>
        (case res of Walk_done \<Rightarrow> nd_depth nd' = nd_depth nd - 1
         | Walk_link b \<Rightarrow> nd_depth nd' = nd_depth nd | _ \<Rightarrow> True))"

lemma pick_body_follow:
  assumes "quiet_step True nd nd1" "pick_body hk pr body nd1 st = (res, nd', st')"
  shows "follow_step res nd nd'"
  using assms(1) pick_body_links [OF assms(2)]
  by (auto simp: follow_step_def quiet_step_def same_links_def stack_ok_def)

lemma quiet_follow: "quiet_step ok nd nd' \<Longrightarrow> follow_step (Walk_err e) nd nd'"
  by (simp add: follow_step_def quiet_step_def)

lemma follow_link_step:
  assumes "follow_link hk pr link inode flags nd st = (res, nd', st')"
  shows "follow_step res nd nd'"
proof -
  obtain e st1 where e: "(if has_flag flags WALK_TRAILING then lo_may_follow_link (we_lo pr) nd inode st else (None, st)) = (e, st1)"
    by fastforce
  show ?thesis
  proof (cases "e \<noteq> None \<or> has_flag (nd_flags nd) (wf_no_symlinks (we_fl pr)) \<or> mo_nosymfollow (we_mo pr) (p_mnt link)")
    case True
    then have "nd' = nd \<and> (\<exists>x. res = Walk_err x)"
      using assms e unfolding follow_link_def by (auto split: option.splits)
    then show ?thesis using quiet_follow [of True nd nd] by auto
  next
    case False
    let ?top = "sv_link (last (nd_stack nd))"
    define w where "w = (if lo_atime_needs_update (we_lo pr) ?top inode st1 then
        let (ok, nd, st) = (if rcu_walk hk nd then try_to_unlazy hk pr nd st1 else (True, nd, st1))
        in if ok then (True, nd, lo_touch_atime (we_lo pr) (sv_link (last (nd_stack nd))) st) else (False, nd, st)
      else (True, nd, st1))"
    obtain ok nd2 st2 where u: "w = (ok, nd2, st2)" by (cases w)
    have q: "quiet_step ok nd nd2"
      using u try_to_unlazy_quiet [of hk pr nd st1] unfolding w_def by (auto split: if_splits prod.splits)
    obtain r nd3 st3 where b: "link_body hk pr link inode nd2 st2 = (r, nd3, st3)" by (metis prod_cases3)
    have q3: "quiet_step (ok \<and> \<not> isl r) nd nd3" using quiet_trans [OF q link_body_quiet [OF b]] .
    have call: "(res, nd', st') =
      (if \<not> ok then (Walk_err ECHILD, nd2, st2)
       else case lo_security_follow_link (we_lo pr) (p_dentry link) inode (rcu_walk hk nd2) st2 of
              Some e \<Rightarrow> (Walk_err e, nd2, st2)
            | None \<Rightarrow> (case r of Inl e \<Rightarrow> (Walk_err e, nd3, st3) | Inr body \<Rightarrow> pick_body hk pr body nd3 st3))"
      using False unfolding assms [symmetric] follow_link_def e prod.case Let_def [of "(e, st1)"]
        w_def [symmetric] u by (simp add: b split: option.split)
    show ?thesis
      using call q q3 quiet_follow pick_body_follow [of nd nd3 hk pr _ st3 res nd' st']
      by (auto split: if_splits option.splits sum.splits)
  qed
qed

lemma pick_link_step:
  assumes "pick_link hk pr nd link inode flags st = (res, nd', st')"
  shows "link_step res nd nd'"
proof (cases "rcu_walk hk nd \<and> do_seq_retry (we_dc pr) (p_dentry link) (nd_next_seq nd) st")
  case True
  then show ?thesis using assms quiet_err [of True nd nd] by (auto simp: pick_link_def)
next
  case False
  let ?st = "if \<not> rcu_walk hk nd \<and> p_mnt link = p_mnt (nd_path nd) then mo_mntget (we_mo pr) (p_mnt link) st else st"
  obtain e link1 nd1 st1 where r: "reserve_stack hk pr nd link ?st = (e, link1, nd1, st1)" by (metis prod_cases4)
  note q = reserve_stack_quiet [OF r]
  show ?thesis
  proof (cases e)
    case (Some x)
    then have "res = Walk_err x \<and> nd' = nd1" using assms False r unfolding pick_link_def Let_def by auto
    then show ?thesis using q(1) quiet_err by auto
  next
    case None
    have "follow_link hk pr link1 inode flags (push_link link1 nd1) st1 = (res, nd', st')"
      using assms False r None unfolding pick_link_def Let_def by simp
    from follow_link_step [OF this] have f: "follow_step res (push_link link1 nd1) nd'" .
    show ?thesis
      using f q None push_link_step [of nd1 link1]
      by (auto simp: follow_step_def link_step_def quiet_step_def split: walk_res.splits)
  qed
qed

lemma step_into_kernel:
  assumes "step_into hk pr nd flags dentry st = (res, nd', st')"
  shows "link_step res nd nd'"
proof -
  have slow: "link_step res nd nd'" if s: "step_into_slowpath hk pr nd flags dentry st = (res, nd', st')"
  proof -
    obtain e path nd1 st1 where h: "handle_mounts hk pr nd dentry st = (e, path, nd1, st1)" by (metis prod_cases4)
    note q = handle_mounts_quiet [OF h]
    let ?moved = "nd1\<lparr>nd_path := path, nd_inode := do_d_inode (we_dc pr) (p_dentry path), nd_seq := nd_next_seq nd1\<rparr>"
    have "(\<exists>x. res = Walk_err x) \<and> nd' = nd1 \<or> e = None \<and> res = Walk_done \<and> nd' = ?moved \<or>
      e = None \<and> (\<exists>i. pick_link hk pr nd1 path i flags st1 = (res, nd', st'))"
      using s h unfolding step_into_slowpath_def Let_def by (auto split: option.splits if_splits)
    then show ?thesis
      using q quiet_err quiet_done [of nd ?moved] quiet_then_link [OF _ pick_link_step] by auto
  qed
  show ?thesis
    using assms slow quiet_err [of True nd nd] quiet_done
    by (auto simp: step_into_def Let_def split: if_splits)
qed

text \<open>Dots follow no link.\<close>

lemma step_into_nofollow:
  assumes "step_into hk pr nd WALK_NOFOLLOW dentry st = (res, nd', st')"
  shows "res = Walk_done \<or> (\<exists>e. res = Walk_err e)"
  using assms
  by (auto simp: step_into_def step_into_slowpath_def Let_def has_flag_def WALK_NOFOLLOW_def WALK_TRAILING_def
      split: if_splits prod.splits option.splits)

lemma follow_dotdot_rcu_same: "follow_dotdot_rcu hk pr nd st = (r, nd') \<Longrightarrow> same_links nd nd'"
  by (auto simp: follow_dotdot_rcu_def Let_def same_links_def split: if_splits prod.splits option.splits)

lemma follow_dotdot_same: "follow_dotdot hk pr nd st = (r, nd', st') \<Longrightarrow> same_links nd nd'"
  by (auto simp: follow_dotdot_def Let_def same_links_def split: if_splits prod.splits option.splits)

lemma handle_dots_kernel:
  assumes "handle_dots hk pr nd type st = (res, nd', st')"
  shows "quiet_step (res = Walk_done) nd nd' \<and> (res = Walk_done \<or> (\<exists>e. res = Walk_err e))"
proof (cases "type = LAST_DOTDOT")
  case False
  then show ?thesis using assms by (simp add: handle_dots_def)
next
  case True
  obtain e nd1 st1 where e: "(if p_mnt (nd_root nd) = 0 then set_root hk pr nd st else (None, nd, st)) = (e, nd1, st1)"
    by (metis prod_cases3)
  have s1: "same_links nd nd1" using e set_root_quiet [of hk pr nd st] by (auto split: if_splits)
  obtain p nd2 st2 where p: "(if rcu_walk hk nd1 then let (p, nd) = follow_dotdot_rcu hk pr nd1 st1 in (p, nd, st1)
      else follow_dotdot hk pr nd1 st1) = (p, nd2, st2)" by (metis prod_cases3)
  have s2: "same_links nd1 nd2"
    using p follow_dotdot_rcu_same [of hk pr nd1 st1] follow_dotdot_same [of hk pr nd1 st1]
    by (auto split: if_splits prod.splits)
  have q2: "quiet_step ok nd nd2" for ok by (rule same_links_quiet [OF same_links_trans [OF s1 s2]])
  show ?thesis
  proof (cases "e = None \<and> \<not> isl p")
    case False
    then have "(\<exists>x. res = Walk_err x) \<and> (nd' = nd1 \<or> nd' = nd2)"
      using assms True unfolding handle_dots_def Let_def e prod.case p [unfolded Let_def] by (auto split: option.splits sum.splits)
    then show ?thesis using q2 same_links_quiet [OF s1] by auto
  next
    case ok: True
    then obtain d where d: "p = Inr d" by (cases p) auto
    obtain r nd3 st3 where r: "step_into hk pr nd2 WALK_NOFOLLOW d st2 = (r, nd3, st3)" by (metis prod_cases3)
    have l: "link_step r nd2 nd3" "r = Walk_done \<or> (\<exists>x. r = Walk_err x)"
      using step_into_kernel [OF r] step_into_nofollow [OF r] by auto
    have "quiet_step (r = Walk_done) nd2 nd3" using l by (auto simp: link_step_def quiet_step_def)
    then have q3: "quiet_step (r = Walk_done) nd nd3" using quiet_trans [OF q2 [of True]] by simp
    have "nd' = nd3 \<and> (res = r \<or> r = Walk_done \<and> res = Walk_err EAGAIN)"
      using assms True ok unfolding handle_dots_def Let_def e prod.case p [unfolded Let_def]
      by (auto simp: d r split: if_splits)
    then show ?thesis using q3 l(2) quiet_weaken(2) by auto
  qed
qed

interpretation kernel: walk_vfs "kernel_vfs hk pr" for hk :: "'m hook" and pr
proof
  show "vf_lookup_fast (kernel_vfs hk pr) nd st = (r, nd', st') \<Longrightarrow> quiet_step (\<not> isl r) nd nd'" for nd st r nd' st'
    using lookup_fast_kernel_quiet by (simp add: kernel_vfs_def)
  show "vf_try_to_unlazy (kernel_vfs hk pr) nd st = (ok, nd', st') \<Longrightarrow> quiet_step ok nd nd'" for nd st ok nd' st'
    using try_to_unlazy_quiet by (simp add: kernel_vfs_def)
  show "vf_put_link (kernel_vfs hk pr) nd st = (nd', st') \<Longrightarrow> same_links (nd\<lparr>nd_depth := nd_depth nd - 1\<rparr>) nd'" for nd st nd' st'
    using put_link_same by (simp add: kernel_vfs_def)
  show "vf_handle_dots (kernel_vfs hk pr) nd t st = (res, nd', st') \<Longrightarrow>
      quiet_step (res = Walk_done) nd nd' \<and> (res = Walk_done \<or> (\<exists>e. res = Walk_err e))" for nd t st res nd' st'
    using handle_dots_kernel by (simp add: kernel_vfs_def)
  show "vf_step_into (kernel_vfs hk pr) nd fl d st = (res, nd', st') \<Longrightarrow> link_step res nd nd'" for nd fl d st res nd' st'
    using step_into_kernel by (simp add: kernel_vfs_def)
  show "vf_lookup_open (kernel_vfs hk pr) nd fl w st = (ores, nd', st') \<Longrightarrow> nd' = nd" for nd fl w st ores nd' st'
    by (simp add: kernel_vfs_def split: prod.splits)
qed

end
