(* ===== verification/Path_Walk.thy ===== *)
theory Path_Walk
  imports Link_Stack
begin

text \<open>
  Whole paths: \<open>link_path_walk\<close> with its symbolic links, and the lookups built on it, with the
  hook in every component. The saved remainders \<open>nd->stack[i].name\<close> are the list \<open>names\<close>, top
  first, so the local \<open>depth\<close> is its length.
\<close>

subsection \<open>One component name\<close>

definition may_lookup :: "'m hook \<Rightarrow> walk_env \<Rightarrow> nameidata \<Rightarrow> kstate \<Rightarrow> errno option \<times> nameidata \<times> kstate" where
  "may_lookup hk pr nd st =
     (let may_exec = lo_may_exec (we_lo pr) (p_mnt (nd_path nd));
          (err, st) = may_exec (nd_inode nd) (rcu_walk hk nd) st
      in case err of
           None \<Rightarrow> (None, nd, st)
         | Some e \<Rightarrow>
             if \<not> rcu_walk hk nd then (Some e, nd, st)
             else
               let (ok, nd, st) = try_to_unlazy hk pr nd st in
               if \<not> ok then (Some ECHILD, nd, st)
               else if e \<noteq> ECHILD then (Some e, nd, st)
               else let (err, st) = may_exec (nd_inode nd) False st in (err, nd, st))"

text \<open>
  The byte-at-a-time \<open>hash_name\<close>. \<open>lastword\<close> shifts the bytes of the component through a machine
  word; the name is followed by its terminator.
\<close>

definition LAST_WORD_IS_DOT :: u64 where "LAST_WORD_IS_DOT = 0x2e"

definition LAST_WORD_IS_DOTDOT :: u64 where "LAST_WORD_IS_DOTDOT = 0x2e2e"

definition component :: "bytes \<Rightarrow> bytes" where
  "component name = hd name # takeWhile (\<lambda>c. c \<noteq> CHR ''/'') (tl name)"

definition lastword :: "bytes \<Rightarrow> u64" where
  "lastword cs = fold (\<lambda>c last. push_bit 8 last + of_char c) cs 0"

definition hash_name :: "'m hook \<Rightarrow> nameidata \<Rightarrow> bytes \<Rightarrow> nameidata \<times> u64 \<times> bytes" where
  "hash_name hk nd name =
     (let len = length (component name)
      in (nd\<lparr>nd_last := \<lparr>q_name = name @ [NUL], q_len = of_nat len,
                         q_hash = hk_fnh hk (p_dentry (nd_path nd)) name (of_nat len)\<rparr>\<rparr>,
          lastword (component name), drop len name))"

text \<open>The \<open>switch\<close> of \<open>link_path_walk\<close>.\<close>

definition classify_last ::
  "'m hook \<Rightarrow> walk_env \<Rightarrow> u64 \<Rightarrow> nameidata \<Rightarrow> errno option \<times> nameidata" where
  "classify_last hk pr word nd =
     (if word = LAST_WORD_IS_DOTDOT then (None, nd\<lparr>nd_last_type := LAST_DOTDOT, nd_jumped := True\<rparr>)
      else if word = LAST_WORD_IS_DOT then (None, nd\<lparr>nd_last_type := LAST_DOT\<rparr>)
      else
        let nd = nd\<lparr>nd_last_type := LAST_NORM, nd_jumped := False\<rparr>; parent = p_dentry (nd_path nd) in
        if do_op_hash (we_dc pr) parent
        then let (err, q) = do_d_hash (we_dc pr) parent (nd_last nd) in (err, nd\<lparr>nd_last := q\<rparr>)
        else (None, nd))"

definition skip_slashes :: "bytes \<Rightarrow> bytes" where
  "skip_slashes name = dropWhile (\<lambda>c. c = CHR ''/'') name"

text \<open>
  Among names without a NUL byte, the two words identify the two dots: of a longer name, an
  earlier byte is left in the word or the bytes are shifted out above one that is not zero.
\<close>

lemma unat_of_char: "unat (of_char c :: u64) = of_char c"
proof -
  have "(of_char c :: nat) < 256" by simp
  then have "(of_char c :: nat) mod 2 ^ 64 = of_char c" by (rule mod_less [OF order.strict_trans]) simp
  moreover have "unat (of_char c :: u64) = unat (of_nat (of_char c) :: u64)" by (simp only: of_nat_of_char)
  ultimately show ?thesis by (simp add: unat_of_nat)
qed

lemma unat_lastword_snoc:
  "unat (lastword (cs @ [c])) = (256 * unat (lastword cs) + of_char c) mod 2 ^ 64"
  by (simp add: lastword_def unat_word_ariths push_bit_eq_mult mult.commute mod_simps unat_of_char)

lemma lastword_split:
  "unat (lastword (cs @ [c])) mod 256 = of_char c" "unat (lastword (cs @ [c])) div 256 = unat (lastword cs) mod 2 ^ 56"
proof -
  have "(256 * n + k) mod 2 ^ 64 = 256 * (n mod 2 ^ 56) + k" if "k < 256" for n k :: nat
    using that mod_mult2_eq [of "256 * n + k" 256 "2 ^ 56"] by simp
  then have "unat (lastword (cs @ [c])) = 256 * (unat (lastword cs) mod 2 ^ 56) + of_char c"
    unfolding unat_lastword_snoc by simp
  then show "unat (lastword (cs @ [c])) mod 256 = of_char c"
    "unat (lastword (cs @ [c])) div 256 = unat (lastword cs) mod 2 ^ 56" by simp_all
qed

lemma lastword_ne:
  assumes "NUL \<notin> set cs" "cs \<noteq> []"
  shows "unat (lastword cs) mod 256 \<noteq> 0"
proof -
  obtain xs c where cs: "cs = xs @ [c]" using assms(2) by (metis rev_exhaust)
  then have "c \<noteq> NUL" using assms(1) by auto
  then have "(of_char c :: nat) \<noteq> 0" using of_char_eq_iff [of c NUL, where 'a = nat] by (simp del: of_char_eq_iff)
  then show ?thesis using cs lastword_split by metis
qed

lemma low_zero: "(n :: nat) mod 2 ^ 56 = 0 \<Longrightarrow> n mod 256 = 0"
  using mod_mod_cancel [of 256 "2 ^ 56" n] by simp

lemma lastword_dot:
  assumes "NUL \<notin> set cs" "cs \<noteq> []"
  shows "lastword cs = 0x2e \<longleftrightarrow> cs = ''.''"
proof
  assume w: "lastword cs = 0x2e"
  obtain xs c where cs: "cs = xs @ [c]" using assms(2) by (metis rev_exhaust)
  have "of_char c = (46 :: nat)" "unat (lastword xs) mod 2 ^ 56 = 0"
    using lastword_split [of xs c] w unfolding cs by simp_all
  moreover have "xs = []" using calculation(2) lastword_ne [of xs] low_zero assms(1) cs by auto
  moreover have "c = CHR ''.''" using calculation(1) of_char_eq_iff [of c "CHR ''.''", where 'a = nat] by simp
  ultimately show "cs = ''.''" using cs by simp
qed (simp add: lastword_def)

lemma lastword_dotdot:
  assumes "NUL \<notin> set cs" "cs \<noteq> []"
  shows "lastword cs = 0x2e2e \<longleftrightarrow> cs = ''..''"
proof
  assume w: "lastword cs = 0x2e2e"
  obtain xs c where cs: "cs = xs @ [c]" using assms(2) by (metis rev_exhaust)
  have c: "of_char c = (46 :: nat)" "unat (lastword xs) mod 2 ^ 56 = 46"
    using lastword_split [of xs c] w unfolding cs by simp_all
  have "xs \<noteq> []" using c(2) by (auto simp: lastword_def)
  then obtain ys d where xs: "xs = ys @ [d]" by (metis rev_exhaust)
  have m: "unat (lastword xs) mod 2 ^ 56 mod 256 = unat (lastword xs) mod 256"
    "unat (lastword xs) mod 2 ^ 56 div 256 = unat (lastword xs) div 256 mod 2 ^ 48"
    using mod_mult2_eq [of "unat (lastword xs)" 256 "2 ^ 48"] by simp_all
  have "of_char d = (46 :: nat)" "unat (lastword ys) mod 2 ^ 56 mod 2 ^ 48 = 0"
    using m c(2) lastword_split [of ys d] unfolding xs by simp_all
  moreover have "ys = []"
  proof (rule ccontr)
    assume "ys \<noteq> []"
    then have "unat (lastword ys) mod 256 \<noteq> 0" using lastword_ne [of ys] assms(1) cs xs by auto
    moreover have "unat (lastword ys) mod 256 = unat (lastword ys) mod 2 ^ 56 mod 2 ^ 48 mod 256"
      by (simp add: mod_mod_cancel)
    ultimately show False using \<open>unat (lastword ys) mod 2 ^ 56 mod 2 ^ 48 = 0\<close> by simp
  qed
  ultimately show "cs = ''..''"
    using cs xs c(1) of_char_eq_iff [of c "CHR ''.''", where 'a = nat] of_char_eq_iff [of d "CHR ''.''", where 'a = nat]
    by simp
qed (simp add: lastword_def)
subsection \<open>Walking a path\<close>

text \<open>
  A configuration of the loop: the saved names, the current one, the walk and the state. One
  round ends the walk or leads to the next configuration. \<open>junk\<close> is the content of the redirect
  record on the stack, which the hook finds uninitialised.
\<close>

type_synonym 'm walk_cfg = "bytes list \<times> bytes \<times> nameidata \<times> kstate \<times> 'm"

type_synonym 'm walk_end = "errno option \<times> nameidata \<times> kstate \<times> 'm"

definition after_component ::
  "'m hook \<Rightarrow> walk_env \<Rightarrow> bytes list \<Rightarrow> bytes \<Rightarrow> walk_res \<times> nameidata \<times> kstate \<times> 'm \<Rightarrow>
     'm walk_end + 'm walk_cfg" where
  "after_component hk pr names name = (\<lambda>(link, nd, st, m).
     case link of
       Walk_err e \<Rightarrow> Inl (Some e, nd, st, m)
     | Walk_link body \<Rightarrow> Inr (name # names, body, nd, st, m)
     | _ \<Rightarrow>
         if \<not> do_d_can_lookup (we_dc pr) (p_dentry (nd_path nd)) then
           (if rcu_walk hk nd then
              let (ok, nd, st) = try_to_unlazy hk pr nd st
              in Inl (Some (if \<not> ok then ECHILD else ENOTDIR), nd, st, m)
            else Inl (Some ENOTDIR, nd, st, m))
         else Inr (names, name, nd, st, m))"

definition walk_round ::
  "'m hook \<Rightarrow> walk_env \<Rightarrow> (nameidata \<Rightarrow> namei_ext_redirect) \<Rightarrow> 'm walk_cfg \<Rightarrow> 'm walk_end + 'm walk_cfg" where
  "walk_round hk pr junk = (\<lambda>(names, name, nd, st, m).
     let (err, nd, st) = may_lookup hk pr nd st in
     case err of
       Some e \<Rightarrow> Inl (Some e, nd, st, m)
     | None \<Rightarrow>
         let (nd, word, name) = hash_name hk nd name;
             (err, nd) = classify_last hk pr word nd
         in
         case err of
           Some e \<Rightarrow> Inl (Some e, nd, st, m)
         | None \<Rightarrow>
             let name = skip_slashes name; v = kernel_vfs hk pr in
             if name = [] then
               (case names of
                  [] \<Rightarrow> Inl (None, nd\<lparr>nd_dir := map_option (Pair (p_mnt (nd_path nd))) (nd_inode nd),
                                     nd_flags := nd_flags nd AND NOT (wf_parent (we_fl pr))\<rparr>, st, m)
                | name # names \<Rightarrow> after_component hk pr names name (walk_component hk v nd 0 (junk nd) st m))
             else after_component hk pr names name (walk_component hk v nd WALK_MORE (junk nd) st m))"

text \<open>
  Every round uses up the current component; a link adds a name, but counts towards the
  limit. So the loop ends, whatever the bodies of the links and the answers of the policies.
\<close>

definition pending_bytes :: "'m walk_cfg \<Rightarrow> nat" where
  "pending_bytes = (\<lambda>(names, name, nd, st, m). sum_list (map (\<lambda>n. Suc (length n)) (name # names)))"

definition links_left :: "'m walk_cfg \<Rightarrow> nat" where
  "links_left = (\<lambda>(names, name, nd, st, m). MAXSYMLINKS - nd_total_link_count nd)"

lemma may_lookup_quiet:
  assumes "may_lookup hk pr nd st = (e, nd', st')"
  shows "quiet_step (e = None) nd nd'"
  using assms
  by (auto simp: may_lookup_def Let_def dest!: try_to_unlazy_quiet intro: quiet_weaken
      split: prod.splits option.splits if_splits)

lemma hash_name_fields:
  assumes "hash_name hk nd name = (nd', w, rest)"
  shows "nd' = nd\<lparr>nd_last := nd_last nd'\<rparr>" "length rest \<le> length name - 1"
  using assms by (auto simp: hash_name_def Let_def component_def)

lemma classify_last_fields:
  assumes "classify_last hk pr w nd = (e, nd')"
  shows "nd_total_link_count nd' = nd_total_link_count nd" "stack_ok nd' = stack_ok nd" "nd_depth nd' = nd_depth nd"
    "nd_path nd' = nd_path nd"
  using assms by (auto simp: classify_last_def Let_def stack_ok_def split: if_splits prod.splits)

lemma skip_slashes_length: "length (skip_slashes name) \<le> length name"
  by (simp add: skip_slashes_def length_dropWhile_le)

text \<open>A round that goes on, opened up.\<close>

lemma walk_round_next:
  assumes "walk_round hk pr junk (names, name, nd, st, m) = Inr (names', name', nd', st', m')"
  obtains nd1 res ns n where
    "nd_total_link_count nd \<le> nd_total_link_count nd1" "stack_ok nd \<Longrightarrow> stack_ok nd1 \<and> nd_depth nd1 = nd_depth nd"
    "sum_list (map (\<lambda>n. Suc (length n)) (n # ns)) < sum_list (map (\<lambda>n. Suc (length n)) (name # names))"
    "n # ns = skip_slashes (drop (length (component name)) name) # names \<and> n \<noteq> [] \<or>
     n # ns = names"
    "comp_step (n # ns \<noteq> names) res nd1 nd'"
    "res = Walk_done \<and> names' = ns \<and> name' = n \<or> (\<exists>b. res = Walk_link b \<and> names' = n # ns \<and> name' = b)"
proof -
  obtain e nd2 st2 where l: "may_lookup hk pr nd st = (e, nd2, st2)" by (metis prod_cases3)
  obtain nd3 w rest where h: "hash_name hk nd2 name = (nd3, w, rest)" by (metis prod_cases3)
  obtain e' nd4 where c: "classify_last hk pr w nd3 = (e', nd4)" by fastforce
  have en: "e = None" "e' = None" using assms l h c by (auto simp: walk_round_def split: option.splits)
  note hf = hash_name_fields [OF h] and cf = classify_last_fields [OF c]
  have rest: "rest = drop (length (component name)) name" using h by (auto simp: hash_name_def Let_def)
  have q: "quiet_step True nd nd2" using may_lookup_quiet [OF l] en by simp
  have n3: "nd_total_link_count nd3 = nd_total_link_count nd2" "stack_ok nd3 = stack_ok nd2" "nd_depth nd3 = nd_depth nd2"
    by (subst hf(1), simp add: stack_ok_def)+
  have n4: "nd_total_link_count nd \<le> nd_total_link_count nd4" "stack_ok nd \<Longrightarrow> stack_ok nd4 \<and> nd_depth nd4 = nd_depth nd"
    using q n3 cf by (auto simp: quiet_step_def)
  have after: "res = Walk_done \<and> names' = ns \<and> name' = n \<and> nd' = nd5 \<or>
      (\<exists>b. res = Walk_link b \<and> names' = n # ns \<and> name' = b \<and> nd' = nd5)"
    if "after_component hk pr ns n (res, nd5, st5, m5) = Inr (names', name', nd', st', m')" "res \<noteq> Walk_retrying" for ns n res nd5 st5 m5
    using that by (auto simp: after_component_def Let_def split: walk_res.splits if_splits prod.splits)
  let ?rest = "skip_slashes rest"
  show thesis
  proof (cases "?rest = []")
    case False
    obtain res nd5 st5 m5 where w: "walk_component hk (kernel_vfs hk pr) nd4 WALK_MORE (junk nd4) st2 m = (res, nd5, st5, m5)"
      by (metis prod_cases4)
    have more: "has_flag WALK_MORE WALK_MORE" by (simp add: has_flag_def WALK_MORE_def)
    have cs: "comp_step True res nd4 nd5" using kernel.walk_component_comp [OF w] more by simp
    have a: "after_component hk pr names ?rest (res, nd5, st5, m5) = Inr (names', name', nd', st', m')"
      using assms l h c en False w by (simp add: walk_round_def)
    have ne: "?rest # names \<noteq> names" by (metis length_Cons n_not_Suc_n)
    have "length ?rest < length name"
      using hf(2) skip_slashes_length [of rest] False by (cases name) (auto simp: rest skip_slashes_def)
    then show thesis
      using that [of nd4 ?rest names res] n4 cs after [OF a] False rest ne by (auto simp: comp_step_def)
  next
    case True
    then obtain n ns where names: "names = n # ns"
      using assms l h c en by (cases names) (auto simp: walk_round_def)
    obtain res nd5 st5 m5 where w: "walk_component hk (kernel_vfs hk pr) nd4 0 (junk nd4) st2 m = (res, nd5, st5, m5)"
      by (metis prod_cases4)
    have cs: "comp_step False res nd4 nd5" using kernel.walk_component_comp [OF w] by (simp add: has_flag_def)
    have a: "after_component hk pr ns n (res, nd5, st5, m5) = Inr (names', name', nd', st', m')"
      using assms l h c en True w names by (simp add: walk_round_def)
    show thesis
      using that [of nd4 n ns res] n4 cs after [OF a] names by (auto simp: comp_step_def)
  qed
qed

lemma walk_round_decreases:
  assumes "walk_round hk pr junk cfg = Inr cfg'"
  shows "(cfg', cfg) \<in> measures [links_left, pending_bytes]"
proof -
  obtain names name nd st m where cfg: "cfg = (names, name, nd, st, m)" by (cases cfg)
  obtain names' name' nd' st' m' where cfg': "cfg' = (names', name', nd', st', m')" by (cases cfg')
  show ?thesis
  proof (rule walk_round_next [OF assms [unfolded cfg cfg']])
    fix nd1 res ns n
    assume a: "nd_total_link_count nd \<le> nd_total_link_count nd1"
      "sum_list (map (\<lambda>n. Suc (length n)) (n # ns)) < sum_list (map (\<lambda>n. Suc (length n)) (name # names))"
      "comp_step (n # ns \<noteq> names) res nd1 nd'"
      "res = Walk_done \<and> names' = ns \<and> name' = n \<or> (\<exists>b. res = Walk_link b \<and> names' = n # ns \<and> name' = b)"
    then show ?thesis
      by (auto simp: cfg cfg' comp_step_def links_left_def pending_bytes_def)
  qed
qed

function link_walk ::
  "'m hook \<Rightarrow> walk_env \<Rightarrow> (nameidata \<Rightarrow> namei_ext_redirect) \<Rightarrow> 'm walk_cfg \<Rightarrow> 'm walk_end" where
  "link_walk hk pr junk cfg =
     (case walk_round hk pr junk cfg of Inl r \<Rightarrow> r | Inr cfg' \<Rightarrow> link_walk hk pr junk cfg')"
  by auto

termination
proof (relation "inv_image (measures [links_left, pending_bytes]) (snd \<circ> snd \<circ> snd)")
  fix hk :: "'m hook" and pr junk and cfg cfg' :: "'m walk_cfg"
  assume "walk_round hk pr junk cfg = Inr cfg'"
  from walk_round_decreases [OF this]
  show "((hk, pr, junk, cfg'), hk, pr, junk, cfg) \<in> inv_image (measures [links_left, pending_bytes]) (snd \<circ> snd \<circ> snd)"
    by simp
qed simp

declare link_walk.simps [simp del]

definition link_path_walk ::
  "'m hook \<Rightarrow> walk_env \<Rightarrow> (nameidata \<Rightarrow> namei_ext_redirect) \<Rightarrow> errno + bytes \<Rightarrow> nameidata \<Rightarrow> kstate \<Rightarrow> 'm \<Rightarrow>
     'm walk_end" where
  "link_path_walk hk pr junk name nd st m =
     (let nd = nd\<lparr>nd_last_type := LAST_ROOT, nd_flags := nd_flags nd OR wf_parent (we_fl pr)\<rparr> in
      case name of
        Inl e \<Rightarrow> (Some e, nd, st, m)
      | Inr name \<Rightarrow>
          let name = skip_slashes name in
          if name = [] then (None, nd\<lparr>nd_dir := None\<rparr>, st, m)
          else link_walk hk pr junk ([], name, nd, st, m))"

subsection \<open>Lookups\<close>

definition path_start ::
  "'m hook \<Rightarrow> walk_env \<Rightarrow> u32 \<Rightarrow> nameidata \<Rightarrow> kstate \<Rightarrow> errno option \<times> nameidata \<times> kstate" where
  "path_start hk pr flags nd st =
     (let dc = we_dc pr; mo = we_mo pr; rcu = has_flag flags (lm_rcu (hk_masks hk)) in
      if nd_dfd nd = -100 then
        let pwd = mo_fs_pwd mo st;
            nd = nd\<lparr>nd_path := pwd, nd_inode := do_d_inode dc (p_dentry pwd)\<rparr>
        in if rcu then (None, nd\<lparr>nd_seq := do_seq_begin dc (p_dentry pwd) st\<rparr>, st)
           else (None, nd, path_get pwd st)
      else
        case mo_fd mo (nd_dfd nd) of
          None \<Rightarrow> (Some EBADF, nd, st)
        | Some (path, cred_ok) \<Rightarrow>
            if has_flag flags (wf_linkat_empty (we_fl pr)) \<and> \<not> cred_ok then (Some ENOENT, nd, st)
            else if nd_pathname nd \<noteq> [] \<and> \<not> do_d_can_lookup dc (p_dentry path) then (Some ENOTDIR, nd, st)
            else
              let nd = nd\<lparr>nd_path := path, nd_inode := do_d_inode dc (p_dentry path)\<rparr>
              in if rcu then (None, nd\<lparr>nd_seq := do_seq_begin dc (p_dentry path) st\<rparr>, st)
                 else (None, nd, path_get path st))"

definition path_init ::
  "'m hook \<Rightarrow> walk_env \<Rightarrow> u32 \<Rightarrow> nameidata \<Rightarrow> kstate \<Rightarrow> (errno + bytes) \<times> nameidata \<times> kstate" where
  "path_init hk pr flags nd st =
     (let dc = we_dc pr; mo = we_mo pr; lm = hk_masks hk; wf = we_fl pr; s = nd_pathname nd in
      if flags AND (lm_rcu lm OR wf_cached wf) = wf_cached wf then (Inl EAGAIN, nd, st)
      else
        let flags = (if s = [] then flags AND NOT (lm_rcu lm) else flags);
            rcu = has_flag flags (lm_rcu lm);
            nd = (if rcu then nd else nd\<lparr>nd_seq := 0, nd_next_seq := 0\<rparr>);
            nd = nd\<lparr>nd_flags := flags, nd_jumped := True, nd_m_seq := mo_mount_begin mo st,
                    nd_r_seq := mo_rename_begin mo st\<rparr>
        in
        if nd_root_preset nd then
          (let root = p_dentry (nd_root nd) in
           if s \<noteq> [] \<and> \<not> do_d_can_lookup dc root then (Inl ENOTDIR, nd, st)
           else
             let nd = nd\<lparr>nd_path := nd_root nd, nd_inode := do_d_inode dc root\<rparr> in
             if rcu then
               let seq = do_seq_begin dc root st in (Inr s, nd\<lparr>nd_seq := seq, nd_root_seq := seq\<rparr>, st)
             else (Inr s, nd, path_get (nd_path nd) st))
        else
          let nd = nd\<lparr>nd_root := (nd_root nd)\<lparr>p_mnt := 0\<rparr>\<rparr> in
          if s \<noteq> [] \<and> hd s = CHR ''/'' \<and> \<not> has_flag flags (wf_in_root wf) then
            (case nd_jump_root hk pr nd st of
               (Some e, nd, st) \<Rightarrow> (Inl e, nd, st)
             | (None, nd, st) \<Rightarrow> (Inr s, nd, st))
          else
            case path_start hk pr flags nd st of
              (Some e, nd, st) \<Rightarrow> (Inl e, nd, st)
            | (None, nd, st) \<Rightarrow>
                if has_flag flags (lm_is_scoped lm) then
                  let nd = nd\<lparr>nd_root := nd_path nd\<rparr> in
                  if rcu then (Inr s, nd\<lparr>nd_root_seq := nd_seq nd\<rparr>, st)
                  else (Inr s, nd\<lparr>nd_root_grabbed := True\<rparr>, path_get (nd_root nd) st)
                else (Inr s, nd, st))"

definition lookup_last ::
  "'m hook \<Rightarrow> walk_env \<Rightarrow> (nameidata \<Rightarrow> namei_ext_redirect) \<Rightarrow> nameidata \<Rightarrow> kstate \<Rightarrow> 'm \<Rightarrow>
     walk_res \<times> nameidata \<times> kstate \<times> 'm" where
  "lookup_last hk pr junk nd st m =
     (let nd = (if nd_last_type nd = LAST_NORM \<and> trailing_slashes hk nd
                then nd\<lparr>nd_flags := nd_flags nd OR (hk_follow hk OR lm_directory (hk_masks hk))\<rparr> else nd)
      in walk_component hk (kernel_vfs hk pr) nd WALK_TRAILING (junk nd) st m)"

definition handle_lookup_down ::
  "'m hook \<Rightarrow> walk_env \<Rightarrow> nameidata \<Rightarrow> kstate \<Rightarrow> errno option \<times> nameidata \<times> kstate" where
  "handle_lookup_down hk pr nd st =
     (let st = (if \<not> rcu_walk hk nd then do_dget (we_dc pr) (p_dentry (nd_path nd)) st else st);
          nd = nd\<lparr>nd_next_seq := nd_seq nd\<rparr>;
          (res, nd, st) = step_into hk pr nd WALK_NOFOLLOW (p_dentry (nd_path nd)) st
      in (case res of Walk_err e \<Rightarrow> Some e | _ \<Rightarrow> None, nd, st))"

subsection \<open>The loop of a lookup\<close>

text \<open>
  What a call may do to the walk between two components: count links, and keep the stack in
  order.
\<close>

definition grows :: "nameidata \<Rightarrow> nameidata \<Rightarrow> bool" where
  "grows nd nd' \<longleftrightarrow>
     nd_total_link_count nd \<le> nd_total_link_count nd' \<and> (stack_ok nd \<longrightarrow> stack_ok nd')"

lemma grows_refl [simp]: "grows nd nd"
  by (simp add: grows_def)

lemma grows_trans [trans]: "grows a b \<Longrightarrow> grows b c \<Longrightarrow> grows a c"
  by (simp add: grows_def)

lemma quiet_grows: "quiet_step ok nd nd' \<Longrightarrow> grows nd nd'"
  by (simp add: quiet_step_def grows_def)

lemma comp_grows: "comp_step stay res nd nd' \<Longrightarrow> grows nd nd'"
  by (simp add: comp_step_def grows_def)

lemma after_component_end:
  assumes "after_component hk pr names name (res, nd, st, m) = Inl (e, nd', st', m')"
  shows "grows nd nd'" "e \<noteq> None"
  using assms quiet_grows [OF try_to_unlazy_quiet]
  by (auto simp: after_component_def Let_def split: walk_res.splits if_splits prod.splits)

lemma walk_round_end:
  assumes "walk_round hk pr junk (names, name, nd, st, m) = Inl (e, nd', st', m')"
  shows "grows nd nd' \<and> (e = None \<longrightarrow> names = [] \<and> (stack_ok nd \<longrightarrow> nd_depth nd' = nd_depth nd))"
proof -
  obtain e1 nd2 st2 where l: "may_lookup hk pr nd st = (e1, nd2, st2)" by (metis prod_cases3)
  obtain nd3 w rest where h: "hash_name hk nd2 name = (nd3, w, rest)" by (metis prod_cases3)
  obtain e2 nd4 where c: "classify_last hk pr w nd3 = (e2, nd4)" by fastforce
  note q = may_lookup_quiet [OF l] and hf = hash_name_fields [OF h] and cf = classify_last_fields [OF c]
  have n3: "nd_total_link_count nd3 = nd_total_link_count nd2" "stack_ok nd3 = stack_ok nd2" "nd_depth nd3 = nd_depth nd2"
    by (subst hf(1), simp add: stack_ok_def)+
  have g4: "grows nd nd4" using quiet_grows [OF q] n3 cf by (auto simp: grows_def)
  have comp: "grows nd4 nd' \<and> e \<noteq> None"
    if a: "after_component hk pr ns n (walk_component hk (kernel_vfs hk pr) nd4 fl (junk nd4) st2 m) = Inl (e, nd', st', m')" for ns n fl
  proof -
    obtain res nd5 st5 m5 where w: "walk_component hk (kernel_vfs hk pr) nd4 fl (junk nd4) st2 m = (res, nd5, st5, m5)"
      by (metis prod_cases4)
    show ?thesis
      using comp_grows [OF kernel.walk_component_comp [OF w]] after_component_end [OF a [unfolded w]] grows_trans by blast
  qed
  let ?last = "nd4\<lparr>nd_dir := map_option (Pair (p_mnt (nd_path nd4))) (nd_inode nd4), nd_flags := nd_flags nd4 AND NOT (wf_parent (we_fl pr))\<rparr>"
  have last: "grows nd4 ?last" "nd_depth ?last = nd_depth nd4" by (simp_all add: grows_def stack_ok_def)
  consider "e1 \<noteq> None" "nd' = nd2" "e \<noteq> None" | "e1 = None" "e2 \<noteq> None" "nd' = nd4" "e \<noteq> None"
    | "e1 = None" "e2 = None" "names = []" "nd' = ?last"
    | ns n fl where "e1 = None" "e2 = None"
        "after_component hk pr ns n (walk_component hk (kernel_vfs hk pr) nd4 fl (junk nd4) st2 m) = Inl (e, nd', st', m')"
    using assms l h c by (fastforce simp: walk_round_def Let_def split: option.splits if_splits list.splits)
  then show ?thesis
  proof cases
    case 1
    then show ?thesis using quiet_grows [OF q] by auto
  next
    case 2
    then show ?thesis using g4 by auto
  next
    case 3
    then have "stack_ok nd \<longrightarrow> nd_depth nd4 = nd_depth nd" using q n3 cf by (auto simp: quiet_step_def)
    then show ?thesis using 3 last grows_trans [OF g4] by simp
  next
    case 4
    then show ?thesis using comp [OF 4(3)] grows_trans [OF g4] by auto
  qed
qed

lemma walk_round_grows:
  assumes "walk_round hk pr junk (names, name, nd, st, m) = Inr (names', name', nd', st', m')"
  shows "grows nd nd'"
  using walk_round_next [OF assms] comp_grows by (metis grows_def le_trans)

lemma link_walk_grows:
  "link_walk hk pr junk cfg = (e, nd', st', m') \<Longrightarrow> grows (fst (snd (snd cfg))) nd'"
proof (induction hk pr junk cfg rule: link_walk.induct)
  case (1 hk pr junk cfg)
  obtain names name nd st m where cfg: "cfg = (names, name, nd, st, m)" by (cases cfg)
  show ?case
  proof (cases "walk_round hk pr junk cfg")
    case (Inl r)
    then show ?thesis using 1(2) walk_round_end [of hk pr junk names name nd st m] cfg
      by (simp add: link_walk.simps)
  next
    case (Inr cfg')
    then have "link_walk hk pr junk cfg' = (e, nd', st', m')" using 1(2) by (simp add: link_walk.simps)
    then have "grows (fst (snd (snd cfg'))) nd'" using 1(1) [OF Inr] by blast
    moreover have "grows nd (fst (snd (snd cfg')))"
      using walk_round_grows [of hk pr junk names name nd st m] Inr cfg by (cases cfg') auto
    ultimately show ?thesis using cfg grows_trans by auto
  qed
qed

lemma link_path_walk_grows:
  assumes "link_path_walk hk pr junk s nd st m = (e, nd', st', m')"
  shows "grows nd nd'"
proof -
  have "grows nd (nd\<lparr>nd_last_type := t, nd_flags := f\<rparr>)" "grows nd (nd\<lparr>nd_last_type := t, nd_flags := f, nd_dir := None\<rparr>)" for t f
    by (simp_all add: grows_def stack_ok_def)
  then show ?thesis
    using assms link_walk_grows grows_trans
    by (fastforce simp: link_path_walk_def Let_def split: sum.splits if_splits)
qed

lemma lookup_last_comp:
  assumes "lookup_last hk pr junk nd st m = (res, nd', st', m')"
  shows "comp_step False res nd nd'"
proof -
  let ?nd = "if nd_last_type nd = LAST_NORM \<and> trailing_slashes hk nd
    then nd\<lparr>nd_flags := nd_flags nd OR (hk_follow hk OR lm_directory (hk_masks hk))\<rparr> else nd"
  have "comp_step (has_flag WALK_TRAILING WALK_MORE) res ?nd nd'"
    using assms by (intro kernel.walk_component_comp) (simp add: lookup_last_def Let_def)
  then have "comp_step False res ?nd nd'" by (simp add: has_flag_def WALK_TRAILING_def WALK_MORE_def)
  moreover have "quiet_step True nd ?nd" by (rule same_links_quiet) (simp add: same_links_def)
  ultimately show ?thesis using quiet_then_comp by blast
qed

text \<open>
  One turn of the loop of \<open>path_lookupat\<close>: an error of \<open>lookup_last\<close> comes back through
  \<open>link_path_walk\<close>.
\<close>

type_synonym 'm lookup_cfg = "(errno + bytes) \<times> nameidata \<times> kstate \<times> 'm"

definition lookup_turn ::
  "'m hook \<Rightarrow> walk_env \<Rightarrow> (nameidata \<Rightarrow> namei_ext_redirect) \<Rightarrow> 'm lookup_cfg \<Rightarrow> 'm walk_end + 'm lookup_cfg" where
  "lookup_turn hk pr junk = (\<lambda>(s, nd, st, m).
     case link_path_walk hk pr junk s nd st m of
       (Some e, nd, st, m) \<Rightarrow> Inl (Some e, nd, st, m)
     | (None, nd, st, m) \<Rightarrow>
         (case lookup_last hk pr junk nd st m of
            (Walk_err e, nd, st, m) \<Rightarrow> Inr (Inl e, nd, st, m)
          | (Walk_link body, nd, st, m) \<Rightarrow> Inr (Inr body, nd, st, m)
          | (_, nd, st, m) \<Rightarrow> Inl (None, nd, st, m)))"

abbreviation lookup_links_left :: "'m lookup_cfg \<Rightarrow> nat" where
  "lookup_links_left \<equiv> \<lambda>(s, nd, st, m). MAXSYMLINKS - nd_total_link_count nd"

lemma lookup_turn_decreases:
  assumes "lookup_turn hk pr junk cfg = Inr cfg'"
  shows "(cfg', cfg) \<in> measures [lookup_links_left, \<lambda>(s, nd, st, m). if isl s then 0 else 1]"
proof -
  obtain s nd st m where cfg: "cfg = (s, nd, st, m)" by (cases cfg)
  obtain e nd1 st1 m1 where w: "link_path_walk hk pr junk s nd st m = (e, nd1, st1, m1)" by (metis prod_cases4)
  obtain res nd2 st2 m2 where l: "lookup_last hk pr junk nd1 st1 m1 = (res, nd2, st2, m2)" by (metis prod_cases4)
  have en: "e = None" using assms w by (cases e) (auto simp: cfg lookup_turn_def)
  then have "\<not> isl s" using w by (cases s) (auto simp: link_path_walk_def Let_def)
  moreover have "grows nd nd1" by (rule link_path_walk_grows [OF w])
  moreover have "cfg' = (Inl (SOME e. res = Walk_err e), nd2, st2, m2) \<and> (\<exists>e. res = Walk_err e) \<or>
      (\<exists>b. res = Walk_link b \<and> cfg' = (Inr b, nd2, st2, m2))"
    using assms w l en by (auto simp: cfg lookup_turn_def split: walk_res.splits)
  ultimately show ?thesis
    using lookup_last_comp [OF l] by (auto simp: cfg comp_step_def grows_def)
qed

function lookup_loop ::
  "'m hook \<Rightarrow> walk_env \<Rightarrow> (nameidata \<Rightarrow> namei_ext_redirect) \<Rightarrow> 'm lookup_cfg \<Rightarrow> 'm walk_end" where
  "lookup_loop hk pr junk cfg =
     (case lookup_turn hk pr junk cfg of Inl r \<Rightarrow> r | Inr cfg' \<Rightarrow> lookup_loop hk pr junk cfg')"
  by auto

termination
proof (relation "inv_image (measures [lookup_links_left, \<lambda>(s, nd, st, m). if isl s then 0 else 1]) (snd \<circ> snd \<circ> snd)")
  fix hk :: "'m hook" and pr junk and cfg cfg' :: "'m lookup_cfg"
  assume "lookup_turn hk pr junk cfg = Inr cfg'"
  from lookup_turn_decreases [OF this]
  show "((hk, pr, junk, cfg'), hk, pr, junk, cfg) \<in>
      inv_image (measures [lookup_links_left, \<lambda>(s, nd, st, m). if isl s then 0 else 1]) (snd \<circ> snd \<circ> snd)"
    by simp
qed simp

declare lookup_loop.simps [simp del]

text \<open>The start of \<open>path_lookupat\<close>, up to its loop.\<close>

definition lookup_begin ::
  "'m hook \<Rightarrow> walk_env \<Rightarrow> u32 \<Rightarrow> nameidata \<Rightarrow> kstate \<Rightarrow> (errno + bytes) \<times> nameidata \<times> kstate" where
  "lookup_begin hk pr flags nd st =
     (let (s, nd, st) = path_init hk pr flags nd st in
      if has_flag flags (wf_down (we_fl pr)) \<and> \<not> isl s then
        let (err, nd, st) = handle_lookup_down hk pr nd st
        in (case err of Some e \<Rightarrow> Inl e | None \<Rightarrow> s, nd, st)
      else (s, nd, st))"

definition path_lookupat ::
  "'m hook \<Rightarrow> walk_env \<Rightarrow> (nameidata \<Rightarrow> namei_ext_redirect) \<Rightarrow> u32 \<Rightarrow> nameidata \<Rightarrow> kstate \<Rightarrow> 'm \<Rightarrow>
     (errno + path) \<times> nameidata \<times> kstate \<times> 'm" where
  "path_lookupat hk pr junk flags nd st m =
     (let (s, nd, st) = lookup_begin hk pr flags nd st;
          (err, nd, st, m) = lookup_loop hk pr junk (s, nd, st, m);
          (err, nd, st) =
            (if err = None \<and> has_flag (nd_flags nd) (wf_mountpoint (we_fl pr)) then
               let (err, nd, st) = handle_lookup_down hk pr nd st in (err, nd\<lparr>nd_jumped := False\<rparr>, st)
             else (err, nd, st));
          (err, nd, st) = (if err = None then complete_walk hk pr nd st else (err, nd, st));
          err = (if err = None \<and> has_flag (nd_flags nd) (lm_directory (hk_masks hk)) \<and>
                    \<not> do_d_can_lookup (we_dc pr) (p_dentry (nd_path nd))
                 then Some ENOTDIR else err);
          (r, nd) = (case err of None \<Rightarrow> (Inr (nd_path nd), nd\<lparr>nd_path := null_path\<rparr>) | Some e \<Rightarrow> (Inl e, nd));
          (nd, st) = terminate_walk hk pr nd st
      in (r, nd, st, m))"

definition path_parentat ::
  "'m hook \<Rightarrow> walk_env \<Rightarrow> (nameidata \<Rightarrow> namei_ext_redirect) \<Rightarrow> u32 \<Rightarrow> nameidata \<Rightarrow> kstate \<Rightarrow> 'm \<Rightarrow>
     (errno + path) \<times> nameidata \<times> kstate \<times> 'm" where
  "path_parentat hk pr junk flags nd st m =
     (let (s, nd, st) = path_init hk pr flags nd st;
          (err, nd, st, m) = link_path_walk hk pr junk s nd st m;
          (err, nd, st) = (if err = None then complete_walk hk pr nd st else (err, nd, st));
          (r, nd) = (case err of None \<Rightarrow> (Inr (nd_path nd), nd\<lparr>nd_path := null_path\<rparr>) | Some e \<Rightarrow> (Inl e, nd));
          (nd, st) = terminate_walk hk pr nd st
      in (r, nd, st, m))"

text \<open>
  \<open>set_nameidata\<close> on a record of the stack with any content. \<open>old\<close> is the link count of the walk
  this one is nested in, which gets the count back in the end.
\<close>

definition set_nameidata :: "int \<Rightarrow> bytes \<Rightarrow> path option \<Rightarrow> nat option \<Rightarrow> nameidata \<Rightarrow> nameidata" where
  "set_nameidata dfd name root old nd =
     (let nd = nd\<lparr>nd_stack_big := False, nd_depth := 0, nd_dfd := dfd, nd_pathname := name,
                  nd_path := null_path, nd_total_link_count := (case old of Some n \<Rightarrow> n | None \<Rightarrow> 0),
                  nd_root_preset := False, nd_root_grabbed := False, nd_jumped := False\<rparr>
      in case root of None \<Rightarrow> nd | Some p \<Rightarrow> nd\<lparr>nd_root_preset := True, nd_root := p\<rparr>)"

definition restore_nameidata :: "nat option \<Rightarrow> nameidata \<Rightarrow> nat option" where
  "restore_nameidata old nd = map_option (\<lambda>_. nd_total_link_count nd) old"

text \<open>The three attempts: in RCU mode, with references, and with revalidation.\<close>

definition lookup_attempts ::
  "'m hook \<Rightarrow> walk_env \<Rightarrow> (u32 \<Rightarrow> nameidata \<Rightarrow> kstate \<Rightarrow> 'm \<Rightarrow> (errno + 'r) \<times> nameidata \<times> kstate \<times> 'm) \<Rightarrow> u32 \<Rightarrow>
     nameidata \<Rightarrow> kstate \<Rightarrow> 'm \<Rightarrow> (errno + 'r) \<times> nameidata \<times> kstate \<times> 'm" where
  "lookup_attempts hk pr op flags nd st m =
     (let (r, nd, st, m) = op (flags OR lm_rcu (hk_masks hk)) nd st m;
          (r, nd, st, m) = (if r = Inl ECHILD then op flags nd st m else (r, nd, st, m))
      in if r = Inl ESTALE then op (flags OR wf_reval (we_fl pr)) nd st m else (r, nd, st, m))"

definition filename_lookup ::
  "'m hook \<Rightarrow> walk_env \<Rightarrow> (nameidata \<Rightarrow> namei_ext_redirect) \<Rightarrow> int \<Rightarrow> errno + bytes \<Rightarrow> u32 \<Rightarrow> path option \<Rightarrow>
     nat option \<Rightarrow> nameidata \<Rightarrow> kstate \<Rightarrow> 'm \<Rightarrow> (errno + path) \<times> nat option \<times> kstate \<times> 'm" where
  "filename_lookup hk pr junk dfd name flags root old nd st m =
     (case name of
        Inl e \<Rightarrow> (Inl e, old, st, m)
      | Inr name \<Rightarrow>
          let nd = set_nameidata dfd name root old nd;
              (r, nd, st, m) = lookup_attempts hk pr (path_lookupat hk pr junk) flags nd st m
          in (r, restore_nameidata old nd, st, m))"

definition filename_parentat ::
  "'m hook \<Rightarrow> walk_env \<Rightarrow> (nameidata \<Rightarrow> namei_ext_redirect) \<Rightarrow> int \<Rightarrow> errno + bytes \<Rightarrow> u32 \<Rightarrow> path option \<Rightarrow>
     nat option \<Rightarrow> nameidata \<Rightarrow> kstate \<Rightarrow> 'm \<Rightarrow>
     (errno + path \<times> qstr \<times> last_type) \<times> nat option \<times> kstate \<times> 'm" where
  "filename_parentat hk pr junk dfd name flags root old nd st m =
     (case name of
        Inl e \<Rightarrow> (Inl e, old, st, m)
      | Inr name \<Rightarrow>
          let nd = set_nameidata dfd name root old nd;
              (r, nd, st, m) = lookup_attempts hk pr (path_parentat hk pr junk) flags nd st m
          in (map_sum id (\<lambda>parent. (parent, nd_last nd, nd_last_type nd)) r, restore_nameidata old nd, st, m))"

subsection \<open>Reached configurations\<close>

text \<open>
  The configurations the walk of one path goes through: the rounds of \<open>link_path_walk\<close>, and the
  start of its next call on the body of a trailing link.
\<close>

definition walk_entry :: "walk_env \<Rightarrow> nameidata \<Rightarrow> nameidata" where
  "walk_entry pr nd = nd\<lparr>nd_last_type := LAST_ROOT, nd_flags := nd_flags nd OR wf_parent (we_fl pr)\<rparr>"

inductive lookup_step ::
  "'m hook \<Rightarrow> walk_env \<Rightarrow> (nameidata \<Rightarrow> namei_ext_redirect) \<Rightarrow> 'm walk_cfg \<Rightarrow> 'm walk_cfg \<Rightarrow> bool"
  for hk pr junk where
  round: "walk_round hk pr junk cfg = Inr cfg' \<Longrightarrow> lookup_step hk pr junk cfg cfg'"
| again: "walk_round hk pr junk cfg = Inl (None, nd, st, m) \<Longrightarrow>
    lookup_last hk pr junk nd st m = (Walk_link body, nd', st', m') \<Longrightarrow>
    lookup_step hk pr junk cfg ([], skip_slashes body, walk_entry pr nd', st', m')"

inductive lookup_reach ::
  "'m hook \<Rightarrow> walk_env \<Rightarrow> (nameidata \<Rightarrow> namei_ext_redirect) \<Rightarrow> u32 \<Rightarrow> nameidata \<Rightarrow> kstate \<Rightarrow> 'm \<Rightarrow> 'm walk_cfg \<Rightarrow> bool"
  for hk pr junk flags nd st m where
  start: "lookup_begin hk pr flags nd st = (Inr s, nd', st') \<Longrightarrow> skip_slashes s \<noteq> [] \<Longrightarrow>
    lookup_reach hk pr junk flags nd st m ([], skip_slashes s, walk_entry pr nd', st', m)"
| step: "lookup_reach hk pr junk flags nd st m cfg \<Longrightarrow> lookup_step hk pr junk cfg cfg' \<Longrightarrow>
    lookup_reach hk pr junk flags nd st m cfg'"

inductive_cases lookup_stepE: "lookup_step hk pr junk cfg cfg'"

lemma link_walk_rounds:
  "\<exists>cfg'. (lookup_step hk pr junk)\<^sup>*\<^sup>* cfg cfg' \<and> walk_round hk pr junk cfg' = Inl (link_walk hk pr junk cfg)"
proof (induction hk pr junk cfg rule: link_walk.induct)
  case (1 hk pr junk cfg)
  show ?case
  proof (cases "walk_round hk pr junk cfg")
    case (Inl r)
    then have "walk_round hk pr junk cfg = Inl (link_walk hk pr junk cfg)" by (simp add: link_walk.simps)
    then show ?thesis by blast
  next
    case (Inr cfg')
    from 1 [OF this] obtain cfg'' where
      "(lookup_step hk pr junk)\<^sup>*\<^sup>* cfg' cfg''" "walk_round hk pr junk cfg'' = Inl (link_walk hk pr junk cfg')" by blast
    moreover have "link_walk hk pr junk cfg = link_walk hk pr junk cfg'"
      using Inr link_walk.simps [of hk pr junk cfg] by simp
    moreover have "(lookup_step hk pr junk)\<^sup>*\<^sup>* cfg cfg''"
      by (rule converse_rtranclp_into_rtranclp [OF lookup_step.round [OF Inr] calculation(1)])
    ultimately have "(lookup_step hk pr junk)\<^sup>*\<^sup>* cfg cfg'' \<and>
        walk_round hk pr junk cfg'' = Inl (link_walk hk pr junk cfg)" by simp
    then show ?thesis by blast
  qed
qed

text \<open>
  The comment \<open>depth <= nd->depth\<close> of \<open>link_path_walk\<close>, with the bounds of the arrays behind it.
\<close>

definition cfg_ok :: "'m walk_cfg \<Rightarrow> bool" where
  "cfg_ok = (\<lambda>(names, name, nd, st, m).
     stack_ok nd \<and> length names \<le> nd_depth nd \<and>
     (\<forall>n \<in> set (name # names). n \<noteq> [] \<and> hd n \<noteq> CHR ''/''))"

lemma skip_slashes_hd: "skip_slashes s = [] \<or> hd (skip_slashes s) \<noteq> CHR ''/''"
  using hd_dropWhile [of "\<lambda>c. c = CHR ''/''" s] by (auto simp: skip_slashes_def)

lemma walk_entry_same [simp]: "stack_ok (walk_entry pr nd) = stack_ok nd" "nd_depth (walk_entry pr nd) = nd_depth nd"
  "nd_total_link_count (walk_entry pr nd) = nd_total_link_count nd"
  by (simp_all add: walk_entry_def stack_ok_def)

lemma walk_round_ok:
  assumes "walk_round hk pr junk cfg = Inr cfg'" "cfg_ok cfg"
  shows "cfg_ok cfg'"
proof -
  obtain names name nd st m where cfg: "cfg = (names, name, nd, st, m)" by (cases cfg)
  obtain names' name' nd' st' m' where cfg': "cfg' = (names', name', nd', st', m')" by (cases cfg')
  have ok: "stack_ok nd" "length names \<le> nd_depth nd" "\<forall>n \<in> set (name # names). n \<noteq> [] \<and> hd n \<noteq> CHR ''/''"
    using assms(2) by (simp_all add: cfg cfg_ok_def)
  show ?thesis
  proof (rule walk_round_next [OF assms(1) [unfolded cfg cfg']])
    fix nd1 res ns n
    assume a: "stack_ok nd \<Longrightarrow> stack_ok nd1 \<and> nd_depth nd1 = nd_depth nd"
      "n # ns = skip_slashes (drop (length (component name)) name) # names \<and> n \<noteq> [] \<or> n # ns = names"
      "comp_step (n # ns \<noteq> names) res nd1 nd'"
      "res = Walk_done \<and> names' = ns \<and> name' = n \<or> (\<exists>b. res = Walk_link b \<and> names' = n # ns \<and> name' = b)"
    have s: "stack_ok nd1" "nd_depth nd1 = nd_depth nd" using a(1) ok(1) by auto
    have ns: "\<forall>k \<in> set (n # ns). k \<noteq> [] \<and> hd k \<noteq> CHR ''/''"
      using a(2) ok(3) skip_slashes_hd by fastforce
    have len: "length ns + (if n # ns \<noteq> names then 0 else 1) \<le> nd_depth nd1"
      using a(2) ok(2) s(2) by (auto simp: length_Cons [symmetric] simp del: length_Cons)
    have "length names' \<le> nd_depth nd'"
      using a(3,4) s(1) len by (auto simp: comp_step_def split: if_splits)
    moreover have "stack_ok nd'" using a(3) s(1) by (simp add: comp_step_def)
    moreover have "\<forall>k \<in> set (name' # names'). k \<noteq> [] \<and> hd k \<noteq> CHR ''/''"
      using a(3,4) ns by (auto simp: comp_step_def)
    ultimately show ?thesis by (simp add: cfg' cfg_ok_def)
  qed
qed

lemma lookup_step_ok:
  assumes "lookup_step hk pr junk cfg cfg'" "cfg_ok cfg"
  shows "cfg_ok cfg'"
  using assms
proof (cases rule: lookup_step.cases)
  case round
  then show ?thesis using walk_round_ok assms(2) by blast
next
  case (again nd st m body nd' st' m')
  obtain names name nd0 st0 m0 where cfg: "cfg = (names, name, nd0, st0, m0)" by (cases cfg)
  have "grows nd0 nd" using walk_round_end [OF again(2) [unfolded cfg]] by simp
  then have "stack_ok nd" using assms(2) by (simp add: cfg cfg_ok_def grows_def)
  then have "stack_ok nd'" "body \<noteq> []" "hd body \<noteq> CHR ''/''"
    using lookup_last_comp [OF again(3)] by (auto simp: comp_step_def)
  moreover have "skip_slashes body = body" using calculation by (cases body) (auto simp: skip_slashes_def)
  ultimately show ?thesis by (simp add: again(1) cfg_ok_def)
qed

lemma path_init_same:
  assumes "path_init hk pr flags nd st = (s, nd', st')"
  shows "same_links nd nd'"
proof -
  let ?flags = "if nd_pathname nd = [] then flags AND NOT (lm_rcu (hk_masks hk)) else flags"
  define nd1 where "nd1 = (let nd = (if has_flag ?flags (lm_rcu (hk_masks hk)) then nd else nd\<lparr>nd_seq := 0, nd_next_seq := 0\<rparr>)
    in nd\<lparr>nd_flags := ?flags, nd_jumped := True, nd_m_seq := mo_mount_begin (we_mo pr) st, nd_r_seq := mo_rename_begin (we_mo pr) st\<rparr>)"
  define nd2 where "nd2 = nd1\<lparr>nd_root := (nd_root nd1)\<lparr>p_mnt := 0\<rparr>\<rparr>"
  have s1: "same_links nd nd1" "same_links nd nd2" by (simp_all add: nd1_def nd2_def same_links_def Let_def)
  have start: "same_links a b" if "path_start hk pr f a t = (e, b, t')" for f a e b t t'
    using that by (auto simp: path_start_def Let_def same_links_def split: if_splits option.splits)
  obtain e3 nd3 st3 where p: "path_start hk pr ?flags nd2 st = (e3, nd3, st3)" by (metis prod_cases3)
  obtain e4 nd4 st4 where j: "nd_jump_root hk pr nd2 st = (e4, nd4, st4)" by (metis prod_cases3)
  have s2: "same_links nd nd3" "same_links nd nd4"
    using start [OF p] jump_root_same [OF j] same_links_trans s1 by blast+
  note init = assms [unfolded path_init_def Let_def nd1_def [unfolded Let_def, symmetric] nd2_def [symmetric]]
  have "nd' = nd \<or> same_links nd1 nd' \<or> same_links nd3 nd' \<or> nd' = nd4"
  proof (cases "flags AND (lm_rcu (hk_masks hk) OR wf_cached (we_fl pr)) = wf_cached (we_fl pr)")
    case True
    then show ?thesis using init by simp
  next
    case False
    show ?thesis
    proof (cases "nd_root_preset nd1")
      case True
      have "nd' = nd1 \<or> (\<exists>p i. nd' = nd1\<lparr>nd_path := p, nd_inode := i\<rparr>) \<or>
          (\<exists>p i a. nd' = nd1\<lparr>nd_path := p, nd_inode := i, nd_seq := a, nd_root_seq := a\<rparr>)"
        using init unfolding if_not_P [OF False] if_P [OF True] by (simp split: if_splits) blast+
      then show ?thesis by (auto simp: same_links_def)
    next
      case preset: False
      show ?thesis
        using init unfolding if_not_P [OF False] if_not_P [OF preset] p j
        by (simp split: if_splits option.splits add: same_links_def) auto
    qed
  qed
  then show ?thesis using s1 s2 same_links_trans by (metis same_links_def)
qed

lemma handle_lookup_down_grows:
  assumes "handle_lookup_down hk pr nd st = (e, nd', st')"
  shows "grows nd nd'"
proof -
  obtain res st1 where "step_into hk pr (nd\<lparr>nd_next_seq := nd_seq nd\<rparr>) WALK_NOFOLLOW (p_dentry (nd_path nd)) st1 = (res, nd', st')"
    using assms by (auto simp: handle_lookup_down_def Let_def split: prod.splits)
  from step_into_kernel [OF this] show ?thesis by (simp add: link_step_def grows_def stack_ok_def)
qed

lemma lookup_begin_grows:
  assumes "lookup_begin hk pr flags nd st = (s, nd', st')"
  shows "grows nd nd'"
proof -
  obtain s1 nd1 st1 where p: "path_init hk pr flags nd st = (s1, nd1, st1)" by (metis prod_cases3)
  have "grows nd nd1" by (rule quiet_grows [OF same_links_quiet [OF path_init_same [OF p]]])
  then show ?thesis
    using assms p handle_lookup_down_grows [of hk pr nd1 st1] grows_trans
    by (auto simp: lookup_begin_def split: if_splits prod.splits)
qed

lemma lookup_reach_ok:
  assumes "lookup_reach hk pr junk flags nd st m cfg" "stack_ok nd"
  shows "cfg_ok cfg"
  using assms
proof (induction rule: lookup_reach.induct)
  case (start s nd' st')
  then show ?case using skip_slashes_hd [of s] lookup_begin_grows [OF start(1)] by (simp add: cfg_ok_def grows_def)
next
  case (step cfg cfg')
  then show ?case using lookup_step_ok by blast
qed

lemma lookup_step_decreases:
  assumes "lookup_step hk pr junk cfg cfg'"
  shows "(cfg', cfg) \<in> measures [links_left, pending_bytes]"
  using assms
proof (cases rule: lookup_step.cases)
  case round
  then show ?thesis by (rule walk_round_decreases)
next
  case (again nd st m body nd' st' m')
  obtain names name nd0 st0 m0 where cfg: "cfg = (names, name, nd0, st0, m0)" by (cases cfg)
  have "grows nd0 nd" using walk_round_end [OF again(2) [unfolded cfg]] by simp
  then show ?thesis
    using lookup_last_comp [OF again(3)] by (auto simp: again(1) cfg links_left_def comp_step_def grows_def)
qed

text \<open>A walk starts with no link on its stack, and ends so: every attempt of a lookup does.\<close>

lemma depth_zero:
  "nd_depth nd = 0 \<Longrightarrow> stack_ok nd"
  "nd_depth (set_nameidata dfd name root old nd) = 0"
  "nd_depth (fst (terminate_walk hk pr nd st)) = 0"
  by (simp_all add: stack_ok_def set_nameidata_def terminate_walk_def Let_def split_beta split: option.splits)

lemma reach_bounds:
  assumes "lookup_reach hk pr junk flags nd0 st0 m0 (names, name, nd, st, m)" "nd_depth nd0 = 0"
  shows "nd_depth nd \<le> (if nd_stack_big nd then MAXSYMLINKS else EMBEDDED_LEVELS) \<and>
    nd_depth nd \<le> length (nd_stack nd) \<and> nd_depth nd \<le> nd_total_link_count nd \<and>
    length names \<le> nd_depth nd \<and> (\<forall>n\<in>set (name # names). n \<noteq> [] \<and> hd n \<noteq> CHR ''/'')"
  using lookup_reach_ok [OF assms(1) depth_zero(1) [OF assms(2)]] by (simp add: cfg_ok_def stack_ok_def)

lemma no_endless_walk: "\<not> (\<forall>n. lookup_step hk pr junk (f n) (f (Suc n)))"
proof
  assume "\<forall>n. lookup_step hk pr junk (f n) (f (Suc n))"
  then have "\<forall>n. (f (Suc n), f n) \<in> measures [links_left, pending_bytes]" using lookup_step_decreases by blast
  moreover have "wf (measures [links_left :: 'm walk_cfg \<Rightarrow> nat, pending_bytes])" for x :: "'m itself" by simp
  ultimately show False by (metis wf_iff_no_infinite_down_chain wf_measures)
qed

subsection \<open>What a component is\<close>

lemma hash_name_component:
  assumes "hash_name hk nd name = (nd', word, rest)"
    and "name \<noteq> []" "hd name \<noteq> CHR ''/''" "NUL \<notin> set name" "length name < 2 ^ 32"
  shows "name = component name @ rest" "CHR ''/'' \<notin> set (component name)" "rest = [] \<or> hd rest = CHR ''/''"
    "qstr_text (nd_last nd') = component name"
    "word = LAST_WORD_IS_DOT \<longleftrightarrow> component name = ''.''" "word = LAST_WORD_IS_DOTDOT \<longleftrightarrow> component name = ''..''"
proof -
  let ?c = "component name"
  have c: "?c = takeWhile (\<lambda>c. c \<noteq> CHR ''/'') name" using assms(2,3) by (cases name) (simp_all add: component_def)
  have out: "nd_last nd' = \<lparr>q_name = name @ [NUL], q_len = of_nat (length ?c),
      q_hash = hk_fnh hk (p_dentry (nd_path nd)) name (of_nat (length ?c))\<rparr>"
    "word = lastword ?c" "rest = drop (length ?c) name"
    using assms(1) by (auto simp: hash_name_def Let_def)
  have r: "rest = dropWhile (\<lambda>c. c \<noteq> CHR ''/'') name" unfolding out c by (metis dropWhile_eq_drop)
  show "name = ?c @ rest" unfolding c r by simp
  show "CHR ''/'' \<notin> set ?c" unfolding c by (auto dest: set_takeWhileD)
  show "rest = [] \<or> hd rest = CHR ''/''" unfolding r using hd_dropWhile [of "\<lambda>c. c \<noteq> CHR ''/''" name] by auto
  have n: "NUL \<notin> set ?c" "?c \<noteq> []" using assms(2-4) unfolding c by (auto dest: set_takeWhileD simp: takeWhile_eq_Nil_iff)
  have "length ?c \<le> length name" unfolding c by (simp add: length_takeWhile_le)
  then have "unat (of_nat (length ?c) :: u32) = length ?c" using assms(5) by (simp add: unat_of_nat)
  then show "qstr_text (nd_last nd') = ?c"
    unfolding qstr_text_def out using takeWhile_eq_take [of "\<lambda>c. c \<noteq> CHR ''/''" name] \<open>length ?c \<le> length name\<close>
    by (simp add: c)
  show "word = LAST_WORD_IS_DOT \<longleftrightarrow> ?c = ''.''" "word = LAST_WORD_IS_DOTDOT \<longleftrightarrow> ?c = ''..''"
    unfolding out LAST_WORD_IS_DOT_def LAST_WORD_IS_DOTDOT_def using lastword_dot [OF n] lastword_dotdot [OF n] by simp_all
qed

text \<open>
  A component that selects a target ends where its target is, and keeps the link it was the end
  of until the walk terminates; the last component of an open gives the link back.
\<close>

lemma target_and_link:
  assumes d: "hook_decide hk (kernel_vfs hk pr) nd rd st m = (Inr rd1, nd1, st1, m1)" and act: "rd_target_active rd1"
  shows "walk_component_namei_ext hk (kernel_vfs hk pr) nd flags rd st m = (Walk_done, nd', st', m') \<Longrightarrow>
      nd_depth nd' = nd_depth nd1"
    and "nd_last_type nd = LAST_NORM \<Longrightarrow> intent = 0 \<Longrightarrow>
      open_last_lookups_namei_ext hk (kernel_vfs hk pr) open_flag intent nd rd st m = (Walk_done, nd', st', m') \<Longrightarrow>
      nd_depth nd' = nd_depth nd1 - 1"
proof -
  obtain e nd2 rd2 st2 where a: "namei_ext_apply_target hk (kernel_vfs hk pr) nd1 rd1 st1 = (e, nd2, rd2, st2)"
    by (metis prod_cases4)
  have depth: "nd_depth nd2 = nd_depth nd1"
    using kernel.apply_target_same [OF a] by (simp add: same_links_def)
  show "walk_component_namei_ext hk (kernel_vfs hk pr) nd flags rd st m = (Walk_done, nd', st', m') \<Longrightarrow>
      nd_depth nd' = nd_depth nd1"
    using d act a depth by (auto simp: walk_component_namei_ext_def split: option.splits)
  show "nd_last_type nd = LAST_NORM \<Longrightarrow> intent = 0 \<Longrightarrow>
      open_last_lookups_namei_ext hk (kernel_vfs hk pr) open_flag intent nd rd st m = (Walk_done, nd', st', m') \<Longrightarrow>
      nd_depth nd' = nd_depth nd1 - 1"
    using d act a depth kernel.put_link_pops [of hk pr nd2 st2]
    by (auto simp: open_last_lookups_namei_ext_def Let_def same_links_def split: option.splits if_splits prod.splits)
qed

end
