(* ===== verification/Vfs_Open.thy ===== *)
theory Vfs_Open
  imports Path_Walk
begin

text \<open>
  The open of the last component in \<open>fs/namei.c\<close>: the checks of sticky directories and of links,
  \<open>lookup_open\<close> with creation and the atomic open, and \<open>do_open\<close>. They complete the walk
  environment: \<open>open_walk_env\<close> puts them where \<^verbatim>\<open>Vfs_Walk\<close> has parameters. File systems,
  permissions and security modules stay parameters. Audit records and notifications are left out.
\<close>

subsection \<open>Parameters\<close>

type_synonym umode = "16 word"

abbreviation S_IFMT :: umode where "S_IFMT \<equiv> 0xF000"
abbreviation S_IFSOCK :: umode where "S_IFSOCK \<equiv> 0xC000"
abbreviation S_IFLNK :: umode where "S_IFLNK \<equiv> 0xA000"
abbreviation S_IFREG :: umode where "S_IFREG \<equiv> 0x8000"
abbreviation S_IFBLK :: umode where "S_IFBLK \<equiv> 0x6000"
abbreviation S_IFDIR :: umode where "S_IFDIR \<equiv> 0x4000"
abbreviation S_IFCHR :: umode where "S_IFCHR \<equiv> 0x2000"
abbreviation S_IFIFO :: umode where "S_IFIFO \<equiv> 0x1000"
abbreviation S_ISVTX :: umode where "S_ISVTX \<equiv> 0x200"

text \<open>The request of an open.\<close>

record open_flags =
  op_open_flag :: u32
  op_mode :: umode
  op_acc_mode :: u32
  op_intent :: u32
  op_lookup_flags :: u32

text \<open>
  What an open asks of the rest of the kernel. Owners are as a mount maps them (\<open>None\<close> for one
  without a mapping). The inode of a dentry can change here, so it is read in a state. The
  operations of a directory may be missing. \<open>oe_atomic_open\<close> answers the error and the dentry it
  leaves in the file; breaking a delegation may be left to the caller (\<open>True\<close>).
\<close>

record open_env =
  oe_o_trunc :: u32
  oe_o_append :: u32
  oe_o_noatime :: u32
  oe_o_directory :: u32
  oe_o_path :: u32
  oe_o_tmpfile :: u32
  oe_may_exec :: u32
  oe_may_write :: u32
  oe_may_open :: u32
  oe_i_mode :: "inode option \<Rightarrow> umode"
  oe_i_uid :: "u64 \<Rightarrow> inode option \<Rightarrow> u32 option"
  oe_is_append :: "inode option \<Rightarrow> bool"
  oe_fsuid :: u32
  oe_protected_symlinks :: nat
  oe_protected_fifos :: nat
  oe_protected_regular :: nat
  oe_mnt_nodev :: "u64 \<Rightarrow> bool"
  oe_sb_nodev :: "u64 \<Rightarrow> bool"
  oe_path_noexec :: "path \<Rightarrow> bool"
  oe_inode_permission :: "u64 \<Rightarrow> inode option \<Rightarrow> u32 \<Rightarrow> kstate \<Rightarrow> errno option"
  oe_owner_or_capable :: "u64 \<Rightarrow> inode option \<Rightarrow> bool"
  oe_security_path_mknod :: "path \<Rightarrow> u64 \<Rightarrow> umode \<Rightarrow> kstate \<Rightarrow> errno option"
  oe_has_mapping :: "path \<Rightarrow> bool"
  oe_security_create :: "u64 \<Rightarrow> u64 \<Rightarrow> umode \<Rightarrow> kstate \<Rightarrow> errno option"
  oe_strip_sgid :: "u64 \<Rightarrow> u64 \<Rightarrow> umode \<Rightarrow> umode"
  oe_strip_umask :: "u64 \<Rightarrow> umode \<Rightarrow> umode"
  oe_is_deaddir :: "u64 \<Rightarrow> kstate \<Rightarrow> bool"
  oe_d_inode :: "u64 \<Rightarrow> kstate \<Rightarrow> inode option"
  oe_d_is_dir :: "u64 \<Rightarrow> kstate \<Rightarrow> bool"
  oe_d_is_reg :: "u64 \<Rightarrow> kstate \<Rightarrow> bool"
  oe_d_alloc_parallel :: "u64 \<Rightarrow> qstr \<Rightarrow> kstate \<Rightarrow> (errno + u64) \<times> kstate"
  oe_d_in_lookup :: "u64 \<Rightarrow> kstate \<Rightarrow> bool"
  oe_d_lookup_done :: "u64 \<Rightarrow> kstate \<Rightarrow> kstate"
  oe_atomic_open :: "u64 \<Rightarrow> (u64 \<Rightarrow> u32 \<Rightarrow> umode \<Rightarrow> kstate \<Rightarrow> (errno option \<times> u64) \<times> kstate) option"
  oe_i_lookup :: "u64 \<Rightarrow> u64 \<Rightarrow> u32 \<Rightarrow> kstate \<Rightarrow> (errno + u64 option) \<times> kstate"
  oe_i_create :: "u64 \<Rightarrow> (u64 \<Rightarrow> umode \<Rightarrow> bool \<Rightarrow> kstate \<Rightarrow> errno option \<times> kstate) option"
  oe_try_break_deleg :: "u64 \<Rightarrow> kstate \<Rightarrow> (errno \<times> bool) option \<times> kstate"
  oe_mnt_want_write :: "u64 \<Rightarrow> kstate \<Rightarrow> errno option \<times> kstate"
  oe_mnt_drop_write :: "u64 \<Rightarrow> kstate \<Rightarrow> kstate"
  oe_get_write_access :: "inode option \<Rightarrow> kstate \<Rightarrow> errno option \<times> kstate"
  oe_put_write_access :: "inode option \<Rightarrow> kstate \<Rightarrow> kstate"
  oe_security_truncate :: "path \<Rightarrow> kstate \<Rightarrow> errno option"
  oe_do_truncate :: "path \<Rightarrow> kstate \<Rightarrow> errno option \<times> kstate"
  oe_vfs_open :: "path \<Rightarrow> kstate \<Rightarrow> errno option \<times> kstate"
  oe_post_open :: "u32 \<Rightarrow> kstate \<Rightarrow> errno option"
  oe_alloc_file :: "kstate \<Rightarrow> errno option \<times> kstate"
  oe_fput :: "kstate \<Rightarrow> kstate"
  oe_d_alloc :: "u64 \<Rightarrow> kstate \<Rightarrow> u64 option \<times> kstate"
  oe_i_tmpfile :: "u64 \<Rightarrow> (path \<Rightarrow> umode \<Rightarrow> kstate \<Rightarrow> errno option \<times> kstate) option"
  oe_set_linkable :: "inode option \<Rightarrow> kstate \<Rightarrow> kstate"

subsection \<open>Links and sticky directories\<close>

text \<open>Equality of mapped owners is false on an owner without a mapping.\<close>

definition vfsuid_eq :: "u32 option \<Rightarrow> u32 option \<Rightarrow> bool" where
  "vfsuid_eq a b \<longleftrightarrow> a \<noteq> None \<and> a = b"

definition dir_mode :: "open_env \<Rightarrow> nameidata \<Rightarrow> umode" where
  "dir_mode oe nd = (case nd_dir nd of None \<Rightarrow> 0 | Some (mnt, inode) \<Rightarrow> oe_i_mode oe (Some inode))"

definition dir_vfsuid :: "open_env \<Rightarrow> nameidata \<Rightarrow> u32 option" where
  "dir_vfsuid oe nd = (case nd_dir nd of None \<Rightarrow> None | Some (mnt, inode) \<Rightarrow> oe_i_uid oe mnt (Some inode))"

definition may_follow_link :: "'m hook \<Rightarrow> open_env \<Rightarrow> nameidata \<Rightarrow> inode option \<Rightarrow> errno option" where
  "may_follow_link hk oe nd inode =
     (let vfsuid = oe_i_uid oe (p_mnt (nd_path nd)) inode in
      if oe_protected_symlinks oe = 0 then None
      else if vfsuid_eq vfsuid (Some (oe_fsuid oe)) then None
      else if dir_mode oe nd AND (S_ISVTX OR 2) \<noteq> S_ISVTX OR 2 then None
      else if vfsuid_eq (dir_vfsuid oe nd) vfsuid then None
      else if rcu_walk hk nd then Some ECHILD
      else Some EACCES)"

definition may_create_in_sticky :: "open_env \<Rightarrow> nameidata \<Rightarrow> inode option \<Rightarrow> errno option" where
  "may_create_in_sticky oe nd inode =
     (let mode = oe_i_mode oe inode; i_vfsuid = oe_i_uid oe (p_mnt (nd_path nd)) inode;
          reg = (mode AND S_IFMT = S_IFREG); fifo = (mode AND S_IFMT = S_IFIFO)
      in
      if dir_mode oe nd AND S_ISVTX = 0 then None
      else if reg \<and> oe_protected_regular oe = 0 then None
      else if fifo \<and> oe_protected_fifos oe = 0 then None
      else if vfsuid_eq i_vfsuid (dir_vfsuid oe nd) then None
      else if vfsuid_eq i_vfsuid (Some (oe_fsuid oe)) then None
      else if dir_mode oe nd AND 2 \<noteq> 0 then Some EACCES
      else if dir_mode oe nd AND 0x10 \<noteq> 0 \<and>
              (oe_protected_fifos oe \<ge> 2 \<and> fifo \<or> oe_protected_regular oe \<ge> 2 \<and> reg) then Some EACCES
      else None)"

subsection \<open>Permission to open\<close>

definition may_open_dev :: "open_env \<Rightarrow> path \<Rightarrow> bool" where
  "may_open_dev oe path \<longleftrightarrow> \<not> oe_mnt_nodev oe (p_mnt path) \<and> \<not> oe_sb_nodev oe (p_mnt path)"

text \<open>The \<open>switch\<close> on the type of the file: an error, or the flags to go on with.\<close>

definition may_open_type :: "open_env \<Rightarrow> path \<Rightarrow> umode \<Rightarrow> u32 \<Rightarrow> u32 \<Rightarrow> errno + u32" where
  "may_open_type oe path type acc_mode flag =
     (let exec = has_flag acc_mode (oe_may_exec oe) in
      if type = S_IFLNK then Inl ELOOP
      else if type = S_IFDIR then
        (if has_flag acc_mode (oe_may_write oe) then Inl EISDIR else if exec then Inl EACCES else Inr flag)
      else if (type = S_IFBLK \<or> type = S_IFCHR) \<and> \<not> may_open_dev oe path then Inl EACCES
      else if type = S_IFBLK \<or> type = S_IFCHR \<or> type = S_IFIFO \<or> type = S_IFSOCK then
        (if exec then Inl EACCES else Inr (flag AND NOT (oe_o_trunc oe)))
      else if type = S_IFREG \<and> exec \<and> oe_path_noexec oe path then Inl EACCES
      else Inr flag)"

definition may_open :: "open_env \<Rightarrow> path \<Rightarrow> u32 \<Rightarrow> u32 \<Rightarrow> kstate \<Rightarrow> errno option" where
  "may_open oe path acc_mode flag st =
     (let inode = oe_d_inode oe (p_dentry path) st in
      if inode = None then Some ENOENT
      else case may_open_type oe path (oe_i_mode oe inode AND S_IFMT) acc_mode flag of
        Inl e \<Rightarrow> Some e
      | Inr flag \<Rightarrow>
          (case oe_inode_permission oe (p_mnt path) inode (oe_may_open oe OR acc_mode) st of
             Some e \<Rightarrow> Some e
           | None \<Rightarrow>
               if oe_is_append oe inode \<and> flag AND 3 \<noteq> 0 \<and> \<not> has_flag flag (oe_o_append oe) then Some EPERM
               else if oe_is_append oe inode \<and> has_flag flag (oe_o_trunc oe) then Some EPERM
               else if has_flag flag (oe_o_noatime oe) \<and> \<not> oe_owner_or_capable oe (p_mnt path) inode then Some EPERM
               else None))"

definition handle_truncate :: "open_env \<Rightarrow> path \<Rightarrow> kstate \<Rightarrow> errno option \<times> kstate" where
  "handle_truncate oe path st =
     (let inode = oe_d_inode oe (p_dentry path) st in
      case oe_get_write_access oe inode st of
        (Some e, st) \<Rightarrow> (Some e, st)
      | (None, st) \<Rightarrow>
          let (error, st) = (case oe_security_truncate oe path st of
                               Some e \<Rightarrow> (Some e, st)
                             | None \<Rightarrow> oe_do_truncate oe path st)
          in (error, oe_put_write_access oe inode st))"

definition open_to_namei_flags :: "u32 \<Rightarrow> u32" where
  "open_to_namei_flags flag = (if flag AND 3 = 3 then flag - 1 else flag)"

definition may_o_create :: "open_env \<Rightarrow> path \<Rightarrow> u64 \<Rightarrow> umode \<Rightarrow> inode option \<Rightarrow> kstate \<Rightarrow> errno option" where
  "may_o_create oe dir dentry mode dir_inode st =
     (case oe_security_path_mknod oe dir dentry mode st of
        Some e \<Rightarrow> Some e
      | None \<Rightarrow>
          if \<not> oe_has_mapping oe dir then Some EOVERFLOW
          else case oe_inode_permission oe (p_mnt dir) dir_inode (oe_may_write oe OR oe_may_exec oe) st of
            Some e \<Rightarrow> Some e
          | None \<Rightarrow> oe_security_create oe (p_dentry dir) dentry mode st)"

definition vfs_prepare_mode :: "open_env \<Rightarrow> u64 \<Rightarrow> u64 \<Rightarrow> umode \<Rightarrow> umode \<Rightarrow> umode \<Rightarrow> umode" where
  "vfs_prepare_mode oe mnt dir mode mask_perms type =
     (let mode = oe_strip_umask oe dir (oe_strip_sgid oe mnt dir mode)
      in (mode AND (mask_perms AND NOT S_IFMT)) OR (type AND S_IFMT))"

subsection \<open>Looking up and creating\<close>

definition DENTRY_NOT_SET :: u64 where "DENTRY_NOT_SET = - 1"

definition atomic_open ::
  "walk_env \<Rightarrow> open_env \<Rightarrow> (u64 \<Rightarrow> u32 \<Rightarrow> umode \<Rightarrow> kstate \<Rightarrow> (errno option \<times> u64) \<times> kstate) \<Rightarrow>
     u64 \<Rightarrow> u32 \<Rightarrow> umode \<Rightarrow> kstate \<Rightarrow> (errno + u64) \<times> kstate" where
  "atomic_open pr oe op dentry open_flag mode st =
     (let ((error, f_dentry), st) = op dentry (open_to_namei_flags open_flag) mode st;
          st = oe_d_lookup_done oe dentry st;
          dput = do_dput (we_dc pr)
      in case error of
           Some e \<Rightarrow> (Inl e, dput dentry st)
         | None \<Rightarrow>
             if ks_f_opened st then
               (if dentry \<noteq> f_dentry then (Inr f_dentry, do_dget (we_dc pr) f_dentry (dput dentry st))
                else (Inr dentry, st))
             else if f_dentry = DENTRY_NOT_SET then (Inl EIO, dput dentry st)
             else
               let (dentry, st) = (if f_dentry \<noteq> 0 then (f_dentry, dput dentry st) else (dentry, st))
               in if oe_d_inode oe dentry st = None then (Inl ENOENT, dput dentry st) else (Inr dentry, st))"

text \<open>
  The loop that finds the dentry, repeated while a cached one turns out invalid: \<open>None\<close> when the
  given number of rounds is used up.
\<close>

fun lookup_find ::
  "nat \<Rightarrow> walk_env \<Rightarrow> open_env \<Rightarrow> nameidata \<Rightarrow> u64 option \<Rightarrow> kstate \<Rightarrow> (errno + u64) option \<times> kstate" where
  "lookup_find 0 pr oe nd dentry st = (None, st)"
| "lookup_find (Suc n) pr oe nd dentry st =
     (let dir = p_dentry (nd_path nd); dc = we_dc pr;
          (r, st) = (case dentry of
                       Some d \<Rightarrow> (Inr d, st)
                     | None \<Rightarrow> oe_d_alloc_parallel oe dir (nd_last nd) st)
      in case r of
           Inl e \<Rightarrow> (Some (Inl e), st)
         | Inr d \<Rightarrow>
             if oe_d_in_lookup oe d st then (Some (Inr d), st)
             else
               (case d_revalidate pr (do_d_inode dc dir) (nd_last nd) d (nd_flags nd) st of
                  (Reval_ok, st) \<Rightarrow> (Some (Inr d), st)
                | (Reval_err e, st) \<Rightarrow> (Some (Inl e), do_dput dc d st)
                | (Reval_invalid, st) \<Rightarrow>
                    lookup_find n pr oe nd None (do_dput dc d (do_d_invalidate dc d st))))"

text \<open>
  The rest of \<open>lookup_open\<close> for a negative dentry of a directory without \<open>atomic_open\<close>: look it up,
  and create it if asked for and allowed. The second component says whether a delegation is left
  to break.
\<close>

definition lookup_real ::
  "walk_env \<Rightarrow> open_env \<Rightarrow> nameidata \<Rightarrow> u64 \<Rightarrow> kstate \<Rightarrow> (errno + u64) \<times> kstate" where
  "lookup_real pr oe nd dentry st =
     (if \<not> oe_d_in_lookup oe dentry st then (Inr dentry, st)
      else
        let (res, st) = oe_i_lookup oe (p_dentry (nd_path nd)) dentry (nd_flags nd) st;
            st = oe_d_lookup_done oe dentry st
        in case res of
             Inl e \<Rightarrow> (Inl e, do_dput (we_dc pr) dentry st)
           | Inr None \<Rightarrow> (Inr dentry, st)
           | Inr (Some res) \<Rightarrow> (Inr res, do_dput (we_dc pr) dentry st))"

definition create_dentry ::
  "'m hook \<Rightarrow> walk_env \<Rightarrow> open_env \<Rightarrow> nameidata \<Rightarrow> u64 \<Rightarrow> u32 \<Rightarrow> umode \<Rightarrow> kstate \<Rightarrow> (errno + u64) \<times> bool \<times> kstate" where
  "create_dentry hk pr oe nd dentry open_flag mode st =
     (let dir = p_dentry (nd_path nd); dput = do_dput (we_dc pr) in
      case oe_try_break_deleg oe dir st of
        (Some (e, delegated), st) \<Rightarrow> (Inl e, delegated, dput dentry st)
      | (None, st) \<Rightarrow>
          let st = st\<lparr>ks_f_created := True\<rparr> in
          case oe_i_create oe dir of
            None \<Rightarrow> (Inl EACCES, False, dput dentry st)
          | Some create \<Rightarrow>
              let (error, st) = create dentry mode (has_flag open_flag (hk_o_excl hk)) st in
              (case error of
                 Some e \<Rightarrow> (Inl e, False, dput dentry st)
               | None \<Rightarrow> (Inr dentry, False, st)))"

text \<open>
  After a successful creation the dentry has an inode; where it has none, the error found while
  checking is returned.
\<close>

definition lookup_create ::
  "'m hook \<Rightarrow> walk_env \<Rightarrow> open_env \<Rightarrow> nameidata \<Rightarrow> u64 \<Rightarrow> u32 \<Rightarrow> umode \<Rightarrow> errno option \<Rightarrow> kstate \<Rightarrow>
     (errno + u64) \<times> bool \<times> kstate" where
  "lookup_create hk pr oe nd dentry open_flag mode create_error st =
     (case lookup_real pr oe nd dentry st of
        (Inl e, st) \<Rightarrow> (Inl e, False, st)
      | (Inr dentry, st) \<Rightarrow>
          let (r, delegated, st) =
                (if oe_d_inode oe dentry st = None \<and> has_flag open_flag (hk_o_creat hk)
                 then create_dentry hk pr oe nd dentry open_flag mode st else (Inr dentry, False, st))
          in if \<not> isl r \<and> create_error \<noteq> None \<and> oe_d_inode oe dentry st = None
             then (Inl (the create_error), False, do_dput (we_dc pr) dentry st)
             else (r, delegated, st))"

definition lookup_open_dentry ::
  "'m hook \<Rightarrow> walk_env \<Rightarrow> open_env \<Rightarrow> umode \<Rightarrow> nameidata \<Rightarrow> u32 \<Rightarrow> bool \<Rightarrow> u64 \<Rightarrow> kstate \<Rightarrow>
     (errno + u64) \<times> bool \<times> kstate" where
  "lookup_open_dentry hk pr oe mode nd open_flag got_write dentry st =
     (let dir = p_dentry (nd_path nd); mnt = p_mnt (nd_path nd);
          creat = has_flag open_flag (hk_o_creat hk);
          flag = (if \<not> got_write \<or> creat \<and> has_flag open_flag (hk_o_excl hk)
                  then open_flag AND NOT (oe_o_trunc oe) else open_flag);
          mode = (if creat then vfs_prepare_mode oe mnt dir mode mode mode else mode);
          create_error = (if \<not> creat then None
                          else if got_write then may_o_create oe (nd_path nd) dentry mode (do_d_inode (we_dc pr) dir) st
                          else Some EROFS);
          flag = (if create_error \<noteq> None then flag AND NOT (hk_o_creat hk) else flag)
      in case oe_atomic_open oe dir of
           Some op \<Rightarrow>
             let flag = (if has_flag (nd_flags nd) (lm_directory (hk_masks hk)) then flag OR oe_o_directory oe else flag);
                 (r, st) = atomic_open pr oe op dentry flag mode st
             in (if create_error \<noteq> None \<and> r = Inl ENOENT then Inl (the create_error) else r, False, st)
         | None \<Rightarrow> lookup_create hk pr oe nd dentry flag mode create_error st)"

definition lookup_open ::
  "'m hook \<Rightarrow> walk_env \<Rightarrow> open_env \<Rightarrow> umode \<Rightarrow> nameidata \<Rightarrow> u32 \<Rightarrow> bool \<Rightarrow> kstate \<Rightarrow> open_res \<times> kstate" where
  "lookup_open hk pr oe mode nd open_flag got_write st =
     (let dir = p_dentry (nd_path nd) in
      if oe_is_deaddir oe dir st then (Open_err ENOENT, st)
      else
        let st = st\<lparr>ks_f_created := False\<rparr>;
            (dentry, st) = do_d_lookup (we_dc pr) dir (nd_last nd) st
        in case lookup_find (hk_rounds hk) pr oe nd dentry st of
             (None, st) \<Rightarrow> (Open_retrying, st)
           | (Some (Inl e), st) \<Rightarrow> (Open_err e, st)
           | (Some (Inr dentry), st) \<Rightarrow>
               let (r, delegated, st) =
                     (if oe_d_inode oe dentry st \<noteq> None then (Inr dentry, False, st)
                      else lookup_open_dentry hk pr oe mode nd open_flag got_write dentry st)
               in (case r of
                     Inl e \<Rightarrow> if delegated then Open_delegated e else Open_err e
                   | Inr dentry \<Rightarrow> if ks_f_opened st \<or> ks_f_created st then Open_opened dentry else Open_found dentry,
                   st))"

text \<open>The walk environment with the code of this theory in it.\<close>

definition open_walk_env :: "'m hook \<Rightarrow> walk_env \<Rightarrow> open_env \<Rightarrow> umode \<Rightarrow> walk_env" where
  "open_walk_env hk pr oe mode =
     pr\<lparr>we_lo := (we_lo pr)\<lparr>
          lo_may_follow_link := (\<lambda>nd inode st. (may_follow_link hk oe nd inode, st)),
          lo_mnt_want_write := (\<lambda>mnt st. let (e, st) = oe_mnt_want_write oe mnt st in (e = None, st)),
          lo_mnt_drop_write := oe_mnt_drop_write oe,
          lo_lookup_open := lookup_open hk pr oe mode\<rparr>\<rparr>"

subsection \<open>The last step\<close>

text \<open>
  \<open>do_open\<close> after the walk is complete, from the permission checks on. Errors are negative, so
  the test for a positive one has no counterpart.
\<close>

definition open_checked ::
  "open_env \<Rightarrow> open_flags \<Rightarrow> nameidata \<Rightarrow> u32 \<Rightarrow> u32 \<Rightarrow> bool \<Rightarrow> kstate \<Rightarrow> errno option \<times> kstate" where
  "open_checked oe op nd acc_mode open_flag do_truncate st =
     (let path = nd_path nd;
          error = may_open oe path acc_mode open_flag st;
          (error, st) = (if error = None \<and> \<not> ks_f_opened st then oe_vfs_open oe path st else (error, st));
          error = (if error = None then oe_post_open oe (op_acc_mode op) st else error);
          (error, st) = (if error = None \<and> do_truncate then handle_truncate oe path st else (error, st))
      in (error, if do_truncate then oe_mnt_drop_write oe (p_mnt path) st else st))"

definition do_open ::
  "'m hook \<Rightarrow> walk_env \<Rightarrow> open_env \<Rightarrow> open_flags \<Rightarrow> nameidata \<Rightarrow> kstate \<Rightarrow> errno option \<times> nameidata \<times> kstate" where
  "do_open hk pr oe op nd st =
     (let open_flag = op_open_flag op;
          (error, nd, st) = (if \<not> (ks_f_opened st \<or> ks_f_created st) then complete_walk hk pr nd st else (None, nd, st))
      in case error of
           Some e \<Rightarrow> (Some e, nd, st)
         | None \<Rightarrow>
             let dentry = p_dentry (nd_path nd);
                 created = ks_f_created st;
                 creat = has_flag open_flag (hk_o_creat hk);
                 sticky = (if creat then may_create_in_sticky oe nd (oe_d_inode oe dentry st) else None)
             in
             if creat \<and> has_flag open_flag (hk_o_excl hk) \<and> \<not> created then (Some EEXIST, nd, st)
             else if creat \<and> oe_d_is_dir oe dentry st then (Some EISDIR, nd, st)
             else if sticky \<noteq> None then (sticky, nd, st)
             else if has_flag (nd_flags nd) (lm_directory (hk_masks hk)) \<and> \<not> do_d_can_lookup (we_dc pr) dentry
               then (Some ENOTDIR, nd, st)
             else if created then
               (let (error, st) = open_checked oe op nd 0 (open_flag AND NOT (oe_o_trunc oe)) False st in (error, nd, st))
             else if oe_d_is_reg oe dentry st \<and> has_flag open_flag (oe_o_trunc oe) then
               (case oe_mnt_want_write oe (p_mnt (nd_path nd)) st of
                  (Some e, st) \<Rightarrow> (Some e, nd, st)
                | (None, st) \<Rightarrow>
                    let (error, st) = open_checked oe op nd (op_acc_mode op) open_flag True st in (error, nd, st))
             else let (error, st) = open_checked oe op nd (op_acc_mode op) open_flag False st in (error, nd, st))"

subsection \<open>Temporary files\<close>

text \<open>The file's path is the new dentry under the name \<^verbatim>\<open>/\<close> of the directory.\<close>

definition vfs_tmpfile ::
  "'m hook \<Rightarrow> walk_env \<Rightarrow> open_env \<Rightarrow> path \<Rightarrow> u32 \<Rightarrow> umode \<Rightarrow> kstate \<Rightarrow> errno option \<times> kstate" where
  "vfs_tmpfile hk pr oe parent open_flag mode st =
     (let mnt = p_mnt parent; dir = p_dentry parent in
      case oe_inode_permission oe mnt (do_d_inode (we_dc pr) dir) (oe_may_write oe OR oe_may_exec oe) st of
        Some e \<Rightarrow> (Some e, st)
      | None \<Rightarrow>
          (case oe_i_tmpfile oe dir of
             None \<Rightarrow> (Some EOPNOTSUPP, st)
           | Some tmpfile \<Rightarrow>
               (case oe_d_alloc oe dir st of
                  (None, st) \<Rightarrow> (Some ENOMEM, st)
                | (Some child, st) \<Rightarrow>
                    let f_path = \<lparr>p_mnt = mnt, p_dentry = child\<rparr>;
                        (error, st) = tmpfile f_path (vfs_prepare_mode oe mnt dir mode mode mode) st;
                        st = do_dput (we_dc pr) child st;
                        error = (if error = None then may_open oe f_path 0 open_flag st else error)
                    in (error,
                        if error = None \<and> \<not> has_flag open_flag (hk_o_excl hk)
                        then oe_set_linkable oe (oe_d_inode oe child st) st else st))))"

end
