(* ===== verification/Path_Open.thy ===== *)
theory Path_Open
  imports Vfs_Open
begin

text \<open>
  Opening a path: \<open>path_openat\<close> with its loop over trailing links, \<open>do_file_open\<close> with its three
  attempts, and what holds of an open: it ends, the stack of links stays bounded, a name the
  policy hides is neither opened nor created, an exclusive open succeeds only on a file it
  created, and files are created and truncated only where that was asked for and allowed.
\<close>

subsection \<open>The last component of an open, as its caller sees it\<close>

definition open_step :: "walk_res \<Rightarrow> nameidata \<Rightarrow> nameidata \<Rightarrow> bool" where
  "open_step res nd nd' \<longleftrightarrow>
     grows nd nd' \<and>
     (\<forall>body. res = Walk_link body \<longrightarrow>
        nd_total_link_count nd < MAXSYMLINKS \<and> nd_total_link_count nd < nd_total_link_count nd')"

lemma comp_open: "comp_step stay res nd nd' \<Longrightarrow> open_step res nd nd'"
  by (auto simp: comp_step_def open_step_def grows_def)

lemma link_open: "link_step res nd nd' \<Longrightarrow> open_step res nd nd'"
  using comp_open link_comp by blast

lemma grows_open: "grows a b \<Longrightarrow> open_step res b c \<Longrightarrow> open_step res a c"
  by (auto simp: open_step_def grows_def)

lemma grows_flags [simp]: "grows nd (nd\<lparr>nd_flags := f\<rparr>)" "grows (nd\<lparr>nd_flags := f\<rparr>) nd' = grows nd nd'"
  "grows nd (nd'\<lparr>nd_flags := f\<rparr>) = grows nd nd'"
  by (simp_all add: grows_def stack_ok_def)

lemma grows_last [simp]: "grows (nd\<lparr>nd_last := q\<rparr>) nd' = grows nd nd'" "grows nd (nd'\<lparr>nd_last := q\<rparr>) = grows nd nd'"
  "grows nd (nd'\<lparr>nd_path := p\<rparr>) = grows nd nd'"
  by (simp_all add: grows_def stack_ok_def)

lemma open_step_fields [simp]:
  "open_step res nd (nd'\<lparr>nd_flags := f\<rparr>) = open_step res nd nd'" "open_step res (nd\<lparr>nd_flags := f\<rparr>) nd' = open_step res nd nd'"
  "open_step res nd (nd'\<lparr>nd_last := q\<rparr>) = open_step res nd nd'" "open_step res (nd\<lparr>nd_last := q\<rparr>) nd' = open_step res nd nd'"
  "open_step res nd (nd'\<lparr>nd_path := p\<rparr>) = open_step res nd nd'"
  by (simp_all add: open_step_def)

lemma open_step_quiet [simp]: "open_step (Walk_err e) nd nd' = grows nd nd'" "open_step Walk_done nd nd' = grows nd nd'"
  "open_step Walk_retrying nd nd' = grows nd nd'"
  by (simp_all add: open_step_def)

context walk_vfs
begin

lemma put_link_grows: "vf_put_link v nd st = (nd', st') \<Longrightarrow> grows nd nd'"
  using put_link_pops [of nd st nd' st'] by (auto simp: same_links_def grows_def stack_ok_def)

lemma finish_open:
  assumes "open_finish_lookup hk v dentry nd st = (res, nd', st')"
  shows "open_step res nd nd'"
proof -
  obtain nd1 st1 where p: "(if nd_depth nd \<noteq> 0 then vf_put_link v nd st else (nd, st)) = (nd1, st1)" by fastforce
  have g: "grows nd nd1" using p put_link_grows by (auto split: if_splits)
  obtain res' nd2 st2 where s: "vf_step_into v nd1 WALK_TRAILING dentry st1 = (res', nd2, st2)" by (metis prod_cases3)
  have "open_step res nd1 nd2" "res' = res" using link_open [OF step_into_links [OF s]] assms p s
    by (auto simp: open_finish_lookup_def Let_def)
  then have "open_step res nd nd2" using grows_open [OF g] by blast
  then show ?thesis using assms p s by (auto simp: open_finish_lookup_def Let_def split: if_splits)
qed

lemma retry_open:
  "open_retry n hk v fl nd st = (res, nd', st') \<Longrightarrow> open_step res nd nd'"
proof (induction n arbitrary: nd st)
  case (Suc n)
  obtain w st1 where w: "(if has_flag fl (hk_o_creat hk OR hk_o_write hk) then vf_mnt_want_write v (p_mnt (nd_path nd)) st else (False, st)) = (w, st1)"
    by fastforce
  obtain r nd1 st2 where o: "vf_lookup_open v nd fl w st1 = (r, nd1, st2)" by (metis prod_cases3)
  have nd1: "nd1 = nd" by (rule lookup_open_quiet [OF o])
  show ?case
  proof (cases r)
    case (Open_delegated e)
    then show ?thesis using Suc w o nd1 by (auto simp: Let_def split: prod.splits option.splits)
  next
    case (Open_found d)
    then show ?thesis using Suc.prems w o nd1 finish_open by (auto simp: Let_def)
  qed (use Suc.prems w o nd1 in \<open>auto simp: Let_def\<close>)
qed simp

lemma fast_open:
  assumes "lookup_fast_for_open hk v nd fl st = (r, nd', st')"
  shows "grows nd nd'"
  using assms quiet_grows [OF lookup_fast_quiet]
  by (fastforce simp: lookup_fast_for_open_def Let_def split: if_splits prod.splits sum.splits option.splits)

lemma dots_open:
  assumes "(let (nd, st) = (if nd_depth nd \<noteq> 0 then vf_put_link v nd st else (nd, st))
    in vf_handle_dots v nd (t nd) st) = (res, nd', st')"
  shows "open_step res nd nd'"
proof -
  obtain nd1 st1 where p: "(if nd_depth nd \<noteq> 0 then vf_put_link v nd st else (nd, st)) = (nd1, st1)" by fastforce
  have g: "grows nd nd1" using p put_link_grows by (auto split: if_splits)
  have h: "vf_handle_dots v nd1 (t nd1) st1 = (res, nd', st')" using assms p by simp
  have "grows nd1 nd'" "res = Walk_done \<or> (\<exists>e. res = Walk_err e)"
    using handle_dots_quiet [OF h] quiet_grows by blast+
  then show ?thesis using grows_trans [OF g] by auto
qed

lemma common_open:
  assumes "open_last_lookups_common hk v fl intent nd st = (res, nd', st')"
  shows "open_step res nd nd'"
proof (cases "nd_last_type nd = LAST_NORM")
  case False
  then show ?thesis using assms dots_open [of "nd\<lparr>nd_flags := nd_flags nd OR intent\<rparr>" st nd_last_type res nd' st']
    by (simp add: open_last_lookups_common_def Let_def)
next
  case True
  obtain r nd1 st1 where f: "lookup_fast_for_open hk v (nd\<lparr>nd_flags := nd_flags nd OR intent\<rparr>) fl st = (r, nd1, st1)"
    by (metis prod_cases3)
  have g: "grows nd nd1" using fast_open [OF f] by simp
  have u: "grows nd nd2" if "vf_try_to_unlazy v nd1 st1 = (ok, nd2, st2)" for ok nd2 st2
    using grows_trans [OF g quiet_grows [OF unlazy_quiet [OF that]]] .
  have retry: "open_step res nd nd'" if "open_retry n hk v fl nd2 st2 = (res, nd', st')" "grows nd nd2" for n nd2 st2
    using grows_open [OF that(2) retry_open [OF that(1)]] .
  show ?thesis
    using assms True f g u retry grows_open [OF g finish_open]
    by (auto simp: open_last_lookups_common_def Let_def split: sum.splits option.splits if_splits prod.splits)
qed

lemma namei_ext_open:
  assumes "open_last_lookups_namei_ext hk v fl intent nd rd st m = (res, nd', st', m')"
  shows "open_step res nd nd'"
proof (cases "nd_last_type nd = LAST_NORM")
  case False
  then show ?thesis using assms dots_open [of "nd\<lparr>nd_flags := nd_flags nd OR intent\<rparr>" st nd_last_type res nd' st']
    by (auto simp: open_last_lookups_namei_ext_def Let_def split: prod.splits)
next
  case True
  let ?nd = "nd\<lparr>nd_flags := nd_flags nd OR intent\<rparr>"
  obtain r nd1 st1 m1 where d: "hook_decide hk v ?nd rd st m = (r, nd1, st1, m1)" by (metis prod_cases4)
  note q = hook_decide_links [OF d]
  show ?thesis
  proof (cases r)
    case (Inl r')
    then have "open_step r' nd nd1" using q link_open by fastforce
    then show ?thesis using assms True d Inl by (simp add: open_last_lookups_namei_ext_def)
  next
    case (Inr rd1)
    then have g: "grows nd nd1" using q quiet_grows by fastforce
    show ?thesis
    proof (cases "rd_target_active rd1")
      case t: True
      obtain e nd2 rd2 st2 where a: "namei_ext_apply_target hk v nd1 rd1 st1 = (e, nd2, rd2, st2)" by (metis prod_cases4)
      have g2: "grows nd nd2" using grows_trans [OF g quiet_grows [OF same_links_quiet [OF apply_target_same [OF a], of True]]] .
      obtain nd3 st3 where p: "(if nd_depth nd2 \<noteq> 0 then vf_put_link v nd2 st2 else (nd2, st2)) = (nd3, st3)" by fastforce
      have g3: "grows nd nd3" using p grows_trans [OF g2] put_link_grows by (auto split: if_splits)
      have "(\<exists>e. res = Walk_err e) \<and> nd' \<in> {nd1, nd2} \<or> res = Walk_done \<and> nd' = nd3"
        using assms True d Inr t a p
        by (cases e; cases "has_flag (nd_flags nd1) (lm_directory (hk_masks hk))") (auto simp: open_last_lookups_namei_ext_def Let_def)
      then show ?thesis using g g2 g3 by auto
    next
      case f: False
      obtain s2 where r: "hook_redirected v (open_last_lookups_common hk v fl intent) nd1 rd1 st1 = (res, nd', s2)"
        using assms True d Inr f by (auto simp: open_last_lookups_namei_ext_def split: prod.splits)
      have c: "open_step res nd n'" if "open_last_lookups_common hk v fl intent (nd1\<lparr>nd_last := q\<rparr>) s = (res, n', s')" for q n' s s'
        using common_open [OF that] grows_open [OF g] by simp
      have c1: "open_step res nd n'" if "open_last_lookups_common hk v fl intent nd1 s = (res, n', s')" for n' s s'
        using grows_open [OF g common_open [OF that]] .
      show ?thesis
        using r c c1 g
        by (auto simp: hook_redirected_def namei_ext_apply_redirect_def namei_ext_hash_redirect_def Let_def
            split: if_splits prod.splits option.splits)
    qed
  qed
qed

lemma open_last_lookups_open:
  assumes "open_last_lookups hk v fl intent nd rd st m = (res, nd', st', m')"
  shows "open_step res nd nd'"
  using assms namei_ext_open common_open by (auto simp: open_last_lookups_def split: if_splits prod.splits)

end

subsection \<open>The loop of an open\<close>

text \<open>
  One turn of the loop of \<open>path_openat\<close>. An open that is still waiting for delegations when its
  rounds are used up has not returned: the end \<open>None\<close>.
\<close>

definition open_turn ::
  "'m hook \<Rightarrow> walk_env \<Rightarrow> (nameidata \<Rightarrow> namei_ext_redirect) \<Rightarrow> open_flags \<Rightarrow> 'm lookup_cfg \<Rightarrow>
     'm walk_end option + 'm lookup_cfg" where
  "open_turn hk pr junk op = (\<lambda>(s, nd, st, m).
     case link_path_walk hk pr junk s nd st m of
       (Some e, nd, st, m) \<Rightarrow> Inl (Some (Some e, nd, st, m))
     | (None, nd, st, m) \<Rightarrow>
         (case open_last_lookups hk (kernel_vfs hk pr) (op_open_flag op) (op_intent op) nd (junk nd) st m of
            (Walk_err e, nd, st, m) \<Rightarrow> Inr (Inl e, nd, st, m)
          | (Walk_link body, nd, st, m) \<Rightarrow> Inr (Inr body, nd, st, m)
          | (Walk_done, nd, st, m) \<Rightarrow> Inl (Some (None, nd, st, m))
          | (Walk_retrying, nd, st, m) \<Rightarrow> Inl None))"

lemma open_turn_decreases:
  assumes "open_turn hk pr junk op cfg = Inr cfg'"
  shows "(cfg', cfg) \<in> measures [lookup_links_left, \<lambda>(s, nd, st, m). if isl s then 0 else 1]"
proof -
  obtain s nd st m where cfg: "cfg = (s, nd, st, m)" by (cases cfg)
  obtain e nd1 st1 m1 where w: "link_path_walk hk pr junk s nd st m = (e, nd1, st1, m1)" by (metis prod_cases4)
  obtain res nd2 st2 m2 where
    l: "open_last_lookups hk (kernel_vfs hk pr) (op_open_flag op) (op_intent op) nd1 (junk nd1) st1 m1 = (res, nd2, st2, m2)"
    by (metis prod_cases4)
  have en: "e = None" using assms w by (cases e) (auto simp: cfg open_turn_def)
  then have "\<not> isl s" using w by (cases s) (auto simp: link_path_walk_def Let_def)
  moreover have "grows nd nd1" by (rule link_path_walk_grows [OF w])
  moreover have "(\<exists>e. res = Walk_err e \<and> cfg' = (Inl e, nd2, st2, m2)) \<or> (\<exists>b. res = Walk_link b \<and> cfg' = (Inr b, nd2, st2, m2))"
    using assms w l en by (auto simp: cfg open_turn_def split: walk_res.splits)
  ultimately show ?thesis
    using kernel.open_last_lookups_open [OF l] by (auto simp: cfg open_step_def grows_def)
qed

function open_loop ::
  "'m hook \<Rightarrow> walk_env \<Rightarrow> (nameidata \<Rightarrow> namei_ext_redirect) \<Rightarrow> open_flags \<Rightarrow> 'm lookup_cfg \<Rightarrow> 'm walk_end option" where
  "open_loop hk pr junk op cfg =
     (case open_turn hk pr junk op cfg of Inl r \<Rightarrow> r | Inr cfg' \<Rightarrow> open_loop hk pr junk op cfg')"
  by auto

termination
proof (relation "inv_image (measures [lookup_links_left, \<lambda>(s, nd, st, m). if isl s then 0 else 1]) (snd \<circ> snd \<circ> snd \<circ> snd)")
  fix hk :: "'m hook" and pr junk op and cfg cfg' :: "'m lookup_cfg"
  assume "open_turn hk pr junk op cfg = Inr cfg'"
  from open_turn_decreases [OF this]
  show "((hk, pr, junk, op, cfg'), hk, pr, junk, op, cfg) \<in>
      inv_image (measures [lookup_links_left, \<lambda>(s, nd, st, m). if isl s then 0 else 1]) (snd \<circ> snd \<circ> snd \<circ> snd)"
    by simp
qed simp

declare open_loop.simps [simp del]

subsection \<open>Opening by path and by name\<close>

definition do_tmpfile ::
  "'m hook \<Rightarrow> walk_env \<Rightarrow> open_env \<Rightarrow> (nameidata \<Rightarrow> namei_ext_redirect) \<Rightarrow> u32 \<Rightarrow> open_flags \<Rightarrow> nameidata \<Rightarrow>
     kstate \<Rightarrow> 'm \<Rightarrow> 'm walk_end" where
  "do_tmpfile hk pr oe junk flags op nd st m =
     (case path_lookupat hk pr junk (flags OR lm_directory (hk_masks hk)) nd st m of
        (Inl e, nd, st, m) \<Rightarrow> (Some e, nd, st, m)
      | (Inr path, nd, st, m) \<Rightarrow>
          (case oe_mnt_want_write oe (p_mnt path) st of
             (Some e, st) \<Rightarrow> (Some e, nd, path_put path st, m)
           | (None, st) \<Rightarrow>
               let (error, st) = vfs_tmpfile hk pr oe path (op_open_flag op) (op_mode op) st
               in (error, nd, path_put path (oe_mnt_drop_write oe (p_mnt path) st), m)))"

definition do_o_path ::
  "'m hook \<Rightarrow> walk_env \<Rightarrow> open_env \<Rightarrow> (nameidata \<Rightarrow> namei_ext_redirect) \<Rightarrow> u32 \<Rightarrow> nameidata \<Rightarrow> kstate \<Rightarrow> 'm \<Rightarrow>
     'm walk_end" where
  "do_o_path hk pr oe junk flags nd st m =
     (case path_lookupat hk pr junk flags nd st m of
        (Inl e, nd, st, m) \<Rightarrow> (Some e, nd, st, m)
      | (Inr path, nd, st, m) \<Rightarrow>
          let (error, st) = oe_vfs_open oe path st in (error, nd, path_put path st, m))"

text \<open>
  \<open>path_openat\<close> over the environment of \<^verbatim>\<open>Vfs_Open\<close>. A file is a success; \<open>None\<close> is an open that has
  not returned.
\<close>

definition path_openat ::
  "'m hook \<Rightarrow> walk_env \<Rightarrow> open_env \<Rightarrow> (nameidata \<Rightarrow> namei_ext_redirect) \<Rightarrow> open_flags \<Rightarrow> u32 \<Rightarrow> nameidata \<Rightarrow>
     kstate \<Rightarrow> 'm \<Rightarrow> ((errno + unit) \<times> nameidata \<times> kstate \<times> 'm) option" where
  "path_openat hk pr0 oe junk op flags nd st m =
     (let pr = open_walk_env hk pr0 oe (op_mode op) in
      case oe_alloc_file oe st of
        (Some e, st) \<Rightarrow> Some (Inl e, nd, st, m)
      | (None, st) \<Rightarrow>
          let st = st\<lparr>ks_f_opened := False, ks_f_created := False\<rparr>;
              walked =
                (if has_flag (op_open_flag op) (oe_o_tmpfile oe) then Some (do_tmpfile hk pr oe junk flags op nd st m)
                 else if has_flag (op_open_flag op) (oe_o_path oe) then Some (do_o_path hk pr oe junk flags nd st m)
                 else
                   let (s, nd, st) = path_init hk pr flags nd st in
                   map_option
                     (\<lambda>(error, nd, st, m).
                        let (error, nd, st) = (if error = None then do_open hk pr oe op nd st else (error, nd, st));
                            (nd, st) = terminate_walk hk pr nd st
                        in (error, nd, st, m))
                     (open_loop hk pr junk op (s, nd, st, m)))
          in map_option
               (\<lambda>(error, nd, st, m).
                  if error = None \<and> ks_f_opened st then (Inr (), nd, st, m)
                  else
                    (Inl (case error of
                            None \<Rightarrow> EINVAL
                          | Some e \<Rightarrow> if e = EOPENSTALE then (if has_flag flags (lm_rcu (hk_masks hk)) then ECHILD else ESTALE)
                                    else e),
                     nd, oe_fput oe st, m))
               walked)"

text \<open>The three attempts, as for a lookup.\<close>

definition open_attempts ::
  "'m hook \<Rightarrow> walk_env \<Rightarrow> (u32 \<Rightarrow> nameidata \<Rightarrow> kstate \<Rightarrow> 'm \<Rightarrow> ((errno + 'r) \<times> nameidata \<times> kstate \<times> 'm) option) \<Rightarrow> u32 \<Rightarrow>
     nameidata \<Rightarrow> kstate \<Rightarrow> 'm \<Rightarrow> ((errno + 'r) \<times> nameidata \<times> kstate \<times> 'm) option" where
  "open_attempts hk pr op flags nd st m =
     Option.bind (op (flags OR lm_rcu (hk_masks hk)) nd st m) (\<lambda>(r, nd, st, m).
     Option.bind (if r = Inl ECHILD then op flags nd st m else Some (r, nd, st, m)) (\<lambda>(r, nd, st, m).
       if r = Inl ESTALE then op (flags OR wf_reval (we_fl pr)) nd st m else Some (r, nd, st, m)))"

definition do_file_open ::
  "'m hook \<Rightarrow> walk_env \<Rightarrow> open_env \<Rightarrow> (nameidata \<Rightarrow> namei_ext_redirect) \<Rightarrow> int \<Rightarrow> errno + bytes \<Rightarrow> open_flags \<Rightarrow>
     nat option \<Rightarrow> nameidata \<Rightarrow> kstate \<Rightarrow> 'm \<Rightarrow> ((errno + unit) \<times> nat option \<times> kstate \<times> 'm) option" where
  "do_file_open hk pr oe junk dfd pathname op old nd st m =
     (case pathname of
        Inl e \<Rightarrow> Some (Inl e, old, st, m)
      | Inr name \<Rightarrow>
          map_option (\<lambda>(r, nd, st, m). (r, restore_nameidata old nd, st, m))
            (open_attempts hk pr (path_openat hk pr oe junk op) (op_lookup_flags op)
               (set_nameidata dfd name None old nd) st m))"

definition do_file_open_root ::
  "'m hook \<Rightarrow> walk_env \<Rightarrow> open_env \<Rightarrow> (nameidata \<Rightarrow> namei_ext_redirect) \<Rightarrow> path \<Rightarrow> errno + bytes \<Rightarrow> open_flags \<Rightarrow>
     nat option \<Rightarrow> nameidata \<Rightarrow> kstate \<Rightarrow> 'm \<Rightarrow> ((errno + unit) \<times> nat option \<times> kstate \<times> 'm) option" where
  "do_file_open_root hk pr oe junk root filename op old nd st m =
     (if do_d_is_symlink (we_dc pr) (p_dentry root) st \<and> has_flag (op_intent op) (lm_open (hk_masks hk))
      then Some (Inl ELOOP, old, st, m)
      else case filename of
        Inl e \<Rightarrow> Some (Inl e, old, st, m)
      | Inr name \<Rightarrow>
          map_option (\<lambda>(r, nd, st, m). (r, restore_nameidata old nd, st, m))
            (open_attempts hk pr (path_openat hk pr oe junk op) (op_lookup_flags op)
               (set_nameidata (-1) name (Some root) old nd) st m))"

subsection \<open>Refused names\<close>

text \<open>
  When the hook refuses the last name, nothing of the open happens: the file system is not asked,
  no file is created, and at most RCU mode is left.
\<close>

lemma open_refused_step:
  assumes "namei_ext_enabled st" "namei_ext_parent_maybe_managed (hk_hash hk) (nd_path nd) st"
    and "nd_last_type nd = LAST_NORM"
    and "hook_lookup hk (nd\<lparr>nd_flags := nd_flags nd OR intent\<rparr>) rd st m = (Some e, rd', m')"
  shows "open_last_lookups hk v fl intent nd rd st m =
    (let (r, nd, st) = fail_unlazy hk v e (nd\<lparr>nd_flags := nd_flags nd OR intent\<rparr>) st in (r, nd, st, m'))"
  using assms
  by (simp add: open_last_lookups_def open_last_lookups_namei_ext_def hook_decide_def hook_lookup_def Let_def split_beta)

lemma open_loop_refused:
  assumes "link_path_walk hk pr junk s nd st m = (None, nd1, st1, m1)"
    and "namei_ext_enabled st1" "namei_ext_parent_maybe_managed (hk_hash hk) (nd_path nd1) st1" "nd_last_type nd1 = LAST_NORM"
    and "hook_lookup hk (nd1\<lparr>nd_flags := nd_flags nd1 OR op_intent op\<rparr>) (junk nd1) st1 m1 = (Some e, rd', m2)"
  shows "\<exists>e' nd' st'. open_loop hk pr junk op (s, nd, st, m) = Some (Some e', nd', st', m2) \<and> e' \<in> {e, ECHILD} \<and>
    st' \<in> {st1, snd (snd (try_to_unlazy hk pr (nd1\<lparr>nd_flags := nd_flags nd1 OR op_intent op\<rparr>) st1))}"
proof -
  let ?nd = "nd1\<lparr>nd_flags := nd_flags nd1 OR op_intent op\<rparr>"
  obtain r nd2 st2 where f: "fail_unlazy hk (kernel_vfs hk pr) e ?nd st1 = (r, nd2, st2)" by (metis prod_cases3)
  have "vf_try_to_unlazy (kernel_vfs hk pr) = try_to_unlazy hk pr" by (simp add: kernel_vfs_def)
  then obtain e' where r: "r = Walk_err e'" "e' \<in> {e, ECHILD}" "st2 \<in> {st1, snd (snd (try_to_unlazy hk pr ?nd st1))}"
    using f by (auto simp: fail_unlazy_def split: if_splits prod.splits)
  have "open_last_lookups hk (kernel_vfs hk pr) (op_open_flag op) (op_intent op) nd1 (junk nd1) st1 m1 = (r, nd2, st2, m2)"
    using open_refused_step [OF assms(2-5), of "kernel_vfs hk pr" "op_open_flag op"] f by simp
  then have "open_turn hk pr junk op (s, nd, st, m) = Inr (Inl e', nd2, st2, m2)"
    using assms(1) r(1) by (simp add: open_turn_def)
  moreover obtain nd3 where "open_turn hk pr junk op (Inl e', nd2, st2, m2) = Inl (Some (Some e', nd3, st2, m2))"
    by (simp add: open_turn_def link_path_walk_def Let_def)
  ultimately have "open_loop hk pr junk op (s, nd, st, m) = Some (Some e', nd3, st2, m2)"
    by (subst open_loop.simps, simp) (simp add: open_loop.simps)
  then show ?thesis using r by blast
qed

subsection \<open>Creating and truncating\<close>

text \<open>An exclusive open never ends with a file that was there before.\<close>

lemma do_open_exclusive:
  assumes "has_flag (op_open_flag op) (hk_o_creat hk)" "has_flag (op_open_flag op) (hk_o_excl hk)" "\<not> ks_f_created st"
    and "\<And>nd' st'. complete_walk hk pr nd st = (None, nd', st') \<Longrightarrow> \<not> ks_f_created st'"
  shows "fst (do_open hk pr oe op nd st) \<noteq> None"
  using assms by (auto simp: do_open_def Let_def split: option.split prod.split)

text \<open>
  A file just created, and one opened without \<^verbatim>\<open>O_TRUNC\<close>, is never truncated: the open does not
  depend on what truncating does.
\<close>

lemma may_open_truncate: "may_open (oe\<lparr>oe_do_truncate := f\<rparr>) path acc fl st = may_open oe path acc fl st"
proof -
  have "may_open_type (oe\<lparr>oe_do_truncate := f\<rparr>) = may_open_type oe"
    by (simp add: fun_eq_iff may_open_type_def may_open_dev_def Let_def)
  then show ?thesis by (simp add: may_open_def Let_def cong: sum.case_cong option.case_cong if_cong)
qed

lemma open_checked_no_truncate:
  "open_checked (oe\<lparr>oe_do_truncate := f\<rparr>) op nd acc fl False st = open_checked oe op nd acc fl False st"
  by (simp add: open_checked_def may_open_truncate Let_def cong: prod.case_cong if_cong)

lemma do_open_truncates_only:
  assumes "ks_f_created st \<or> \<not> has_flag (op_open_flag op) (oe_o_trunc oe)"
  shows "do_open hk pr (oe\<lparr>oe_do_truncate := f\<rparr>) op nd st = do_open hk pr oe op nd st"
proof -
  have same: "may_create_in_sticky (oe\<lparr>oe_do_truncate := f\<rparr>) = may_create_in_sticky oe"
    by (simp add: fun_eq_iff may_create_in_sticky_def dir_mode_def dir_vfsuid_def Let_def cong: option.case_cong)
  consider "ks_f_created st" | "\<not> has_flag (op_open_flag op) (oe_o_trunc oe)" using assms by blast
  then show ?thesis
    by cases (simp_all add: do_open_def Let_def open_checked_no_truncate same cong: option.case_cong prod.case_cong if_cong)
qed

text \<open>
  A file is created only where that was asked for, the mount can be written and the checks of
  \<open>may_o_create\<close> pass: otherwise a lookup does not depend on what creating does. Directories with
  \<open>atomic_open\<close> do their own creating, and are not told \<^verbatim>\<open>O_CREAT\<close> then.
\<close>

definition may_create_file :: "'m hook \<Rightarrow> walk_env \<Rightarrow> open_env \<Rightarrow> nameidata \<Rightarrow> u32 \<Rightarrow> bool \<Rightarrow> bool" where
  "may_create_file hk pr oe nd open_flag got_write \<longleftrightarrow>
     has_flag open_flag (hk_o_creat hk) \<and> got_write \<and>
     (\<exists>dentry mode st. may_o_create oe (nd_path nd) dentry mode (do_d_inode (we_dc pr) (p_dentry (nd_path nd))) st = None)"

lemma has_flag_cleared [simp]: "\<not> has_flag (w AND NOT f) f"
  by (simp add: has_flag_def bit_eq_iff bit_simps)

lemma lookup_create_unused:
  assumes "\<not> has_flag fl (hk_o_creat hk)"
  shows "lookup_create hk pr (oe\<lparr>oe_i_create := f\<rparr>) nd d fl mode ce st = lookup_create hk pr oe nd d fl mode ce st"
proof -
  have "lookup_real pr (oe\<lparr>oe_i_create := f\<rparr>) nd d st = lookup_real pr oe nd d st"
    by (simp add: lookup_real_def Let_def cong: prod.case_cong sum.case_cong option.case_cong)
  then show ?thesis using assms by (simp add: lookup_create_def Let_def cong: prod.case_cong sum.case_cong)
qed

lemma lookup_find_create: "lookup_find n pr (oe\<lparr>oe_i_create := f\<rparr>) nd d st = lookup_find n pr oe nd d st"
  by (induction n arbitrary: d st) (auto simp: Let_def split: option.split sum.split prod.split reval.split)

lemma has_flag_creat_trunc:
  "\<not> has_flag fl c \<Longrightarrow> \<not> has_flag (fl AND NOT t) c"
  by (auto simp: has_flag_def bit_eq_iff bit_simps)

lemma lookup_open_creates_only:
  assumes "\<not> may_create_file hk pr oe nd open_flag got_write"
  shows "lookup_open hk pr (oe\<lparr>oe_i_create := f\<rparr>) mode nd open_flag got_write st = lookup_open hk pr oe mode nd open_flag got_write st"
proof -
  let ?oe = "oe\<lparr>oe_i_create := f\<rparr>"
  have "lookup_open_dentry hk pr ?oe mode nd open_flag got_write d s = lookup_open_dentry hk pr oe mode nd open_flag got_write d s" for d s
  proof -
    have same: "vfs_prepare_mode ?oe = vfs_prepare_mode oe" "may_o_create ?oe = may_o_create oe"
      "atomic_open pr ?oe = atomic_open pr oe"
      by (simp_all add: vfs_prepare_mode_def may_o_create_def atomic_open_def fun_eq_iff Let_def
          cong: option.case_cong prod.case_cong if_cong)
    let ?dir = "p_dentry (nd_path nd)"
    let ?mode = "vfs_prepare_mode oe (p_mnt (nd_path nd)) ?dir mode mode mode"
    show ?thesis
    proof (cases "has_flag open_flag (hk_o_creat hk)")
      case False
      then show ?thesis
        using has_flag_creat_trunc [OF False, of "oe_o_trunc oe"]
        by (simp add: lookup_open_dentry_def same Let_def lookup_create_unused cong: option.case_cong)
    next
      case True
      have "may_o_create oe (nd_path nd) d ?mode (do_d_inode (we_dc pr) ?dir) s \<noteq> None" if got_write
      proof -
        have "\<forall>d m s. may_o_create oe (nd_path nd) d m (do_d_inode (we_dc pr) ?dir) s \<noteq> None"
          using assms True that by (simp add: may_create_file_def)
        from this [rule_format, of d ?mode s] show ?thesis .
      qed
      then obtain e where "(if got_write then may_o_create oe (nd_path nd) d ?mode (do_d_inode (we_dc pr) ?dir) s else Some EROFS) = Some e"
        by (cases got_write) auto
      then show ?thesis
        using True
        by (cases got_write)
           (simp_all add: lookup_open_dentry_def same Let_def lookup_create_unused cong: option.case_cong prod.case_cong if_cong)
    qed
  qed
  then show ?thesis
    by (simp add: lookup_open_def Let_def lookup_find_create cong: prod.case_cong option.case_cong sum.case_cong if_cong)
qed

text \<open>Directories are not opened for writing, links not at all.\<close>

lemma may_open_write:
  assumes "may_open oe path acc fl st = None" "has_flag acc (oe_may_write oe)"
  shows "oe_i_mode oe (oe_d_inode oe (p_dentry path) st) AND S_IFMT \<notin> {S_IFDIR, S_IFLNK}"
  using assms by (auto simp: may_open_def may_open_type_def Let_def split: if_splits sum.splits option.splits)

text \<open>
  The comment of \<open>may_create_in_sticky\<close> speaks of FIFOs and regular files; a file of any other type
  is refused too, whatever the two settings.
\<close>

lemma sticky_refuses_any_type:
  assumes "oe_i_mode oe inode AND S_IFMT \<notin> {S_IFREG, S_IFIFO}"
    and "dir_mode oe nd AND S_ISVTX \<noteq> 0" "dir_mode oe nd AND 2 \<noteq> 0"
    and "\<not> vfsuid_eq (oe_i_uid oe (p_mnt (nd_path nd)) inode) (dir_vfsuid oe nd)"
    and "\<not> vfsuid_eq (oe_i_uid oe (p_mnt (nd_path nd)) inode) (Some (oe_fsuid oe))"
  shows "may_create_in_sticky oe nd inode = Some EACCES"
  using assms by (simp add: may_create_in_sticky_def Let_def)

subsection \<open>Opens that return\<close>

text \<open>Enough for an open to return: no cached dentry turns out invalid, and no delegation is left to break.\<close>

definition settled :: "'m hook \<Rightarrow> walk_env \<Rightarrow> open_env \<Rightarrow> bool" where
  "settled hk pr oe \<longleftrightarrow>
     hk_rounds hk > 0 \<and>
     (\<forall>dir q d fl st. fst (do_d_revalidate (we_dc pr) dir q d fl st) \<noteq> Reval_invalid) \<and>
     (\<forall>dir st e. fst (oe_try_break_deleg oe dir st) \<noteq> Some (e, True))"

definition no_wait :: "vfs \<Rightarrow> bool" where
  "no_wait v \<longleftrightarrow> (\<forall>nd fl w st. case fst (vf_lookup_open v nd fl w st) of Open_retrying \<Rightarrow> False | Open_delegated e \<Rightarrow> False | _ \<Rightarrow> True)"

lemma settled_lookup_find:
  assumes "settled hk pr oe"
  shows "fst (lookup_find (hk_rounds hk) pr oe nd d st) \<noteq> None"
proof -
  obtain n where n: "hk_rounds hk = Suc n" using assms by (auto simp: settled_def gr0_conv_Suc)
  have "fst (d_revalidate pr dir q d fl st) \<noteq> Reval_invalid" for dir q d fl st
    using assms by (simp add: settled_def d_revalidate_def)
  then have "d_revalidate pr dir q d fl st \<noteq> (Reval_invalid, st')" for dir q d fl st st' by (metis fst_conv)
  then show ?thesis
    by (auto simp: n Let_def split: option.split sum.split prod.split reval.split)
qed

lemma settled_lookup_create:
  assumes "settled hk pr oe"
  shows "\<not> fst (snd (lookup_create hk pr oe nd d fl mode ce st))"
proof -
  have t: "oe_try_break_deleg oe dir st \<noteq> (Some (e, True), st')" for dir st e st'
    using assms by (metis fst_conv settled_def)
  have c: "\<not> fst (snd (create_dentry hk pr oe nd d fl mode st))" for d st
    using t by (auto simp: create_dentry_def Let_def split: option.split prod.split)
  show ?thesis
    by (simp add: lookup_create_def Let_def split_beta c split: sum.split)
qed

lemma settled_lookup_open:
  assumes "settled hk pr oe"
  shows "case fst (lookup_open hk pr oe mode nd fl w st) of Open_retrying \<Rightarrow> False | Open_delegated e \<Rightarrow> False | _ \<Rightarrow> True"
proof -
  have d: "\<not> fst (snd (lookup_open_dentry hk pr oe mode nd fl w d st))" for d st
    by (cases "oe_atomic_open oe (p_dentry (nd_path nd))")
       (simp_all add: lookup_open_dentry_def Let_def split_beta settled_lookup_create [OF assms] split del: if_split)
  show ?thesis
  proof (cases "oe_is_deaddir oe (p_dentry (nd_path nd)) st")
    case False
    let ?found = "do_d_lookup (we_dc pr) (p_dentry (nd_path nd)) (nd_last nd) (st\<lparr>ks_f_created := False\<rparr>)"
    obtain r st1 where f: "lookup_find (hk_rounds hk) pr oe nd (fst ?found) (snd ?found) = (Some r, st1)"
      using settled_lookup_find [OF assms, of nd "fst ?found" "snd ?found"] by (metis not_None_eq prod.collapse)
    show ?thesis using False f d by (cases r) (simp_all add: lookup_open_def Let_def split_beta split: sum.split)
  qed (simp add: lookup_open_def)
qed

lemma settled_no_wait:
  assumes "settled hk pr oe"
  shows "no_wait (kernel_vfs hk (open_walk_env hk pr oe mode))"
  using settled_lookup_open [OF assms, of mode]
  by (simp add: no_wait_def kernel_vfs_def open_walk_env_def split_beta)

context walk_vfs
begin

lemma step_into_returns: "fst (vf_step_into v nd fl d st) \<noteq> Walk_retrying"
proof -
  obtain res nd' st' where s: "vf_step_into v nd fl d st = (res, nd', st')" by (metis prod_cases3)
  then show ?thesis using link_comp [OF step_into_links [OF s], of False] by (simp add: comp_step_def)
qed

lemma finish_returns: "fst (open_finish_lookup hk v dentry nd st) \<noteq> Walk_retrying"
  using step_into_returns by (simp add: open_finish_lookup_def Let_def split_beta)

lemma retry_returns:
  assumes "no_wait v" "n > 0"
  shows "fst (open_retry n hk v fl nd st) \<noteq> Walk_retrying"
proof -
  obtain k where n: "n = Suc k" using assms(2) by (auto simp: gr0_conv_Suc)
  obtain w st1 where w: "(if has_flag fl (hk_o_creat hk OR hk_o_write hk) then vf_mnt_want_write v (p_mnt (nd_path nd)) st else (False, st)) = (w, st1)"
    by fastforce
  obtain r nd1 st2 where o: "vf_lookup_open v nd fl w st1 = (r, nd1, st2)" by (metis prod_cases3)
  have "case r of Open_retrying \<Rightarrow> False | Open_delegated e \<Rightarrow> False | _ \<Rightarrow> True"
    using assms(1) o unfolding no_wait_def by (metis fst_conv)
  then show ?thesis by (cases r) (simp_all add: n w o Let_def finish_returns)
qed

lemma dots_return: "fst (vf_handle_dots v nd t st) \<noteq> Walk_retrying"
proof -
  obtain res nd' st' where h: "vf_handle_dots v nd t st = (res, nd', st')" by (metis prod_cases3)
  then show ?thesis using handle_dots_quiet [OF h] by auto
qed

lemma common_returns:
  assumes "no_wait v" "hk_rounds hk > 0"
  shows "fst (open_last_lookups_common hk v fl intent nd st) \<noteq> Walk_retrying"
  by (auto simp: open_last_lookups_common_def Let_def split_beta finish_returns retry_returns [OF assms] dots_return
      split: sum.split option.split)

lemma open_returns:
  assumes "no_wait v" "hk_rounds hk > 0"
  shows "fst (open_last_lookups hk v fl intent nd rd st m) \<noteq> Walk_retrying"
proof -
  have d: "fst (hook_decide hk v nd' rd st' m') \<noteq> Inl Walk_retrying" for nd' st' m'
  proof -
    obtain r nd2 st2 m2 where h: "hook_decide hk v nd' rd st' m' = (r, nd2, st2, m2)" by (metis prod_cases4)
    then show ?thesis using hook_decide_links [OF h] by (cases r) auto
  qed
  have r: "fst (hook_redirected v (open_last_lookups_common hk v fl intent) nd' rd' st') \<noteq> Walk_retrying" for nd' rd' st'
    by (auto simp: hook_redirected_def Let_def split_beta common_returns [OF assms] split: option.split)
  have "fst (open_last_lookups_namei_ext hk v fl intent nd rd st m) \<noteq> Walk_retrying"
    using d [of "nd\<lparr>nd_flags := nd_flags nd OR intent\<rparr>" st m]
    by (auto simp: open_last_lookups_namei_ext_def Let_def split_beta r dots_return split: sum.split option.split)
  then show ?thesis by (simp add: open_last_lookups_def split_beta common_returns [OF assms])
qed

end

lemma open_loop_returns:
  assumes "no_wait (kernel_vfs hk pr)" "hk_rounds hk > 0"
  shows "open_loop hk pr junk op cfg \<noteq> None"
  using assms
proof (induction hk pr junk op cfg rule: open_loop.induct)
  case (1 hk pr junk op cfg)
  obtain s nd st m where cfg: "cfg = (s, nd, st, m)" by (cases cfg)
  have "open_turn hk pr junk op cfg \<noteq> Inl None"
    using kernel.open_returns [OF 1(2,3)]
    by (auto simp: cfg open_turn_def split: prod.splits option.splits walk_res.splits) (metis fst_conv)
  then show ?case using 1 by (subst open_loop.simps) (auto split: sum.split)
qed

lemma path_openat_returns:
  assumes "settled hk pr oe"
  shows "path_openat hk pr oe junk op flags nd st m \<noteq> None"
proof -
  have "hk_rounds hk > 0" using assms by (simp add: settled_def)
  note loop = open_loop_returns [OF settled_no_wait [OF assms] this]
  show ?thesis
    by (simp add: path_openat_def Let_def split_beta loop del: not_None_eq split: option.split)
qed

lemma open_attempts_return:
  assumes "\<And>flags nd st m. op flags nd st m \<noteq> None"
  shows "open_attempts hk pr op flags nd st m \<noteq> None"
  by (simp add: open_attempts_def Option.bind_eq_None_conv split_beta assms del: not_None_eq)

lemma do_file_open_returns:
  assumes "settled hk pr oe"
  shows "do_file_open hk pr oe junk dfd pathname op old nd st m \<noteq> None"
    "do_file_open_root hk pr oe junk root pathname op old nd st m \<noteq> None"
  by (simp_all add: do_file_open_def do_file_open_root_def open_attempts_return path_openat_returns [OF assms]
      del: not_None_eq split: sum.split)

end
