(* ===== verification/Policies_Sharing.thy ===== *)
theory Policies_Sharing
  imports Policy_Lib
begin

text \<open>
  The policies whose view depends on who looks: \<open>application_file_sharing\<close> (grants per
  application cgroup), \<open>kubernetes_configmap_publication\<close> (one generation switch per
  cgroup) and \<open>service_config_rotation\<close> (managed cgroups only).
\<close>

subsection \<open>application\_file\_sharing\<close>

datatype afs_counter =
    AFS_COUNTER_TOTAL | AFS_COUNTER_LOOKUP | AFS_COUNTER_READDIR | AFS_COUNTER_SELECT
  | AFS_COUNTER_HIDE_LOOKUP | AFS_COUNTER_HIDE_READDIR | AFS_COUNTER_PASS
  | AFS_COUNTER_VISIBLE_READDIR

primrec afs_code :: "afs_counter \<Rightarrow> u32" where
  "afs_code AFS_COUNTER_TOTAL = 0"
| "afs_code AFS_COUNTER_LOOKUP = 1"
| "afs_code AFS_COUNTER_READDIR = 2"
| "afs_code AFS_COUNTER_SELECT = 3"
| "afs_code AFS_COUNTER_HIDE_LOOKUP = 4"
| "afs_code AFS_COUNTER_HIDE_READDIR = 5"
| "afs_code AFS_COUNTER_PASS = 6"
| "afs_code AFS_COUNTER_VISIBLE_READDIR = 7"

record afs_maps =
  sharing_scopes :: "ckey \<rightharpoonup> u32"
  sharing_grants :: "ckey \<rightharpoonup> u32"
  afs_counters :: "u64 list"

definition afs_count_event :: "afs_counter \<Rightarrow> afs_maps \<Rightarrow> afs_maps" where
  "afs_count_event k m = m\<lparr>afs_counters := count_array (afs_code k) (afs_counters m)\<rparr>"

text \<open>\<^verbatim>\<open>!p || !*p\<close> for a looked-up \<open>__u32\<close>.\<close>

definition unset :: "u32 option \<Rightarrow> bool" where
  "unset v \<longleftrightarrow> v = None \<or> v = Some 0"

definition application_file_sharing_policy :: "afs_maps policy" where
  "application_file_sharing_policy c m =
     (let m = afs_count_event AFS_COUNTER_TOTAL m;
          m = (if c_event c = BPF_NAMEI_EXT_LOOKUP then afs_count_event AFS_COUNTER_LOOKUP m
               else if c_event c = BPF_NAMEI_EXT_READDIR then afs_count_event AFS_COUNTER_READDIR m
               else m)
      in
      if \<not> namei_ext_is c ''document'' \<and> \<not> namei_ext_is c ''namei-fixed-doc-id-001'' then
        (BPF_NAMEI_EXT_PASS, c, afs_count_event AFS_COUNTER_PASS m)
      else
        let key = (namei_ext_build_component_key c zero_component_key)\<lparr>k_event := 0\<rparr>;
            scope_key = key\<lparr>k_cgroup_id := 0\<rparr>
        in
        if unset (sharing_scopes m scope_key) then
          (BPF_NAMEI_EXT_PASS, c, afs_count_event AFS_COUNTER_PASS m)
        else if unset (sharing_grants m key) then
          (BPF_NAMEI_EXT_HIDE, c,
           if c_event c = BPF_NAMEI_EXT_READDIR then afs_count_event AFS_COUNTER_HIDE_READDIR m
           else afs_count_event AFS_COUNTER_HIDE_LOOKUP m)
        else if c_event c = BPF_NAMEI_EXT_LOOKUP then
          (BPF_NAMEI_EXT_SELECT_TARGET, c\<lparr>c_target_id := the (sharing_grants m key)\<rparr>,
           afs_count_event AFS_COUNTER_SELECT m)
        else
          (BPF_NAMEI_EXT_PASS, c,
           afs_count_event AFS_COUNTER_PASS (afs_count_event AFS_COUNTER_VISIBLE_READDIR m)))"

lemmas afs_defs = application_file_sharing_policy_def afs_count_event_def Let_def

interpretation application_file_sharing: namei_policy application_file_sharing_policy
  by unfold_locales (auto simp: afs_defs ctx_wf_def)

interpretation afs_counting:
  counting_policy application_file_sharing_policy afs_counters 8 0 "[3, 4, 5, 6]"
  by unfold_locales (auto simp: afs_defs verdict_sum_def count_array_nth)

interpretation afs_coherent:
  coherent_policy application_file_sharing_policy "\<lambda>m. (sharing_scopes m, sharing_grants m)"
  by unfold_locales (auto simp: afs_defs)

subsection \<open>kubernetes\_configmap\_publication\<close>

datatype configmap_counter =
    CONFIGMAP_COUNTER_TOTAL | CONFIGMAP_COUNTER_LOOKUP | CONFIGMAP_COUNTER_READDIR
  | CONFIGMAP_COUNTER_SELECT | CONFIGMAP_COUNTER_PASS | CONFIGMAP_COUNTER_HIDE

primrec configmap_code :: "configmap_counter \<Rightarrow> u32" where
  "configmap_code CONFIGMAP_COUNTER_TOTAL = 0"
| "configmap_code CONFIGMAP_COUNTER_LOOKUP = 1"
| "configmap_code CONFIGMAP_COUNTER_READDIR = 2"
| "configmap_code CONFIGMAP_COUNTER_SELECT = 3"
| "configmap_code CONFIGMAP_COUNTER_PASS = 4"
| "configmap_code CONFIGMAP_COUNTER_HIDE = 5"

record configmap_maps =
  configmap_v0_views :: "ckey \<rightharpoonup> u32"
  configmap_v1_views :: "ckey \<rightharpoonup> u32"
  configmap_generations :: "u64 \<rightharpoonup> u32"
  configmap_counters :: "u64 list"

definition configmap_count_event :: "configmap_counter \<Rightarrow> configmap_maps \<Rightarrow> configmap_maps" where
  "configmap_count_event k m =
     m\<lparr>configmap_counters := count_array (configmap_code k) (configmap_counters m)\<rparr>"

definition kubernetes_configmap_publication_policy :: "configmap_maps policy" where
  "kubernetes_configmap_publication_policy c m =
     (case configmap_generations m (c_cgroup_id c) of
        None \<Rightarrow> (BPF_NAMEI_EXT_PASS, c, m)
      | Some generation \<Rightarrow>
          let m = configmap_count_event CONFIGMAP_COUNTER_TOTAL m;
              m = (if c_event c = BPF_NAMEI_EXT_LOOKUP
                   then configmap_count_event CONFIGMAP_COUNTER_LOOKUP m
                   else if c_event c = BPF_NAMEI_EXT_READDIR
                   then configmap_count_event CONFIGMAP_COUNTER_READDIR m
                   else m);
              key = (namei_ext_build_component_key c zero_component_key)\<lparr>k_event := 0\<rparr>;
              target_id = (if generation \<noteq> 0 then configmap_v1_views m key
                           else configmap_v0_views m key)
          in
          case target_id of
            None \<Rightarrow> (BPF_NAMEI_EXT_PASS, c, configmap_count_event CONFIGMAP_COUNTER_PASS m)
          | Some t \<Rightarrow>
              if t = 0 then
                (BPF_NAMEI_EXT_HIDE, c, configmap_count_event CONFIGMAP_COUNTER_HIDE m)
              else if c_event c = BPF_NAMEI_EXT_LOOKUP then
                (BPF_NAMEI_EXT_SELECT_TARGET, c\<lparr>c_target_id := t\<rparr>,
                 configmap_count_event CONFIGMAP_COUNTER_SELECT m)
              else (BPF_NAMEI_EXT_PASS, c, configmap_count_event CONFIGMAP_COUNTER_PASS m))"

lemmas configmap_defs =
  kubernetes_configmap_publication_policy_def configmap_count_event_def Let_def

interpretation kubernetes_configmap_publication:
  namei_policy kubernetes_configmap_publication_policy
  by unfold_locales (auto simp: configmap_defs ctx_wf_def split: option.split)

interpretation configmap_counting:
  counting_policy kubernetes_configmap_publication_policy configmap_counters 6 0 "[3, 4, 5]"
  by unfold_locales (auto simp: configmap_defs verdict_sum_def count_array_nth split: option.split)

interpretation configmap_coherent:
  coherent_policy kubernetes_configmap_publication_policy
    "\<lambda>m. (configmap_v0_views m, configmap_v1_views m, configmap_generations m)"
  by unfold_locales (auto simp: configmap_defs split: option.split)

subsection \<open>service\_config\_rotation\<close>

datatype scr_counter =
    SCR_COUNTER_TOTAL | SCR_COUNTER_LOOKUP | SCR_COUNTER_READDIR | SCR_COUNTER_SELECT
  | SCR_COUNTER_PASS

primrec scr_code :: "scr_counter \<Rightarrow> u32" where
  "scr_code SCR_COUNTER_TOTAL = 0"
| "scr_code SCR_COUNTER_LOOKUP = 1"
| "scr_code SCR_COUNTER_READDIR = 2"
| "scr_code SCR_COUNTER_SELECT = 3"
| "scr_code SCR_COUNTER_PASS = 4"

record scr_maps =
  service_config_views :: "ckey \<rightharpoonup> u32"
  scr_counters :: "u64 list"
  scr_cgroups :: "u64 \<rightharpoonup> 8 word"

definition scr_count_event :: "scr_counter \<Rightarrow> scr_maps \<Rightarrow> scr_maps" where
  "scr_count_event k m = m\<lparr>scr_counters := count_array (scr_code k) (scr_counters m)\<rparr>"

definition service_config_rotation_policy :: "scr_maps policy" where
  "service_config_rotation_policy c m =
     (if scr_cgroups m (c_cgroup_id c) = None \<or> scr_cgroups m (c_cgroup_id c) = Some 0 then
        (BPF_NAMEI_EXT_PASS, c, m)
      else
        let m = scr_count_event SCR_COUNTER_TOTAL m;
            m = (if c_event c = BPF_NAMEI_EXT_LOOKUP then scr_count_event SCR_COUNTER_LOOKUP m
                 else if c_event c = BPF_NAMEI_EXT_READDIR then scr_count_event SCR_COUNTER_READDIR m
                 else m);
            key = (namei_ext_build_component_key c zero_component_key)\<lparr>k_event := 0\<rparr>
        in
        case service_config_views m key of
          Some t \<Rightarrow>
            if t \<noteq> 0 \<and> c_event c = BPF_NAMEI_EXT_LOOKUP then
              (BPF_NAMEI_EXT_SELECT_TARGET, c\<lparr>c_target_id := t\<rparr>,
               scr_count_event SCR_COUNTER_SELECT m)
            else (BPF_NAMEI_EXT_PASS, c, scr_count_event SCR_COUNTER_PASS m)
        | None \<Rightarrow> (BPF_NAMEI_EXT_PASS, c, scr_count_event SCR_COUNTER_PASS m))"

lemmas scr_defs = service_config_rotation_policy_def scr_count_event_def Let_def

interpretation service_config_rotation: namei_policy service_config_rotation_policy
  by unfold_locales (auto simp: scr_defs ctx_wf_def split: option.split)

interpretation scr_counting:
  counting_policy service_config_rotation_policy scr_counters 5 0 "[3, 4]"
  by unfold_locales (auto simp: scr_defs verdict_sum_def count_array_nth split: option.split)

interpretation scr_coherent:
  coherent_policy service_config_rotation_policy "\<lambda>m. (service_config_views m, scr_cgroups m)"
  by unfold_locales (auto simp: scr_defs split: option.split)

end
