(* ===== verification/Harness_Maps.thy ===== *)
theory Harness_Maps
  imports Policies_Sharing "HOL-Library.AList"
begin

text \<open>
  The user-space side of the component maps (\<open>runner/src/namei_ext_harness.c\<close>): filling the
  exact component key from a parent directory and a name, and the map operations that use
  it. \<open>stat\<close> and the BPF map syscalls are outside the sources: \<open>stat\<close> is an argument, and a
  hash map is the list of its entries with its capacity, a key occurring once.
\<close>

subsection \<open>Joining a path\<close>

text \<open>
  \<^verbatim>\<open>snprintf(dst, size, "%s/%s", dir, name)\<close>: at most \<open>size - 1\<close> bytes and the terminator are
  stored, the length of the whole text is returned.
\<close>

definition namei_ext_path_join :: "bytes \<Rightarrow> nat \<Rightarrow> bytes \<Rightarrow> bytes \<Rightarrow> errno option \<times> bytes" where
  "namei_ext_path_join dst sz dir name =
     (let joined = dir @ ''/'' @ name;
          ret = length joined;
          stored = (if sz = 0 then [] else take (sz - 1) joined @ [NUL])
      in (if ret \<ge> sz then Some ENAMETOOLONG else None, stored @ drop (length stored) dst))"

subsection \<open>The key\<close>

definition fill_component_key ::
  "(bytes \<Rightarrow> errno + (u64 \<times> u64)) \<Rightarrow> u64 \<Rightarrow> bytes \<Rightarrow> bytes \<Rightarrow> errno + ckey" where
  "fill_component_key stat cgroup_id parent name =
     (let name_len = length name
      in if name_len > 64 then Inl ENAMETOOLONG
         else case stat parent of
                Inl e \<Rightarrow> Inl e
              | Inr (st_dev, st_ino) \<Rightarrow>
                  let key = zero_component_key
                  in Inr (key\<lparr>k_name_len := of_nat name_len, k_cgroup_id := cgroup_id,
                              k_parent_dev := st_dev, k_parent_ino := st_ino,
                              k_name := name @ drop name_len (k_name key)\<rparr>))"

lemma fill_component_key_eq:
  assumes "length name \<le> 64" "stat parent = Inr (dev, ino)"
  shows "fill_component_key stat cg parent name = Inr (component_key_of 0 cg dev ino name)"
  using assms by (simp add: fill_component_key_def component_key_of_def zero_component_key_def Let_def)

text \<open>
  The key a policy builds for a lookup, with the event field cleared as the policies with
  component maps do, is the one the harness fills, when both sides see the same device
  number and inode number for the parent.
\<close>

lemma harness_key_is_policy_key:
  assumes "ctx_named c s" "stat parent = Inr (c_parent_dev c, c_parent_ino c)"
  shows "fill_component_key stat (c_cgroup_id c) parent s =
           Inr ((namei_ext_build_component_key c zero_component_key)\<lparr>k_event := 0\<rparr>)"
  using assms ctx_namedD(2) [OF assms(1)]
  by (simp add: fill_component_key_eq build_component_key_named component_key_of_def)

text \<open>
  \<open>new_encode_dev\<close>, which turns the kernel's device number into the one \<open>stat\<close> reports, and
  the number a policy sees: \<open>s_dev\<close> itself. \<open>MINORBITS\<close> is 20.
\<close>

definition new_encode_dev :: "u32 \<Rightarrow> u32" where
  "new_encode_dev dev =
     (let major = drop_bit 20 dev; minor = dev AND 0xFFFFF
      in (minor AND 0xFF) OR push_bit 8 major OR push_bit 12 (minor AND NOT 0xFF))"

text \<open>
  The two agree for the anonymous devices (major 0, small minors) and differ for a block
  device such as \<open>8:1\<close>: a key filled for a directory there is never the key a policy builds.
\<close>

lemma block_device_key_mismatch:
  assumes "ctx_named c s" "c_parent_dev c = 0x800001"
    and "stat parent = Inr (ucast (new_encode_dev 0x800001), c_parent_ino c)"
  shows "new_encode_dev 0x800001 = 0x801"
    and "fill_component_key stat (c_cgroup_id c) parent s \<noteq>
           Inr ((namei_ext_build_component_key c zero_component_key)\<lparr>k_event := 0\<rparr>)"
proof -
  show e: "new_encode_dev 0x800001 = 0x801" by (simp add: new_encode_dev_def)
  show "fill_component_key stat (c_cgroup_id c) parent s \<noteq>
           Inr ((namei_ext_build_component_key c zero_component_key)\<lparr>k_event := 0\<rparr>)"
    using assms e ctx_namedD(2) [OF assms(1)]
    by (simp add: fill_component_key_eq build_component_key_named component_key_of_def)
qed

subsection \<open>Map operations\<close>

record bpf_map =
  bm_fd :: int
  bm_key_size :: nat
  bm_value_size :: nat
  bm_max_entries :: nat

text \<open>A policy handle: the loaded object's maps by name, if an object is loaded.\<close>

record harness_policy =
  hp_obj :: "(bytes \<rightharpoonup> bpf_map) option"
  hp_cgroup_fd :: int
  hp_prog_fd :: int
  hp_attached :: bool

type_synonym map_store = "int \<Rightarrow> (ckey \<times> u32) list"

definition sizeof_component_key :: nat where
  "sizeof_component_key = 96"

definition component_map_fd :: "harness_policy option \<Rightarrow> bytes \<Rightarrow> errno + int" where
  "component_map_fd policy map_name =
     (case policy of
        None \<Rightarrow> Inl EINVAL
      | Some p \<Rightarrow>
          case hp_obj p of
            None \<Rightarrow> Inl EINVAL
          | Some maps \<Rightarrow>
              case maps map_name of
                None \<Rightarrow> Inl ENOENT
              | Some m \<Rightarrow> if bm_fd m < 0 then Inl EINVAL else Inr (bm_fd m))"

definition component_key_map_fd :: "harness_policy option \<Rightarrow> bytes \<Rightarrow> errno + int" where
  "component_key_map_fd policy map_name =
     (case component_map_fd policy map_name of
        Inl e \<Rightarrow> Inl e
      | Inr map_fd \<Rightarrow>
          (case Option.bind policy hp_obj of
             None \<Rightarrow> Inl EINVAL
           | Some maps \<Rightarrow>
               case maps map_name of
                 None \<Rightarrow> Inl EINVAL
               | Some m \<Rightarrow>
                   if bm_key_size m \<noteq> sizeof_component_key \<or> bm_value_size m \<noteq> 4 then Inl EINVAL
                   else Inr map_fd))"

text \<open>The syscalls on a hash map with a capacity.\<close>

definition bpf_map_update_elem :: "nat \<Rightarrow> ckey \<Rightarrow> u32 \<Rightarrow> (ckey \<times> u32) list \<Rightarrow> errno + (ckey \<times> u32) list" where
  "bpf_map_update_elem max_entries key val m =
     (if map_of m key = None \<and> length m \<ge> max_entries then Inl E2BIG else Inr (AList.update key val m))"

definition bpf_map_delete_elem :: "ckey \<Rightarrow> (ckey \<times> u32) list \<Rightarrow> errno + (ckey \<times> u32) list" where
  "bpf_map_delete_elem key m = (if map_of m key = None then Inl ENOENT else Inr (AList.delete key m))"

definition bpf_map_lookup_elem :: "ckey \<Rightarrow> (ckey \<times> u32) list \<Rightarrow> errno + u32" where
  "bpf_map_lookup_elem key m = (case map_of m key of None \<Rightarrow> Inl ENOENT | Some v \<Rightarrow> Inr v)"

text \<open>\<open>BPF_MAP_GET_NEXT_KEY\<close>: the first key for no key or an unknown one, else the one after it.\<close>

fun key_after :: "ckey \<Rightarrow> ckey list \<Rightarrow> ckey option" where
  "key_after k (a # b # ks) = (if a = k then Some b else key_after k (b # ks))"
| "key_after k _ = None"

definition bpf_map_get_next_key :: "ckey option \<Rightarrow> (ckey \<times> u32) list \<Rightarrow> errno + ckey" where
  "bpf_map_get_next_key key m =
     (let ks = map fst m;
          nxt = (case key of
                   None \<Rightarrow> (case ks of [] \<Rightarrow> None | k # _ \<Rightarrow> Some k)
                 | Some k \<Rightarrow> if k \<in> set ks then key_after k ks
                             else (case ks of [] \<Rightarrow> None | k # _ \<Rightarrow> Some k))
      in case nxt of None \<Rightarrow> Inl ENOENT | Some k \<Rightarrow> Inr k)"

definition namei_ext_component_map_update ::
  "(bytes \<Rightarrow> errno + (u64 \<times> u64)) \<Rightarrow> harness_policy option \<Rightarrow> bytes \<Rightarrow> u64 \<Rightarrow> bytes \<Rightarrow> bytes \<Rightarrow> u32 \<Rightarrow> nat \<Rightarrow>
     map_store \<Rightarrow> errno option \<times> map_store" where
  "namei_ext_component_map_update stat policy map_name cgroup_id parent name val max_entries ms =
     (case fill_component_key stat cgroup_id parent name of
        Inl e \<Rightarrow> (Some e, ms)
      | Inr key \<Rightarrow>
          case component_key_map_fd policy map_name of
            Inl e \<Rightarrow> (Some e, ms)
          | Inr map_fd \<Rightarrow>
              case bpf_map_update_elem max_entries key val (ms map_fd) of
                Inl e \<Rightarrow> (Some e, ms)
              | Inr m \<Rightarrow> (None, ms(map_fd := m)))"

definition namei_ext_component_map_delete ::
  "(bytes \<Rightarrow> errno + (u64 \<times> u64)) \<Rightarrow> harness_policy option \<Rightarrow> bytes \<Rightarrow> u64 \<Rightarrow> bytes \<Rightarrow> bytes \<Rightarrow>
     map_store \<Rightarrow> errno option \<times> map_store" where
  "namei_ext_component_map_delete stat policy map_name cgroup_id parent name ms =
     (case fill_component_key stat cgroup_id parent name of
        Inl e \<Rightarrow> (Some e, ms)
      | Inr key \<Rightarrow>
          case component_key_map_fd policy map_name of
            Inl e \<Rightarrow> (Some e, ms)
          | Inr map_fd \<Rightarrow>
              case bpf_map_delete_elem key (ms map_fd) of
                Inl e \<Rightarrow> (if e \<noteq> ENOENT then Some e else None, ms)
              | Inr m \<Rightarrow> (None, ms(map_fd := m)))"

definition namei_ext_component_map_lookup ::
  "(bytes \<Rightarrow> errno + (u64 \<times> u64)) \<Rightarrow> harness_policy option \<Rightarrow> bytes \<Rightarrow> u64 \<Rightarrow> bytes \<Rightarrow> bytes \<Rightarrow>
     map_store \<Rightarrow> errno + u32" where
  "namei_ext_component_map_lookup stat policy map_name cgroup_id parent name ms =
     (case fill_component_key stat cgroup_id parent name of
        Inl e \<Rightarrow> Inl e
      | Inr key \<Rightarrow>
          case component_key_map_fd policy map_name of
            Inl e \<Rightarrow> Inl e
          | Inr map_fd \<Rightarrow> bpf_map_lookup_elem key (ms map_fd))"

text \<open>
  The counting loop; the first argument bounds its rounds, and \<open>None\<close> is a loop that has not
  ended within them.
\<close>

fun count_loop :: "nat \<Rightarrow> ckey option \<Rightarrow> nat \<Rightarrow> (ckey \<times> u32) list \<Rightarrow> (errno + nat) option" where
  "count_loop 0 key count m = None"
| "count_loop (Suc n) key count m =
     (case bpf_map_get_next_key key m of
        Inr k \<Rightarrow> count_loop n (Some k) (Suc count) m
      | Inl e \<Rightarrow> Some (if e \<noteq> ENOENT then Inl e else Inr count))"

definition namei_ext_component_map_count ::
  "nat \<Rightarrow> harness_policy option \<Rightarrow> bytes \<Rightarrow> map_store \<Rightarrow> (errno + nat) option" where
  "namei_ext_component_map_count rounds policy map_name ms =
     (case component_key_map_fd policy map_name of
        Inl e \<Rightarrow> Some (Inl e)
      | Inr map_fd \<Rightarrow> count_loop rounds None 0 (ms map_fd))"

text \<open>A counter array by its map's name: \<open>bpf_map_lookup_elem\<close> fails past its end.\<close>

definition namei_ext_policy_counter ::
  "harness_policy option \<Rightarrow> bytes \<Rightarrow> u32 \<Rightarrow> (int \<Rightarrow> u64 list) \<Rightarrow> errno + u64" where
  "namei_ext_policy_counter policy map_name key arrays =
     (case component_map_fd policy map_name of
        Inl e \<Rightarrow> Inl e
      | Inr map_fd \<Rightarrow>
          if unat key < length (arrays map_fd) then Inr (arrays map_fd ! unat key) else Inl ENOENT)"

subsection \<open>Round trips\<close>

lemma path_join_fits:
  assumes "length (dir @ ''/'' @ name) < sz"
  shows "namei_ext_path_join dst sz dir name =
           (None, (dir @ ''/'' @ name) @ NUL # drop (Suc (length (dir @ ''/'' @ name))) dst)"
proof -
  define joined where "joined = dir @ ''/'' @ name"
  have "length joined < sz" using assms by (simp add: joined_def)
  then show ?thesis
    unfolding namei_ext_path_join_def joined_def [symmetric] Let_def by simp
qed

lemma path_join_too_long:
  assumes "length (dir @ ''/'' @ name) \<ge> sz" "sz \<le> length dst"
  shows "fst (namei_ext_path_join dst sz dir name) = Some ENAMETOOLONG"
    "length (snd (namei_ext_path_join dst sz dir name)) = length dst"
    "drop sz (snd (namei_ext_path_join dst sz dir name)) = drop sz dst"
    "sz > 0 \<Longrightarrow> snd (namei_ext_path_join dst sz dir name) ! (sz - 1) = NUL"
proof -
  define joined where "joined = dir @ ''/'' @ name"
  have t: "length joined \<ge> sz" using assms by (simp add: joined_def)
  then have len: "length (take (sz - 1) joined @ [NUL]) = sz" if "sz > 0" using that by simp
  note unf = namei_ext_path_join_def joined_def [symmetric] Let_def
  show "fst (namei_ext_path_join dst sz dir name) = Some ENAMETOOLONG"
    unfolding unf using t by simp
  show "length (snd (namei_ext_path_join dst sz dir name)) = length dst"
    unfolding unf using assms(2) t by auto
  show "drop sz (snd (namei_ext_path_join dst sz dir name)) = drop sz dst"
    unfolding unf using len by (cases "sz = 0") simp_all
  show "snd (namei_ext_path_join dst sz dir name) ! (sz - 1) = NUL" if "sz > 0"
    unfolding unf using that t by (simp add: nth_append)
qed

lemma component_map_update_lookup:
  assumes "namei_ext_component_map_update stat policy mn cg parent name v mx ms = (None, ms')"
  shows "namei_ext_component_map_lookup stat policy mn cg parent name ms' = Inr v"
  using assms
  by (auto simp: namei_ext_component_map_update_def namei_ext_component_map_lookup_def
      bpf_map_update_elem_def bpf_map_lookup_elem_def AList.update_conv' split: sum.splits if_splits)

lemma component_map_delete_lookup:
  assumes "namei_ext_component_map_delete stat policy mn cg parent name ms = (None, ms')"
  shows "namei_ext_component_map_lookup stat policy mn cg parent name ms' = Inl ENOENT"
  using assms
  by (auto simp: namei_ext_component_map_delete_def namei_ext_component_map_lookup_def
      bpf_map_delete_elem_def bpf_map_lookup_elem_def AList.delete_conv' split: sum.splits if_splits option.splits)

lemma fill_component_key_inject:
  assumes "fill_component_key stat cg p n = Inr k" "fill_component_key stat cg' p' n' = Inr k'"
  shows "k = k' \<longleftrightarrow> cg = cg' \<and> stat p = stat p' \<and> n = n'"
proof -
  obtain d i d' i' where s: "stat p = Inr (d, i)" "length n \<le> 64" "stat p' = Inr (d', i')" "length n' \<le> 64"
    using assms by (auto simp: fill_component_key_def Let_def split: sum.splits if_splits)
  then have "k = component_key_of 0 cg d i n" "k' = component_key_of 0 cg' d' i' n'"
    using assms by (simp_all add: fill_component_key_eq)
  then show ?thesis using s component_key_of_inject [of n n' 0 cg d i 0 cg' d' i'] by auto
qed

text \<open>An operation on one key leaves every other key of the map alone.\<close>

lemma component_map_update_other:
  assumes "namei_ext_component_map_update stat policy mn cg parent name v mx ms = (r, ms')"
    and "cg' \<noteq> cg \<or> stat parent' \<noteq> stat parent \<or> name' \<noteq> name"
  shows "namei_ext_component_map_lookup stat policy mn cg' parent' name' ms' =
         namei_ext_component_map_lookup stat policy mn cg' parent' name' ms"
  using assms fill_component_key_inject [of stat cg parent name _ cg' parent' name']
  by (auto simp: namei_ext_component_map_update_def namei_ext_component_map_lookup_def
      bpf_map_update_elem_def bpf_map_lookup_elem_def AList.update_conv' split: sum.splits if_splits)

subsection \<open>Counting\<close>

lemma key_after_mid:
  "distinct (xs @ k # ys) \<Longrightarrow> key_after k (xs @ k # ys) = (case ys of [] \<Rightarrow> None | y # _ \<Rightarrow> Some y)"
proof (induction xs)
  case Nil
  then show ?case by (cases ys) auto
next
  case (Cons x xs)
  then show ?case by (cases xs) auto
qed

lemma count_loop_from:
  assumes "distinct (map fst m)" "map fst m = xs @ k # ys" "n > length ys"
  shows "count_loop n (Some k) c m = Some (Inr (c + length ys))"
  using assms(2,3)
proof (induction ys arbitrary: xs k n c)
  case Nil
  have "key_after k (map fst m) = None"
    using key_after_mid [of xs k "[]"] assms(1) Nil by simp
  then have "bpf_map_get_next_key (Some k) m = Inl ENOENT"
    using Nil by (simp add: bpf_map_get_next_key_def Let_def)
  then show ?case using Nil by (cases n) auto
next
  case (Cons y ys)
  have "key_after k (map fst m) = Some y"
    using key_after_mid [of xs k "y # ys"] assms(1) Cons.prems by simp
  then have "bpf_map_get_next_key (Some k) m = Inr y"
    using Cons.prems by (simp add: bpf_map_get_next_key_def Let_def)
  moreover obtain n' where "n = Suc n'" using Cons.prems by (cases n) auto
  ultimately show ?case
    using Cons.IH [of "xs @ [k]" y n' "Suc c"] Cons.prems by simp
qed

lemma count_loop_all:
  assumes "distinct (map fst m)" "n > length m"
  shows "count_loop n None 0 m = Some (Inr (length m))"
proof (cases m)
  case Nil
  then show ?thesis using assms by (cases n) (simp_all add: bpf_map_get_next_key_def)
next
  case (Cons e es)
  obtain n' where "n = Suc n'" using assms by (cases n) auto
  then show ?thesis
    using count_loop_from [OF assms(1), of "[]" "fst e" "map fst es" n' 1] assms Cons
    by (simp add: bpf_map_get_next_key_def)
qed

lemma component_map_count:
  assumes "component_key_map_fd policy mn = Inr fd" "distinct (map fst (ms fd))" "rounds > length (ms fd)"
  shows "namei_ext_component_map_count rounds policy mn ms = Some (Inr (length (ms fd)))"
  using assms by (simp add: namei_ext_component_map_count_def count_loop_all)

lemma length_AList_update:
  "length (AList.update k v m) = (if map_of m k = None then Suc (length m) else length m)"
  by (induction m) auto

lemma update_distinct:
  "distinct (map fst m) \<Longrightarrow> bpf_map_update_elem mx k v m = Inr m' \<Longrightarrow>
     distinct (map fst m') \<and> (length m \<le> mx \<longrightarrow> length m' \<le> mx)"
  by (auto simp: bpf_map_update_elem_def AList.distinct_update length_AList_update split: if_splits)

end
