(* ===== verification/Harness_Control.thy ===== *)
theory Harness_Control
  imports Reach Harness_Maps
begin

text \<open>
  The control side of the harness (\<open>runner/src/namei_ext_harness.c\<close>): small files, waiting
  for a control child, and the child processes that drive the two debugfs files. A child's
  writes go to the kernel model, so the theorems here are about the two sides together.
  System calls are arguments; what a loop sees round by round is a function of the round.
\<close>

subsection \<open>Files\<close>

text \<open>\<open>write\<close> to a new file: an error, or the number of bytes taken.\<close>

record file_sys =
  fs_open_in :: "errno + bytes"
  fs_open_out :: "errno option"
  fs_read :: "nat \<Rightarrow> errno + nat"
  fs_write :: "nat \<Rightarrow> errno + nat"
  fs_close_out :: "errno option"
  fs_close_in :: "errno option"

definition namei_ext_write_text :: "file_sys \<Rightarrow> bytes \<Rightarrow> errno option \<times> bytes" where
  "namei_ext_write_text fs val =
     (case fs_open_out fs of
        Some e \<Rightarrow> (Some e, [])
      | None \<Rightarrow>
          case fs_write fs 0 of
            Inl e \<Rightarrow> (Some e, [])
          | Inr n \<Rightarrow>
              if n \<noteq> length val then (Some EIO, take n val)
              else (fs_close_out fs, val))"

text \<open>\<open>Some\<close> content when the file opens and \<open>read\<close> returns it, at most 4095 bytes of it.\<close>

definition namei_ext_read_text_equals :: "(errno + bytes) \<Rightarrow> bytes \<Rightarrow> bool" where
  "namei_ext_read_text_equals file expected =
     (if length expected \<ge> 4096 then False
      else case file of
             Inl e \<Rightarrow> False
           | Inr content \<Rightarrow>
               let buf = take 4095 content
               in length buf = length expected \<and> take (length expected) buf = expected)"

text \<open>
  The inner loop of \<open>namei_ext_copy_file\<close>, from a position in the chunk; \<open>k\<close> numbers the
  writes. The first argument bounds the rounds, \<open>None\<close> is a loop that is still going on: a
  \<open>write\<close> that takes nothing makes no progress.
\<close>

fun write_loop :: "nat \<Rightarrow> (nat \<Rightarrow> errno + nat) \<Rightarrow> nat \<Rightarrow> bytes \<Rightarrow> bytes \<Rightarrow> (errno option \<times> bytes \<times> nat) option" where
  "write_loop 0 wr k chunk out = (if chunk = [] then Some (None, out, k) else None)"
| "write_loop (Suc f) wr k chunk out =
     (if chunk = [] then Some (None, out, k)
      else case wr k of
             Inl e \<Rightarrow> Some (Some e, out, Suc k)
           | Inr n \<Rightarrow> write_loop f wr (Suc k) (drop n chunk) (out @ take n chunk))"

text \<open>
  The outer loop: \<open>rd j\<close> is what the \<open>j\<close>-th \<open>read\<close> returns, an error or how many bytes it is
  willing to give (at least one before the end of the file, at most the buffer).
\<close>

fun copy_loop ::
  "nat \<Rightarrow> (nat \<Rightarrow> errno + nat) \<Rightarrow> (nat \<Rightarrow> errno + nat) \<Rightarrow> nat \<Rightarrow> nat \<Rightarrow> bytes \<Rightarrow> bytes \<Rightarrow> (errno option \<times> bytes) option" where
  "copy_loop 0 rd wr j k src out = None"
| "copy_loop (Suc f) rd wr j k src out =
     (case rd j of
        Inl e \<Rightarrow> Some (Some e, out)
      | Inr n \<Rightarrow>
          let chunk = take (min (max n 1) 4096) src
          in if chunk = [] then Some (None, out)
             else case write_loop (Suc f) wr k chunk out of
                    None \<Rightarrow> None
                  | Some (Some e, out, k) \<Rightarrow> Some (Some e, out)
                  | Some (None, out, k) \<Rightarrow> copy_loop f rd wr (Suc j) k (drop (length chunk) src) out)"

definition namei_ext_copy_file :: "nat \<Rightarrow> file_sys \<Rightarrow> (errno option \<times> bytes) option" where
  "namei_ext_copy_file rounds fs =
     (case fs_open_in fs of
        Inl e \<Rightarrow> Some (Some e, [])
      | Inr src \<Rightarrow>
          case fs_open_out fs of
            Some e \<Rightarrow> Some (Some e, [])
          | None \<Rightarrow>
              case copy_loop rounds (fs_read fs) (fs_write fs) 0 0 src [] of
                None \<Rightarrow> None
              | Some (Some e, out) \<Rightarrow> Some (Some e, out)
              | Some (None, out) \<Rightarrow>
                  Some (case fs_close_out fs of Some e \<Rightarrow> Some e | None \<Rightarrow> fs_close_in fs, out))"

text \<open>When every write takes at least one byte and no call fails, the copy is the source.\<close>

lemma write_loop_progress:
  assumes "\<And>k. \<exists>n. wr k = Inr n \<and> n > 0" "f \<ge> length chunk"
  shows "\<exists>k'. write_loop f wr k chunk out = Some (None, out @ chunk, k')"
  using assms(2)
proof (induction f arbitrary: k chunk out)
  case 0
  then show ?case by simp
next
  case (Suc f)
  obtain n where n: "wr k = Inr n" "n > 0" using assms(1) by blast
  show ?case
  proof (cases "chunk = []")
    case False
    have "length (drop n chunk) \<le> f" using n(2) Suc.prems by simp
    then obtain k' where "write_loop f wr (Suc k) (drop n chunk) (out @ take n chunk) =
        Some (None, (out @ take n chunk) @ drop n chunk, k')"
      using Suc.IH by blast
    then show ?thesis using False n by simp
  qed simp
qed

lemma take_drop_length: "take m xs @ drop (length (take m xs)) xs = xs"
  by (cases "m \<le> length xs") simp_all

lemma copy_loop_copies:
  assumes "\<And>k. \<exists>n. wr k = Inr n \<and> n > 0" "\<And>j. \<exists>n. rd j = Inr n"
    and "f \<ge> length src + 4096"
  shows "copy_loop f rd wr j k src out = Some (None, out @ src)"
  using assms(3)
proof (induction f arbitrary: j k src out)
  case 0
  then show ?case by simp
next
  case (Suc f)
  obtain n where n: "rd j = Inr n" using assms(2) by blast
  let ?chunk = "take (min (max n 1) 4096) src"
  show ?case
  proof (cases "src = []")
    case True
    then show ?thesis using n by simp
  next
    case False
    then have ne: "?chunk \<noteq> []" by auto
    have "length ?chunk \<le> Suc f" using Suc.prems by simp
    then obtain k' where w: "write_loop (Suc f) wr k ?chunk out = Some (None, out @ ?chunk, k')"
      using write_loop_progress [where wr = wr and chunk = ?chunk and f = "Suc f", OF assms(1)] by blast
    have "length (drop (length ?chunk) src) + 4096 \<le> f"
      using ne Suc.prems by (cases src) auto
    then have "copy_loop f rd wr (Suc j) k' (drop (length ?chunk) src) (out @ ?chunk) =
        Some (None, (out @ ?chunk) @ drop (length ?chunk) src)"
      by (rule Suc.IH)
    moreover have "?chunk @ drop (length ?chunk) src = src"
      by (rule take_drop_length)
    ultimately show ?thesis
      using n ne w by (simp add: Let_def del: write_loop.simps)
  qed
qed

text \<open>A write that takes nothing is repeated forever.\<close>

lemma write_loop_stuck:
  assumes "\<And>k. wr k = Inr 0" "chunk \<noteq> []"
  shows "write_loop f wr k chunk out = None"
  using assms by (induction f arbitrary: k) auto

subsection \<open>Waiting for a control child\<close>

datatype wait_obs = W_exited nat | W_signaled | W_running | W_error errno

record wait_env =
  wv_wait :: "nat \<Rightarrow> wait_obs"
  wv_clock :: "nat \<Rightarrow> errno + u64"
  wv_kill :: "errno option"

definition namei_ext_wait_child :: "wait_obs \<Rightarrow> errno option" where
  "namei_ext_wait_child w =
     (case w of
        W_error e \<Rightarrow> Some e
      | W_exited code \<Rightarrow> if code \<noteq> 0 then Some EIO else None
      | _ \<Rightarrow> Some ECHILD)"

text \<open>
  One loop of \<open>WNOHANG\<close> waits up to the deadline: \<open>Inl\<close> is a return value, \<open>Inr (ret, k)\<close> goes
  on to \<open>terminate\<close> after \<open>k\<close> waits.
\<close>

fun wait_loop :: "nat \<Rightarrow> wait_env \<Rightarrow> u64 \<Rightarrow> nat \<Rightarrow> (errno option + (errno option \<times> nat)) option" where
  "wait_loop 0 env deadline k = None"
| "wait_loop (Suc f) env deadline k =
     (let again = (case wv_clock env (Suc k) of
                     Inl e \<Rightarrow> Some (Inr (Some e, Suc k))
                   | Inr now \<Rightarrow> if now \<ge> deadline then Some (Inr (None, Suc k))
                                else wait_loop f env deadline (Suc k))
      in case wv_wait env k of
           W_exited code \<Rightarrow> Some (Inl (if code \<noteq> 0 then Some EIO else None))
         | W_signaled \<Rightarrow> Some (Inl (Some ECHILD))
         | W_error e \<Rightarrow> if e \<noteq> EINTR then Some (Inl (Some e)) else again
         | W_running \<Rightarrow> again)"

fun reap_loop :: "nat \<Rightarrow> wait_env \<Rightarrow> errno option \<Rightarrow> nat \<Rightarrow> errno option" where
  "reap_loop 0 env ret k = (if ret \<noteq> None then ret else Some ETIMEDOUT)"
| "reap_loop (Suc n) env ret k =
     (case wv_wait env k of
        W_exited code \<Rightarrow> (if ret \<noteq> None then ret else Some ETIMEDOUT)
      | W_signaled \<Rightarrow> (if ret \<noteq> None then ret else Some ETIMEDOUT)
      | W_error e \<Rightarrow>
          if e = ECHILD then (if ret \<noteq> None then ret else Some ETIMEDOUT)
          else if e \<noteq> EINTR then (if ret \<noteq> None then ret else Some e)
          else reap_loop n env ret (Suc k)
      | W_running \<Rightarrow> reap_loop n env ret (Suc k))"

definition control_terminate :: "wait_env \<Rightarrow> errno option \<Rightarrow> nat \<Rightarrow> errno option" where
  "control_terminate env ret k =
     (case wv_kill env of
        Some e \<Rightarrow> if e \<noteq> ESRCH then (if ret \<noteq> None then ret else Some e) else reap_loop 100 env ret k
      | None \<Rightarrow> reap_loop 100 env ret k)"

definition namei_ext_wait_control_child :: "nat \<Rightarrow> wait_env \<Rightarrow> errno option option" where
  "namei_ext_wait_control_child rounds env =
     (case wv_clock env 0 of
        Inl e \<Rightarrow> Some (control_terminate env (Some e) 0)
      | Inr now \<Rightarrow>
          (case wait_loop rounds env (now + 5 * 1000000000) 0 of
             None \<Rightarrow> None
           | Some (Inl r) \<Rightarrow> Some r
           | Some (Inr (ret, k)) \<Rightarrow> Some (control_terminate env ret k)))"

lemma reap_loop_fails: "reap_loop n env ret k \<noteq> None"
  by (induction n arbitrary: k) (auto split: wait_obs.split)

lemma control_terminate_fails: "control_terminate env ret k \<noteq> None"
  using reap_loop_fails [of 100 env ret k] by (auto simp: control_terminate_def split: option.split)

lemma wait_loop_success:
  "wait_loop f env deadline k = Some (Inl None) \<Longrightarrow> \<exists>j. wv_wait env j = W_exited 0"
  by (induction f arbitrary: k)
     (auto simp: Let_def split: wait_obs.splits sum.splits if_splits)

text \<open>Success is reported only for a child seen to exit with status 0.\<close>

lemma wait_control_child_success:
  assumes "namei_ext_wait_control_child rounds env = Some None"
  shows "\<exists>j. wv_wait env j = W_exited 0"
proof (cases "wv_clock env 0")
  case (Inl e)
  then show ?thesis
    using assms control_terminate_fails [of env "Some e" 0] by (simp add: namei_ext_wait_control_child_def)
next
  case (Inr now)
  obtain r where r: "wait_loop rounds env (now + 5 * 1000000000) 0 = Some r"
    using assms Inr by (cases "wait_loop rounds env (now + 5 * 1000000000) 0")
      (simp_all add: namei_ext_wait_control_child_def)
  show ?thesis
  proof (cases r)
    case (Inl q)
    then show ?thesis
      using assms Inr r wait_loop_success [of rounds env "now + 5 * 1000000000" 0]
      by (simp add: namei_ext_wait_control_child_def)
  next
    case (Inr q)
    then show ?thesis
      using assms \<open>wv_clock env 0 = Inr now\<close> r control_terminate_fails [of env "fst q" "snd q"]
      by (simp add: namei_ext_wait_control_child_def split: prod.splits)
  qed
qed

text \<open>The wait ends once the clock fails or passes the deadline.\<close>

lemma wait_loop_ends:
  assumes "case wv_clock env n of Inl e \<Rightarrow> True | Inr now \<Rightarrow> now \<ge> deadline" "k < n" "f \<ge> n - k"
  shows "wait_loop f env deadline k \<noteq> None"
  using assms(2,3)
proof (induction f arbitrary: k)
  case 0
  then show ?case by simp
next
  case (Suc f)
  show ?case
  proof (cases "Suc k = n")
    case True
    then show ?thesis
      using assms(1) by (auto simp: Let_def split: wait_obs.split sum.splits)
  next
    case False
    then have "wait_loop f env deadline (Suc k) \<noteq> None" using Suc by simp
    then show ?thesis by (auto simp: Let_def split: wait_obs.split sum.splits)
  qed
qed

lemma wait_control_child_ends:
  assumes "wv_clock env 0 = Inr now" "n > 0" "rounds \<ge> n"
    and "case wv_clock env n of Inl e \<Rightarrow> True | Inr t \<Rightarrow> t \<ge> now + 5 * 1000000000"
  shows "\<exists>r. namei_ext_wait_control_child rounds env = Some r"
  using assms wait_loop_ends [where env = env and n = n and deadline = "now + 5 * 1000000000" and k = 0 and f = rounds]
  by (auto simp: namei_ext_wait_control_child_def split: option.split sum.split)

subsection \<open>Printing a command\<close>

function dec :: "nat \<Rightarrow> bytes" where
  "dec n = (if n < 10 then [char_of (48 + n)] else dec (n div 10) @ [char_of (48 + n mod 10)])"
  by pat_completeness auto
termination
  by (relation "measure id") auto

declare dec.simps [simp del]

lemma dec_length: "n < 10 ^ Suc k \<Longrightarrow> length (dec n) \<le> Suc k"
proof (induction k arbitrary: n)
  case 0
  then show ?case by (subst dec.simps) simp
next
  case (Suc k)
  then have "n div 10 < 10 ^ Suc k" by simp
  then show ?case using Suc.IH [of "n div 10"] by (subst dec.simps) simp
qed

lemma dec_nonempty: "dec n \<noteq> []"
  by (subst dec.simps) simp

lemma char_of_not_NUL:
  assumes "(n :: nat) < 256" "0 < n"
  shows "(char_of n :: char) \<noteq> NUL"
proof
  assume "(char_of n :: char) = NUL"
  then have "of_char (char_of n :: char) = (0 :: nat)" by simp
  then show False using assms by simp
qed

lemma dec_no_nul: "NUL \<notin> set (dec n)"
proof (induction n rule: dec.induct)
  case (1 n)
  have "n mod 10 < 10" by simp
  then have "(char_of (48 + n mod 10) :: char) \<noteq> NUL" by (intro char_of_not_NUL) auto
  moreover have "n < 10 \<Longrightarrow> (char_of (48 + n) :: char) \<noteq> NUL" by (intro char_of_not_NUL) auto
  ultimately show ?case using 1 by (subst dec.simps) auto
qed

text \<open>\<^verbatim>\<open>"%u %d\n"\<close> and \<^verbatim>\<open>"%s %d\n"\<close> of a descriptor, which is never negative here.\<close>

definition print_registration :: "u32 \<Rightarrow> u32 \<Rightarrow> bytes" where
  "print_registration target_id fd = dec (unat target_id) @ '' '' @ dec (unat fd) @ [CHR 10]"

definition print_scope_command :: "bytes \<Rightarrow> u32 option \<Rightarrow> bytes" where
  "print_scope_command command fd =
     (case fd of None \<Rightarrow> command @ [CHR 10] | Some n \<Rightarrow> command @ '' '' @ dec (unat n) @ [CHR 10])"

lemma dec_u32_length: "length (dec (unat (x :: u32))) \<le> 10"
proof -
  have "unat x < 2 ^ 32" using unsigned_less [of x] by simp
  then have "unat x < 10 ^ Suc 9" by (rule less_trans) simp
  then show ?thesis using dec_length [of "unat x" 9] by simp
qed

lemma print_registration_length: "length (print_registration t f) \<le> 22" "0 < length (print_registration t f)"
  using dec_u32_length [of t] dec_u32_length [of f] by (simp_all add: print_registration_def)

lemma print_registration_cstr: "cstr (print_registration t f) = print_registration t f"
  using dec_no_nul [of "unat t"] dec_no_nul [of "unat f"]
  by (simp add: cstr_def print_registration_def takeWhile_eq_all_conv) (auto intro!: takeWhile_eq_all_conv [THEN iffD2])

subsection \<open>Registering targets\<close>

record target_registration =
  tr_path :: "bytes option"
  tr_target_id :: u32

text \<open>
  A control child: whether it can enter the cgroup and open the control file, what opening
  a path as \<open>O_PATH\<close> gives (a free descriptor and the path it pins), closing, and the rest of
  the environment of its writes. \<open>ch_waits\<close> is what the parent sees of a child that exits with
  a given status.
\<close>

record control_child =
  ch_fork :: "errno option"
  ch_move :: "errno option"
  ch_open_control :: bool
  ch_open_path :: "bytes \<Rightarrow> errno + (u32 \<times> path)"
  ch_close :: "u32 \<Rightarrow> errno option"
  ch_close_control :: bool
  ch_env :: write_env
  ch_waits :: "nat \<Rightarrow> wait_env"

text \<open>The environment of a write of \<open>buf\<close> while \<open>fd\<close> is open on \<open>p\<close>.\<close>

definition child_env :: "control_child \<Rightarrow> bytes \<Rightarrow> (u32 \<times> path) option \<Rightarrow> write_env" where
  "child_env ch buf open_fd =
     (ch_env ch)\<lparr>we_copy := (\<lambda>count. Some (take (unat count) buf)),
        we_fd := (case open_fd of None \<Rightarrow> we_fd (ch_env ch)
                  | Some (fd, p) \<Rightarrow> (we_fd (ch_env ch))(fd := Some p))\<rparr>"

definition namei_ext_register_target_fd ::
  "hashfn \<Rightarrow> control_child \<Rightarrow> target_registration \<Rightarrow> kstate \<Rightarrow> errno option \<times> kstate" where
  "namei_ext_register_target_fd hb ch target st =
     (case ch_open_path ch (the (tr_path target)) of
        Inl e \<Rightarrow> (Some e, st)
      | Inr (target_fd, p) \<Rightarrow>
          let buf = print_registration (tr_target_id target) target_fd;
              len = length buf;
              (ret, st) =
                (if len \<ge> 64 then (Some EOVERFLOW, st)
                 else case namei_ext_register_target_write hb (child_env ch buf (Some (target_fd, p))) (of_nat len) st of
                        (Inl e, st) \<Rightarrow> (Some e, st)
                      | (Inr n, st) \<Rightarrow> (if n \<noteq> of_nat len then Some EIO else None, st));
              close = ch_close ch target_fd
          in (if close \<noteq> None \<and> ret = None then close else ret, st))"

fun register_loop ::
  "hashfn \<Rightarrow> control_child \<Rightarrow> target_registration list \<Rightarrow> kstate \<Rightarrow> bool \<times> kstate" where
  "register_loop hb ch [] st = (True, st)"
| "register_loop hb ch (t # ts) st =
     (case namei_ext_register_target_fd hb ch t st of
        (Some e, st) \<Rightarrow> (False, st)
      | (None, st) \<Rightarrow> register_loop hb ch ts st)"

definition batch_valid :: "target_registration list \<Rightarrow> bool" where
  "batch_valid targets \<longleftrightarrow>
     list_all (\<lambda>t. tr_path t \<noteq> None \<and> tr_path t \<noteq> Some [] \<and> tr_target_id t \<noteq> 0) targets"

definition namei_ext_register_target_batch ::
  "nat \<Rightarrow> hashfn \<Rightarrow> control_child \<Rightarrow> bytes option \<Rightarrow> target_registration list \<Rightarrow> kstate \<Rightarrow>
     errno option option \<times> kstate" where
  "namei_ext_register_target_batch rounds hb ch cgroup_path targets st =
     (if cgroup_path = None \<or> targets = [] then (Some (Some EINVAL), st)
      else if \<not> batch_valid targets then (Some (Some EINVAL), st)
      else case ch_fork ch of
        Some e \<Rightarrow> (Some (Some e), st)
      | None \<Rightarrow>
          let (code, st) =
                (if ch_move ch \<noteq> None then (1, st)
                 else if \<not> ch_open_control ch then (1, st)
                 else case register_loop hb ch targets st of
                        (False, st) \<Rightarrow> (1, st)
                      | (True, st) \<Rightarrow> (if ch_close_control ch then 0 else 1, st))
          in (namei_ext_wait_control_child rounds (ch_waits ch code), st))"

definition namei_ext_clear_targets_child ::
  "nat \<Rightarrow> hashfn \<Rightarrow> control_child \<Rightarrow> kstate \<Rightarrow> errno option option \<times> kstate" where
  "namei_ext_clear_targets_child rounds hb ch st =
     (case ch_fork ch of
        Some e \<Rightarrow> (Some (Some e), st)
      | None \<Rightarrow>
          let clear = ''clear'' @ [CHR 10];
              (code, st) =
                (if ch_move ch \<noteq> None then (1, st)
                 else if \<not> ch_open_control ch then (1, st)
                 else case namei_ext_register_target_write hb (child_env ch clear None) (of_nat (length clear)) st of
                        (Inl e, st) \<Rightarrow> (1, st)
                      | (Inr n, st) \<Rightarrow> (if n = of_nat (length clear) then 0 else 1, st))
          in (namei_ext_wait_control_child rounds (ch_waits ch code), st))"

definition namei_ext_policy_parent_child ::
  "nat \<Rightarrow> hashfn \<Rightarrow> control_child \<Rightarrow> bytes \<Rightarrow> bytes option \<Rightarrow> kstate \<Rightarrow> errno option option \<times> kstate" where
  "namei_ext_policy_parent_child rounds hb ch command parent_dir st =
     (case ch_fork ch of
        Some e \<Rightarrow> (Some (Some e), st)
      | None \<Rightarrow>
          let (code, st) =
                (if ch_move ch \<noteq> None then (1, st)
                 else
                   case (case parent_dir of None \<Rightarrow> Inr None
                         | Some d \<Rightarrow> (case ch_open_path ch d of Inl e \<Rightarrow> Inl e | Inr r \<Rightarrow> Inr (Some r))) of
                     Inl e \<Rightarrow> (1, st)
                   | Inr parent \<Rightarrow>
                       let buf = print_scope_command command (map_option fst parent);
                           len = length buf
                       in if len \<ge> 64 then (1, st)
                          else if \<not> ch_open_control ch then (1, st)
                          else case namei_ext_policy_parent_write hb (child_env ch buf parent) (of_nat len) st of
                                 (Inl e, st) \<Rightarrow> (1, st)
                               | (Inr n, st) \<Rightarrow> (if n = of_nat len then 0 else 1, st))
          in (namei_ext_wait_control_child rounds (ch_waits ch code), st))"

text \<open>What the parent may rely on: it is told the child's own exit status.\<close>

definition truthful :: "control_child \<Rightarrow> bool" where
  "truthful ch \<longleftrightarrow> (\<forall>code k code'. wv_wait (ch_waits ch code) k = W_exited code' \<longrightarrow> code' = code)"

text \<open>
  What \<^verbatim>\<open>sscanf(kbuf, "%u %u", ...)\<close> and \<open>sysfs_streq\<close> are relied on for: reading back a
  printed registration, which is not the word \<open>clear\<close>.
\<close>

definition scans_registration :: "write_env \<Rightarrow> u32 \<Rightarrow> u32 \<Rightarrow> bool" where
  "scans_registration env t fd \<longleftrightarrow>
     we_scan_uu env (print_registration t fd) = Some (t, fd) \<and>
     \<not> we_streq env (print_registration t fd) ''clear''"

text \<open>The specification: later registrations of an id win, other cgroups keep theirs.\<close>

fun registered :: "control_child \<Rightarrow> target_registration list \<Rightarrow> (u32 \<Rightarrow> path option) \<Rightarrow> u32 \<Rightarrow> path option" where
  "registered ch [] f = f"
| "registered ch (t # ts) f =
     registered ch ts
       (case ch_open_path ch (the (tr_path t)) of
          Inl e \<Rightarrow> f
        | Inr (fd, p) \<Rightarrow> f(tr_target_id t := Some p))"

definition batch_scans :: "control_child \<Rightarrow> target_registration list \<Rightarrow> bool" where
  "batch_scans ch ts \<longleftrightarrow>
     list_all (\<lambda>t. case ch_open_path ch (the (tr_path t)) of
                      Inl e \<Rightarrow> True
                    | Inr (fd, p) \<Rightarrow> scans_registration (ch_env ch) (tr_target_id t) fd) ts"

lemma child_env_simps [simp]:
  "we_current (child_env ch buf fdp) = we_current (ch_env ch)"
  "we_tryget (child_env ch buf fdp) = we_tryget (ch_env ch)"
  "we_alloc (child_env ch buf fdp) = we_alloc (ch_env ch)"
  "we_streq (child_env ch buf fdp) = we_streq (ch_env ch)"
  "we_scan_uu (child_env ch buf fdp) = we_scan_uu (ch_env ch)"
  "we_scan_suc (child_env ch buf fdp) = we_scan_suc (ch_env ch)"
  "we_can_lookup (child_env ch buf fdp) = we_can_lookup (ch_env ch)"
  "we_copy (child_env ch buf fdp) = (\<lambda>count. Some (take (unat count) buf))"
  "we_fd (child_env ch buf (Some (fd, p))) fd = Some p"
  by (simp_all add: child_env_def)

lemma register_write_line:
  assumes "scans_registration (ch_env ch) t fd"
    and "namei_ext_register_target_write hb (child_env ch (print_registration t fd) (Some (fd, p)))
           (of_nat (length (print_registration t fd))) st = (Inr n, st')"
  shows "target_path hb st' cg tid =
           (if cg = we_current (ch_env ch) \<and> tid = t then Some p else target_path hb st cg tid)"
proof -
  let ?buf = "print_registration t fd"
  have len: "unat (of_nat (length ?buf) :: u64) = length ?buf"
    using print_registration_length [of t fd] by (simp add: unat_of_nat take_bit_nat_eq_self)
  have copy: "cstr (take (unat (of_nat (length ?buf) :: u64)) ?buf) = ?buf"
    by (simp add: len print_registration_cstr)
  show ?thesis
    using assms(2)
  proof (cases rule: register_target_write_cases [of hb "child_env ch ?buf (Some (fd, p))" "of_nat (length ?buf)" st])
    case (clear buf)
    then have "we_streq (ch_env ch) ?buf ''clear''" using copy by auto
    then show ?thesis using assms(1) by (simp add: scans_registration_def)
  next
    case (registered buf tid' fd' p' st'')
    have "we_scan_uu (ch_env ch) ?buf = Some (tid', fd')"
      using registered(1,2) copy by simp
    then have eq: "tid' = t" "fd' = fd" using assms(1) by (auto simp: scans_registration_def)
    with registered(3) have p': "p' = p" by simp
    have "register_accepts (we_alloc (ch_env ch)) (we_current (ch_env ch)) t p (path_get p st)"
      using register_target_refused [of "we_alloc (ch_env ch)" "we_current (ch_env ch)" t p "path_get p st" hb]
        registered(4) eq p' by auto
    from target_path_register [OF this, of hb cg tid] show ?thesis
      using registered(4,5) assms(2) eq p' by simp
  qed auto
qed

lemma register_target_fd_line:
  assumes "batch_scans ch [t]" "namei_ext_register_target_fd hb ch t st = (None, st')"
  obtains fd p where "ch_open_path ch (the (tr_path t)) = Inr (fd, p)"
    "\<And>cg tid. target_path hb st' cg tid =
       (if cg = we_current (ch_env ch) \<and> tid = tr_target_id t then Some p else target_path hb st cg tid)"
proof -
  obtain fd p where o: "ch_open_path ch (the (tr_path t)) = Inr (fd, p)"
    using assms(2) by (auto simp: namei_ext_register_target_fd_def split: sum.splits)
  have sc: "scans_registration (ch_env ch) (tr_target_id t) fd"
    using assms(1) o by (simp add: batch_scans_def)
  have short: "\<not> 64 \<le> length (print_registration (tr_target_id t) fd)"
    using print_registration_length(1) [of "tr_target_id t" fd] by simp
  obtain r st2 where w: "namei_ext_register_target_write hb
      (child_env ch (print_registration (tr_target_id t) fd) (Some (fd, p)))
      (of_nat (length (print_registration (tr_target_id t) fd))) st = (r, st2)" by fastforce
  obtain n where r: "r = Inr n" and st2: "st2 = st'"
    using assms(2) o short w
    by (cases r) (auto simp: namei_ext_register_target_fd_def Let_def split: if_splits)
  show thesis
    by (rule that [OF o]) (use register_write_line [OF sc w [unfolded r]] st2 in simp)
qed

lemma register_loop_registers:
  assumes "batch_scans ch ts" "register_loop hb ch ts st = (True, st')"
  shows "target_path hb st' (we_current (ch_env ch)) = registered ch ts (target_path hb st (we_current (ch_env ch))) \<and>
         (\<forall>cg. cg \<noteq> we_current (ch_env ch) \<longrightarrow> target_path hb st' cg = target_path hb st cg)"
  using assms
proof (induction ts arbitrary: st)
  case Nil
  then show ?case by simp
next
  case (Cons t ts)
  obtain st1 where l: "namei_ext_register_target_fd hb ch t st = (None, st1)" "register_loop hb ch ts st1 = (True, st')"
    using Cons.prems(2) by (auto split: prod.splits option.splits)
  have s: "batch_scans ch [t]" "batch_scans ch ts"
    using Cons.prems(1) by (simp_all add: batch_scans_def)
  obtain fd p where o: "ch_open_path ch (the (tr_path t)) = Inr (fd, p)"
    and tp: "\<And>cg tid. target_path hb st1 cg tid =
       (if cg = we_current (ch_env ch) \<and> tid = tr_target_id t then Some p else target_path hb st cg tid)"
    using register_target_fd_line [OF s(1) l(1)] by blast
  have "target_path hb st1 (we_current (ch_env ch)) =
      (target_path hb st (we_current (ch_env ch)))(tr_target_id t := Some p)"
    by (simp add: fun_eq_iff tp)
  moreover have "cg \<noteq> we_current (ch_env ch) \<Longrightarrow> target_path hb st1 cg = target_path hb st cg" for cg
    by (simp add: fun_eq_iff tp)
  ultimately show ?case using Cons.IH [OF s(2) l(2)] o by (simp add: fun_upd_def)
qed

text \<open>A batch that reports success has registered every target, for its cgroup and no other.\<close>

lemma register_batch_registers:
  assumes "truthful ch" "batch_scans ch ts"
    and "namei_ext_register_target_batch rounds hb ch cgp ts st = (Some None, st')"
  shows "target_path hb st' (we_current (ch_env ch)) = registered ch ts (target_path hb st (we_current (ch_env ch)))"
    and "cg \<noteq> we_current (ch_env ch) \<Longrightarrow> target_path hb st' cg = target_path hb st cg"
proof -
  have nz: "namei_ext_wait_control_child rounds (ch_waits ch 1) \<noteq> Some None"
    using wait_control_child_success [of rounds "ch_waits ch 1"] assms(1)
    by (auto simp: truthful_def)
  have "register_loop hb ch ts st = (True, st')"
    using assms(3) nz
    by (auto simp: namei_ext_register_target_batch_def Let_def split: if_splits option.splits prod.splits bool.splits)
  from register_loop_registers [OF assms(2) this]
  show "target_path hb st' (we_current (ch_env ch)) = registered ch ts (target_path hb st (we_current (ch_env ch)))"
    and "cg \<noteq> we_current (ch_env ch) \<Longrightarrow> target_path hb st' cg = target_path hb st cg"
    by auto
qed

end
