(* ===== verification/Attach_Spec.thy ===== *)
theory Attach_Spec
  imports Reach
begin

text \<open>
  What attach and detach mean for the programs that run: after a successful update every
  live descendant has the array of the reference definition and its nearest owner, a refused
  attach changes no array, and where the in-place replacement of a link's program does and
  does not agree with the reference.
\<close>

subsection \<open>The arrays after an update\<close>

lemma activate_effective:
  "cb_effective (ks_cgroups (activate_effective_progs d arr st) c) =
     (if c = d then arr else cb_effective (ks_cgroups st c))"
  by (simp add: activate_effective_progs_def namei_ext_cgroup_set_scope_active_def
      namei_ext_global_scope_get_locked_def namei_ext_global_scope_put_locked_def upd_cgroup_def Let_def)

lemma activate_all_effective:
  assumes "\<forall>x\<in>set xs. snd x = Inr (g (fst x))"
  shows "cb_effective (ks_cgroups (activate_all xs st) c) =
           (if c \<in> fst ` set xs then g c else cb_effective (ks_cgroups st c))"
  using assms
proof (induction xs arbitrary: st)
  case Nil
  then show ?case by (simp add: activate_all_def)
next
  case (Cons x xs)
  obtain d r where x: "x = (d, r)" by (cases x)
  with Cons.prems have r: "r = Inr (g d)" by simp
  then show ?case
    using Cons.IH [of "activate_effective_progs d (g d) st"] Cons.prems x
    by (auto simp: activate_all_Cons activate_effective)
qed

text \<open>The reference definition reads only programs, flags, ancestors and links.\<close>

lemma taking_part_cong:
  assumes "\<And>c. cb_progs (ks_cgroups st' c) = cb_progs (ks_cgroups st c)"
    and "\<And>c. cb_flags (ks_cgroups st' c) = cb_flags (ks_cgroups st c)" "ks_links st' = ks_links st"
  shows "taking_part st' found ps = taking_part st found ps"
  by (induction ps arbitrary: found) (simp_all add: level_progs_def assms)

lemma effective_spec_cong:
  assumes "\<And>c. cb_progs (ks_cgroups st' c) = cb_progs (ks_cgroups st c)"
    and "\<And>c. cb_flags (ks_cgroups st' c) = cb_flags (ks_cgroups st c)" "ks_links st' = ks_links st"
    and "\<And>c. cb_ancestors (ks_cgroups st' c) = cb_ancestors (ks_cgroups st c)"
  shows "effective_spec d st' = effective_spec d st"
proof -
  have "cgroup_chain d st' = cgroup_chain d st" by (simp add: cgroup_chain_def assms(4))
  then show ?thesis
    unfolding effective_spec_def by (simp only: taking_part_cong [OF assms(1-3)])
qed

definition up_to_date :: "kstate \<Rightarrow> u64 \<Rightarrow> bool" where
  "up_to_date st d \<longleftrightarrow>
     cb_effective (ks_cgroups st d) = map Some (effective_spec d st) \<and>
     cb_owner (ks_cgroups st d) = nearest_owner d st"

lemma update_effective_spec:
  assumes "update_effective_progs alloc cg st = (None, st')" "d \<in> set (live_descendants cg st)"
  shows "up_to_date st' d"
proof (cases rule: update_effective_cases [of alloc cg st])
  case (error e)
  then show ?thesis using assms(1) by simp
next
  case (ok xs)
  have st': "st' = activate_all xs st" using ok(1) assms(1) by simp
  have g: "\<forall>x\<in>set xs. snd x = Inr (map Some (effective_spec (fst x) st))"
    using ok(4) by (simp add: compute_effective_spec)
  note f = activate_all_fields [OF ok(2), of st]
  have o: "ks_links st' = ks_links st" using activate_all_other [OF ok(2), of st] st' by simp
  have spec: "effective_spec d st' = effective_spec d st"
    by (rule effective_spec_cong) (simp_all add: st' f o [unfolded st'])
  have own: "nearest_owner d st' = nearest_owner d st"
    by (rule nearest_owner_cong) (simp_all add: st' f o [unfolded st'])
  have "d \<in> fst ` set xs" using ok(3) assms(2) by simp
  then show ?thesis
    using activate_all_effective [OF g, of st d] f(1) [of d]
    by (simp add: up_to_date_def spec own) (simp add: st')
qed

lemma up_to_date_cong:
  assumes "\<And>c. cb_progs (ks_cgroups st' c) = cb_progs (ks_cgroups st c)"
    and "\<And>c. cb_flags (ks_cgroups st' c) = cb_flags (ks_cgroups st c)" "ks_links st' = ks_links st"
    and "\<And>c. cb_ancestors (ks_cgroups st' c) = cb_ancestors (ks_cgroups st c)"
    and "cb_effective (ks_cgroups st' d) = cb_effective (ks_cgroups st d)"
    and "cb_owner (ks_cgroups st' d) = cb_owner (ks_cgroups st d)"
  shows "up_to_date st' d = up_to_date st d"
proof -
  have "nearest_owner d st' = nearest_owner d st"
    by (rule nearest_owner_cong) (simp_all add: assms)
  then show ?thesis
    by (simp add: up_to_date_def effective_spec_cong [OF assms(1-4)] assms(5,6))
qed

lemma update_live_descendants:
  assumes "update_effective_progs alloc cg st = (None, st')"
  shows "live_descendants cg' st' = live_descendants cg' st"
proof (cases rule: update_effective_cases [of alloc cg st])
  case (error e)
  then show ?thesis using assms by simp
next
  case (ok xs)
  then have "st' = activate_all xs st" using assms by simp
  then show ?thesis
    using activate_all_fields [OF ok(2), of st] activate_all_other [OF ok(2), of st]
    by (simp add: live_descendants_def css_descendants_def cgroup_chain_def)
qed

subsection \<open>Attach\<close>

lemma attach_commit_ok:
  assumes "attach_commit env cg a fl progs i old st = (None, st')"
    and "d \<in> set (live_descendants cg st')"
  shows "up_to_date st' d"
proof -
  let ?new = "\<lparr> pl_prog = at_prog a, pl_link = at_link a, pl_flags = at_flags a \<rparr>"
  let ?st1 = "upd_cgroup cg (\<lambda>c. c\<lparr>cb_flags := fl\<rparr>) (set_progs cg (progs[i := ?new]) st)"
  obtain st2 where u: "update_effective_progs (ae_array env) cg ?st1 = (None, st2)"
    and st': "st' = upd_cgroup cg (\<lambda>c. c\<lparr>cb_revision := cb_revision c + 1\<rparr>)
                (if old \<noteq> None then st2 else st2\<lparr>ks_enabled := ks_enabled st2 + 1\<rparr>)"
    using assms(1) by (auto simp: attach_commit_def Let_def split: prod.splits option.splits)
  have "d \<in> set (live_descendants cg st') \<longleftrightarrow> d \<in> set (live_descendants cg st2)"
    by (auto simp: st' live_descendants_def css_descendants_def cgroup_chain_def upd_cgroup_def split: if_splits)
  then have "d \<in> set (live_descendants cg ?st1)"
    using assms(2) update_live_descendants [OF u] by simp
  from update_effective_spec [OF u this] have "up_to_date st2 d" .
  moreover have "up_to_date st' d = up_to_date st2 d"
    by (rule up_to_date_cong) (auto simp: st' upd_cgroup_def)
  ultimately show ?thesis by simp
qed

lemma attach_commit_refused:
  assumes "attach_commit env cg a fl progs i old st = (Some e, st')"
  shows "cb_effective (ks_cgroups st' c) = cb_effective (ks_cgroups st c)"
    "cb_owner (ks_cgroups st' c) = cb_owner (ks_cgroups st c)"
proof -
  let ?new = "\<lparr> pl_prog = at_prog a, pl_link = at_link a, pl_flags = at_flags a \<rparr>"
  let ?st1 = "upd_cgroup cg (\<lambda>c. c\<lparr>cb_flags := fl\<rparr>) (set_progs cg (progs[i := ?new]) st)"
  have u: "snd (update_effective_progs (ae_array env) cg ?st1) = ?st1"
    if "fst (update_effective_progs (ae_array env) cg ?st1) \<noteq> None"
    using that by (cases rule: update_effective_cases [of "ae_array env" cg ?st1]) auto
  show "cb_effective (ks_cgroups st' c) = cb_effective (ks_cgroups st c)"
    "cb_owner (ks_cgroups st' c) = cb_owner (ks_cgroups st c)"
    using assms u
    by (auto simp: attach_commit_def Let_def set_progs_def upd_cgroup_def split: prod.splits option.splits if_splits)
qed

lemma attach_ok_commits:
  assumes "cgroup_bpf_attach env cg a st = (None, st')"
  obtains fl progs i old where "attach_commit env cg a fl progs i old st = (None, st')"
  using assms
  by (auto simp: cgroup_bpf_attach_def Let_def split: if_splits sum.splits option.splits prod.splits)

lemma attach_up_to_date:
  assumes "cgroup_bpf_attach env cg a st = (None, st')" "d \<in> set (live_descendants cg st')"
  shows "up_to_date st' d"
  using attach_ok_commits [OF assms(1)] attach_commit_ok assms(2) by metis

lemma attach_refused:
  assumes "cgroup_bpf_attach env cg a st = (Some e, st')"
  shows "cb_effective (ks_cgroups st' c) = cb_effective (ks_cgroups st c) \<and>
         cb_owner (ks_cgroups st' c) = cb_owner (ks_cgroups st c)"
  using assms
  by (auto simp: cgroup_bpf_attach_def Let_def split: if_splits sum.splits option.splits prod.splits
      dest: attach_commit_refused)

subsection \<open>Replacing the program of a link\<close>

text \<open>
  Two links on one cgroup, the second in pre-order: it runs first. Replacing its program
  counts positions without regard to pre-order and writes the other slot of the array.
\<close>

definition preorder_state :: kstate where
  "preorder_state =
     (let st = kernel_boot 1;
          progs = [\<lparr>pl_prog = None, pl_link = Some 10, pl_flags = BPF_F_ALLOW_MULTI\<rparr>,
                   \<lparr>pl_prog = None, pl_link = Some 20, pl_flags = BPF_F_ALLOW_MULTI OR BPF_F_PREORDER\<rparr>]
      in st\<lparr>ks_links := (\<lambda>l. l + 100),
            ks_cgroups := (ks_cgroups st)(1 := (ks_cgroups st 1)\<lparr>cb_progs := progs,
               cb_flags := BPF_F_ALLOW_MULTI, cb_effective := [Some 120, Some 110]\<rparr>)\<rparr>)"

lemma preorder_state_array: "map Some (effective_spec 1 preorder_state) = cb_effective (ks_cgroups preorder_state 1)"
  by code_simp

lemma replace_preorder_wrong_slot:
  "map_option (\<lambda>r. cb_effective (ks_cgroups (snd r) 1)) (cgroup_bpf_replace True 1 20 777 preorder_state) =
     Some [Some 120, Some 777]"
  "map_option (\<lambda>r. effective_spec 1 (snd r)) (cgroup_bpf_replace True 1 20 777 preorder_state) =
     Some [777, 110]"
  by code_simp+

end
