(* ===== verification/Cgroup_Links.thy ===== *)
theory Cgroup_Links
  imports Attach_Spec
begin

text \<open>
  The system calls around the attachment core of \<open>kernel/bpf/cgroup.c\<close>: attaching and
  detaching by program, creating, updating and releasing links, and queries. A link holds a
  reference on its cgroup (\<open>ks_link_cgroup\<close>); the invariant here ties the links to the
  entries of the program lists, and gives that neither the \<open>WARN_ON\<close> of a release nor the
  \<open>BUG_ON\<close> of an update can fire.
\<close>

subsection \<open>System calls\<close>

text \<open>
  What the calls take from outside: the cgroup and the program behind a descriptor, the
  environment of attach and detach, whether the link object can be allocated and what
  \<open>bpf_link_prime\<close> answers.
\<close>

record sys_env =
  se_cgroup_fd :: "u32 \<Rightarrow> errno + u64"
  se_prog_fd :: "u32 \<Rightarrow> errno + u64"
  se_attach :: attach_env
  se_delete_at :: "nat \<Rightarrow> u64 option list \<Rightarrow> u64 option list"
  se_alloc :: "u64 \<Rightarrow> bool"
  se_link_alloc :: bool
  se_prime :: "errno option"

record prog_attach_attr =
  pa_target_fd :: u32
  pa_attach_bpf_fd :: u32
  pa_replace_bpf_fd :: u32
  pa_attach_flags :: u32
  pa_relative_fd :: u32
  pa_expected_revision :: u64

definition cgroup_bpf_prog_attach :: "sys_env \<Rightarrow> prog_attach_attr \<Rightarrow> u64 \<Rightarrow> kstate \<Rightarrow> errno option \<times> kstate" where
  "cgroup_bpf_prog_attach env attr prog st =
     (case se_cgroup_fd env (pa_target_fd attr) of
        Inl e \<Rightarrow> (Some e, st)
      | Inr cgrp \<Rightarrow>
          let st = cgroup_get cgrp st;
              flags = pa_attach_flags attr
          in
          case (if has_flag flags BPF_F_ALLOW_MULTI \<and> has_flag flags BPF_F_REPLACE
                then map_sum id Some (se_prog_fd env (pa_replace_bpf_fd attr))
                else Inr None) of
            Inl e \<Rightarrow> (Some e, cgroup_put cgrp st)
          | Inr replace_prog \<Rightarrow>
              let (ret, st) = cgroup_bpf_attach (se_attach env) cgrp
                    \<lparr> at_prog = Some prog, at_link = None, at_replace_prog = replace_prog,
                      at_flags = flags, at_id_or_fd = pa_relative_fd attr,
                      at_revision = pa_expected_revision attr \<rparr> st
              in (ret, cgroup_put cgrp st))"

definition cgroup_bpf_prog_detach :: "sys_env \<Rightarrow> prog_attach_attr \<Rightarrow> kstate \<Rightarrow> errno option \<times> kstate" where
  "cgroup_bpf_prog_detach env attr st =
     (case se_cgroup_fd env (pa_target_fd attr) of
        Inl e \<Rightarrow> (Some e, st)
      | Inr cgrp \<Rightarrow>
          let st = cgroup_get cgrp st;
              prog = (case se_prog_fd env (pa_attach_bpf_fd attr) of Inl e \<Rightarrow> None | Inr p \<Rightarrow> Some p);
              (ret, st) = cgroup_bpf_detach (se_delete_at env) (se_alloc env) cgrp prog None
                            (pa_expected_revision attr) st
          in (ret, cgroup_put cgrp st))"

definition BPF_F_LINK_ATTACH_MASK :: u32 where
  "BPF_F_LINK_ATTACH_MASK =
     (BPF_F_ID OR BPF_F_BEFORE OR BPF_F_AFTER OR BPF_F_PREORDER OR BPF_F_LINK)"

record link_create_attr =
  lk_target_fd :: u32
  lk_flags :: u32
  lk_relative_fd :: u32
  lk_expected_revision :: u64

text \<open>
  \<open>link\<close> is the address the allocation returns. A link that is freed before it was settled is
  no link any more, so its cgroup is forgotten.
\<close>

definition cgroup_bpf_link_attach ::
  "sys_env \<Rightarrow> link_create_attr \<Rightarrow> u64 \<Rightarrow> u64 \<Rightarrow> kstate \<Rightarrow> errno option \<times> kstate" where
  "cgroup_bpf_link_attach env attr prog link st =
     (if lk_flags attr AND NOT BPF_F_LINK_ATTACH_MASK \<noteq> 0 then (Some EINVAL, st)
      else case se_cgroup_fd env (lk_target_fd attr) of
        Inl e \<Rightarrow> (Some e, st)
      | Inr cgrp \<Rightarrow>
          let st = cgroup_get cgrp st in
          if \<not> se_link_alloc env then (Some ENOMEM, cgroup_put cgrp st)
          else
            let st = st\<lparr>ks_links := (ks_links st)(link := prog),
                        ks_link_cgroup := (ks_link_cgroup st)(link := Some cgrp)\<rparr>;
                free = (\<lambda>st. st\<lparr>ks_link_cgroup := (ks_link_cgroup st)(link := None)\<rparr>)
            in
            case se_prime env of
              Some e \<Rightarrow> (Some e, cgroup_put cgrp (free st))
            | None \<Rightarrow>
                (case cgroup_bpf_attach (se_attach env) cgrp
                        \<lparr> at_prog = None, at_link = Some link, at_replace_prog = None,
                          at_flags = BPF_F_ALLOW_MULTI OR lk_flags attr, at_id_or_fd = lk_relative_fd attr,
                          at_revision = lk_expected_revision attr \<rparr> st of
                   (Some e, st) \<Rightarrow> (Some e, cgroup_put cgrp (free st))
                 | (None, st) \<Rightarrow> (None, st)))"

text \<open>The flag says whether the \<open>WARN_ON\<close> fires.\<close>

definition bpf_cgroup_link_release :: "sys_env \<Rightarrow> u64 \<Rightarrow> kstate \<Rightarrow> bool \<times> kstate" where
  "bpf_cgroup_link_release env link st =
     (case ks_link_cgroup st link of
        None \<Rightarrow> (False, st)
      | Some cg \<Rightarrow>
          let (ret, st) = cgroup_bpf_detach (se_delete_at env) (se_alloc env) cg None (Some link) 0 st;
              st = st\<lparr>ks_link_cgroup := (ks_link_cgroup st)(link := None)\<rparr>
          in (ret \<noteq> None, cgroup_put cg st))"

definition bpf_cgroup_link_detach :: "sys_env \<Rightarrow> u64 \<Rightarrow> kstate \<Rightarrow> errno option \<times> kstate" where
  "bpf_cgroup_link_detach env link st = (None, snd (bpf_cgroup_link_release env link st))"

text \<open>The \<open>update_prog\<close> operation of a link; \<open>None\<close> is the \<open>BUG_ON\<close> inside it.\<close>

definition cgroup_bpf_link_update ::
  "bool \<Rightarrow> u64 \<Rightarrow> u64 \<Rightarrow> u64 option \<Rightarrow> kstate \<Rightarrow> (errno option \<times> kstate) option" where
  "cgroup_bpf_link_update type_ok link new_prog old_prog st =
     (case ks_link_cgroup st link of
        None \<Rightarrow> Some (Some ENOLINK, st)
      | Some cgrp \<Rightarrow>
          if old_prog \<noteq> None \<and> old_prog \<noteq> Some (ks_links st link) then Some (Some EPERM, st)
          else cgroup_bpf_replace type_ok cgrp link new_prog st)"

definition bpf_cgroup_link_fill_link_info :: "u64 \<Rightarrow> kstate \<Rightarrow> u64" where
  "bpf_cgroup_link_fill_link_info link st =
     (case ks_link_cgroup st link of None \<Rightarrow> 0 | Some cgrp \<Rightarrow> cgrp)"

subsection \<open>Queries\<close>

text \<open>
  The outputs of \<open>__cgroup_bpf_query\<close> for the attach type, as far as it wrote them. The
  length of an effective array and its copy to user space belong to \<open>kernel/bpf/core.c\<close> and
  are parameters, as are the ids of the programs and which copies fault.
\<close>

record query_env =
  qe_copy_flags :: bool
  qe_copy_cnt :: bool
  qe_copy_revision :: bool
  qe_copy_id :: "nat \<Rightarrow> bool"
  qe_copy_attach_flag :: "nat \<Rightarrow> bool"
  qe_prog_id :: "u64 \<Rightarrow> u32"
  qe_array_length :: "u64 option list \<Rightarrow> nat"
  qe_array_copy :: "u64 option list \<Rightarrow> nat \<Rightarrow> errno option \<times> u32 list"

record query_attr =
  qa_effective :: bool
  qa_want_ids :: bool
  qa_want_attach_flags :: bool
  qa_prog_cnt :: nat

record query_out =
  qo_attach_flags :: u32
  qo_prog_cnt :: nat
  qo_revision :: u64
  qo_ids :: "u32 list"
  qo_prog_attach_flags :: "u32 list"

definition zero_query_out :: query_out where
  "zero_query_out =
     \<lparr>qo_attach_flags = 0, qo_prog_cnt = 0, qo_revision = 0, qo_ids = [], qo_prog_attach_flags = []\<rparr>"

text \<open>
  The loop over the list: at most \<open>cnt\<close> ids. An entry without program would be a null
  dereference; \<open>None\<close> marks it.
\<close>

fun query_ids :: "query_env \<Rightarrow> (u64 \<Rightarrow> u64) \<Rightarrow> nat \<Rightarrow> nat \<Rightarrow> bpf_prog_list list \<Rightarrow> (errno option \<times> u32 list) option" where
  "query_ids env links cnt i [] = Some (None, [])"
| "query_ids env links cnt i (pl # pls) =
     (case prog_list_prog links pl of
        None \<Rightarrow> None
      | Some prog \<Rightarrow>
          if \<not> qe_copy_id env i then Some (Some EFAULT, [])
          else if Suc i = cnt then Some (None, [qe_prog_id env prog])
          else map_option (\<lambda>(e, ids). (e, qe_prog_id env prog # ids)) (query_ids env links cnt (Suc i) pls))"

definition cgroup_bpf_query :: "query_env \<Rightarrow> query_attr \<Rightarrow> u64 \<Rightarrow> kstate \<Rightarrow> (errno option \<times> query_out) option" where
  "cgroup_bpf_query env attr cgrp st =
     (let c = ks_cgroups st cgrp; effective = qa_effective attr; uo = zero_query_out in
      if effective \<and> qa_want_attach_flags attr then Some (Some EINVAL, uo)
      else
        let total = (if effective then qe_array_length env (cb_effective c)
                     else fst (prog_list_length (ks_links st) (cb_progs c)));
            flags = (if effective then 0 else cb_flags c);
            revision = (if effective then 0 else cb_revision c)
        in
        if \<not> qe_copy_flags env then Some (Some EFAULT, uo)
        else let uo = uo\<lparr>qo_attach_flags := flags\<rparr> in
        if \<not> qe_copy_cnt env then Some (Some EFAULT, uo)
        else let uo = uo\<lparr>qo_prog_cnt := total\<rparr> in
        if \<not> qe_copy_revision env then Some (Some EFAULT, uo)
        else let uo = uo\<lparr>qo_revision := revision\<rparr> in
        if qa_prog_cnt attr = 0 \<or> \<not> qa_want_ids attr \<or> total = 0 then Some (None, uo)
        else
          let ret = (if qa_prog_cnt attr < total then Some ENOSPC else None);
              room = min (qa_prog_cnt attr) total
          in
          if effective then
            (let cnt = min (qe_array_length env (cb_effective c)) room;
                 (ret, ids) = qe_array_copy env (cb_effective c) cnt
             in Some (ret, uo\<lparr>qo_ids := ids\<rparr>))
          else
            (let cnt = min (fst (prog_list_length (ks_links st) (cb_progs c))) room in
             case query_ids env (ks_links st) cnt 0 (cb_progs c) of
               None \<Rightarrow> None
             | Some (Some e, ids) \<Rightarrow> Some (Some e, uo\<lparr>qo_ids := ids\<rparr>)
             | Some (None, ids) \<Rightarrow>
                 let uo = uo\<lparr>qo_ids := ids\<rparr> in
                 if qa_want_attach_flags attr
                 then let n = length (takeWhile (qe_copy_attach_flag env) [0..<cnt])
                      in Some (if n < cnt then Some EFAULT else ret,
                               uo\<lparr>qo_prog_attach_flags := replicate n (cb_flags c)\<rparr>)
                 else Some (ret, uo)))"

definition cgroup_bpf_prog_query ::
  "sys_env \<Rightarrow> query_env \<Rightarrow> u32 \<Rightarrow> query_attr \<Rightarrow> kstate \<Rightarrow> (errno option \<times> query_out) option \<times> kstate" where
  "cgroup_bpf_prog_query env qe target_fd attr st =
     (case se_cgroup_fd env target_fd of
        Inl e \<Rightarrow> (Some (Some e, zero_query_out), st)
      | Inr cgrp \<Rightarrow>
          let st = cgroup_get cgrp st; r = cgroup_bpf_query qe attr cgrp st
          in (r, cgroup_put cgrp st))"

subsection \<open>What attach and detach do to the lists\<close>

text \<open>Same lists, flags, links and cgroup references.\<close>

definition list_frame :: "kstate \<Rightarrow> kstate \<Rightarrow> bool" where
  "list_frame st st' \<longleftrightarrow>
     (\<forall>c. cb_progs (ks_cgroups st' c) = cb_progs (ks_cgroups st c) \<and>
          cb_flags (ks_cgroups st' c) = cb_flags (ks_cgroups st c)) \<and>
     ks_links st' = ks_links st \<and> ks_link_cgroup st' = ks_link_cgroup st \<and>
     ks_cgroup_refs st' = ks_cgroup_refs st"

lemma list_frame_refl [simp]: "list_frame st st"
  by (simp add: list_frame_def)

lemma list_frame_trans: "list_frame a b \<Longrightarrow> list_frame b c \<Longrightarrow> list_frame a c"
  by (simp add: list_frame_def)

lemma activate_frame: "list_frame st (activate_effective_progs d arr st)"
  by (simp add: list_frame_def activate_effective_progs_def Let_def namei_ext_cgroup_set_scope_active_def
      namei_ext_global_scope_get_locked_def namei_ext_global_scope_put_locked_def upd_cgroup_def)

lemma activate_all_frame: "list_frame st (activate_all xs st)"
  unfolding activate_all_def
  by (rule fold_inv [of "list_frame st"])
     (auto intro: list_frame_trans [OF _ activate_frame] split: sum.split)

lemma update_frame: "list_frame st (snd (update_effective_progs alloc cg st))"
  by (cases rule: update_effective_cases [of alloc cg st]) (simp_all add: activate_all_frame)

lemma purge_frame: "list_frame st (purge_effective_progs da cg prog link st)"
  unfolding purge_effective_progs_def
  by (rule fold_inv [of "list_frame st"]) (auto simp: list_frame_def upd_cgroup_def split: option.split)

lemma set_progs_fields [simp]:
  "cb_progs (ks_cgroups (set_progs cg ps st) c) = (if c = cg then ps else cb_progs (ks_cgroups st c))"
  "cb_flags (ks_cgroups (set_progs cg ps st) c) = cb_flags (ks_cgroups st c)"
  "ks_links (set_progs cg ps st) = ks_links st"
  "ks_link_cgroup (set_progs cg ps st) = ks_link_cgroup st"
  "ks_cgroup_refs (set_progs cg ps st) = ks_cgroup_refs st"
  by (simp_all add: set_progs_def upd_cgroup_def)

lemma attach_commit_lists:
  assumes "attach_commit env cg a fl progs i old st = (r, st')"
  defines "new \<equiv> \<lparr> pl_prog = at_prog a, pl_link = at_link a, pl_flags = at_flags a \<rparr>"
  shows "cb_progs (ks_cgroups st' c) =
           (if c \<noteq> cg then cb_progs (ks_cgroups st c)
            else if r = None then progs[i := new]
            else if old \<noteq> None then progs[i := new\<lparr>pl_prog := old, pl_link := None\<rparr>]
            else remove_at i (progs[i := new]))"
    and "cb_flags (ks_cgroups st' c) = (if c = cg then fl else cb_flags (ks_cgroups st c))"
    and "ks_links st' = ks_links st \<and> ks_link_cgroup st' = ks_link_cgroup st \<and> ks_cgroup_refs st' = ks_cgroup_refs st"
proof -
  let ?st1 = "upd_cgroup cg (\<lambda>c. c\<lparr>cb_flags := fl\<rparr>) (set_progs cg (progs[i := new]) st)"
  obtain u st2 where u: "update_effective_progs (ae_array env) cg ?st1 = (u, st2)" by fastforce
  have fr: "list_frame ?st1 st2" using update_frame [of ?st1 "ae_array env" cg] u by simp
  have one: "cb_progs (ks_cgroups ?st1 c) = (if c = cg then progs[i := new] else cb_progs (ks_cgroups st c))"
    "cb_flags (ks_cgroups ?st1 c) = (if c = cg then fl else cb_flags (ks_cgroups st c))" for c
    by (simp_all add: set_progs_def upd_cgroup_def)
  have r: "r = u" "st' = (if u = None
      then upd_cgroup cg (\<lambda>c. c\<lparr>cb_revision := cb_revision c + 1\<rparr>)
             (if old \<noteq> None then st2 else st2\<lparr>ks_enabled := ks_enabled st2 + 1\<rparr>)
      else if old \<noteq> None then set_progs cg (progs[i := new\<lparr>pl_prog := old, pl_link := None\<rparr>]) st2
      else set_progs cg (remove_at i (progs[i := new])) st2)"
    using assms(1) u by (auto simp: attach_commit_def Let_def new_def split: option.splits)
  show "cb_progs (ks_cgroups st' c) =
           (if c \<noteq> cg then cb_progs (ks_cgroups st c)
            else if r = None then progs[i := new]
            else if old \<noteq> None then progs[i := new\<lparr>pl_prog := old, pl_link := None\<rparr>]
            else remove_at i (progs[i := new]))"
    using fr one [of c] unfolding r list_frame_def by (auto simp: upd_cgroup_def)
  show "cb_flags (ks_cgroups st' c) = (if c = cg then fl else cb_flags (ks_cgroups st c))"
    using fr one [of c] unfolding r list_frame_def by (auto simp: upd_cgroup_def)
  show "ks_links st' = ks_links st \<and> ks_link_cgroup st' = ks_link_cgroup st \<and> ks_cgroup_refs st' = ks_cgroup_refs st"
    using fr unfolding r list_frame_def by (auto simp: upd_cgroup_def set_progs_def)
qed

lemma attach_lists_cases:
  assumes "cgroup_bpf_attach env cg a st = (r, st')"
  defines "fl \<equiv> at_flags a AND (BPF_F_ALLOW_OVERRIDE OR BPF_F_ALLOW_MULTI)"
    and "ps \<equiv> cb_progs (ks_cgroups st cg)"
  obtains (unchanged) "st' = st" "r \<noteq> None"
  | (entry) i where "attach_commit env cg a fl ps i (pl_prog (ps ! i)) st = (r, st')"
      "ps = [] \<or> cb_flags (ks_cgroups st cg) = fl"
      "find_attach_entry ps (at_prog a) (at_link a) (at_replace_prog a) (has_flag (at_flags a) BPF_F_ALLOW_MULTI) = Inr (Some i)"
  | (fresh) progs i where "attach_commit env cg a fl progs i None st = (r, st')"
      "ps = [] \<or> cb_flags (ks_cgroups st cg) = fl"
      "insert_pl_to_hlist env \<lparr> pl_prog = at_prog a, pl_link = at_link a, pl_flags = at_flags a \<rparr> ps a = Inr (progs, i)"
      "find_attach_entry ps (at_prog a) (at_link a) (at_replace_prog a) (has_flag (at_flags a) BPF_F_ALLOW_MULTI) = Inr None"
proof -
  let ?new = "\<lparr> pl_prog = at_prog a, pl_link = at_link a, pl_flags = at_flags a \<rparr>"
  let ?find = "find_attach_entry ps (at_prog a) (at_link a) (at_replace_prog a)
    (has_flag (at_flags a) BPF_F_ALLOW_MULTI)"
  define tail where "tail =
     (case ?find of
        Inl e \<Rightarrow> (Some e, st)
      | Inr entry \<Rightarrow>
          if \<not> ae_storage env then (Some ENOMEM, st)
          else
            (case entry of
               Some i \<Rightarrow> attach_commit env cg a fl ps i (pl_prog (ps ! i)) st
             | None \<Rightarrow>
                 if \<not> ae_node env then (Some ENOMEM, st)
                 else
                   (case insert_pl_to_hlist env ?new ps a of
                      Inl e \<Rightarrow> (Some e, st)
                    | Inr (progs', i) \<Rightarrow> attach_commit env cg a fl progs' i None st)))"
  have "(\<exists>e. cgroup_bpf_attach env cg a st = (Some e, st)) \<or>
      (ps = [] \<or> cb_flags (ks_cgroups st cg) = fl) \<and> cgroup_bpf_attach env cg a st = tail"
    unfolding cgroup_bpf_attach_def Let_def fl_def [symmetric] ps_def [symmetric] tail_def [symmetric]
    by simp
  then consider (refused) "st' = st" "r \<noteq> None"
    | (tail) "ps = [] \<or> cb_flags (ks_cgroups st cg) = fl" "tail = (r, st')"
    using assms(1) by auto
  then show thesis
  proof cases
    case refused
    then show thesis by (rule unchanged)
  next
    case tail
    note t = tail(2) [unfolded tail_def]
    show thesis
    proof (cases ?find)
      case (Inl e)
      then show thesis using t unchanged by auto
    next
      case found: (Inr e)
      show thesis
      proof (cases "ae_storage env")
        case False
        then show thesis using t found unchanged by auto
      next
        case True
        show thesis
        proof (cases e)
          case (Some i)
          then show thesis using entry [of i] t found True tail(1) by simp
        next
          case None
          show thesis
          proof (cases "insert_pl_to_hlist env ?new ps a")
            case (Inl e')
            then show thesis using t found True None unchanged by (auto split: if_splits)
          next
            case (Inr q)
            obtain progs i where q: "q = (progs, i)" by fastforce
            show thesis
              using t found True None Inr q unchanged fresh [of progs i] tail(1)
              by (cases "ae_node env") auto
          qed
        qed
      qed
    qed
  qed
qed

end
