(* ===== verification/Link_Inv.thy ===== *)
theory Link_Inv
  imports Cgroup_Links
begin

text \<open>
  The invariant that ties links to list entries, and what attach and detach do to it.
\<close>

subsection \<open>Links and list entries\<close>

definition link_ids :: "bpf_prog_list list \<Rightarrow> u64 list" where
  "link_ids ps = concat (map (\<lambda>pl. case pl_link pl of None \<Rightarrow> [] | Some l \<Rightarrow> [l]) ps)"

lemma link_ids_simps [simp]:
  "link_ids [] = []"
  "link_ids (pl # ps) = (case pl_link pl of None \<Rightarrow> link_ids ps | Some l \<Rightarrow> l # link_ids ps)"
  "link_ids (ps @ qs) = link_ids ps @ link_ids qs"
  by (simp_all add: link_ids_def split: option.split)

lemma link_ids_iff: "l \<in> set (link_ids ps) \<longleftrightarrow> (\<exists>pl\<in>set ps. pl_link pl = Some l)"
  by (induction ps) (auto split: option.splits)

text \<open>
  An entry is a program or a link that belongs to this cgroup; links only stand in lists
  that allow several entries.
\<close>

definition entry_ok :: "kstate \<Rightarrow> u64 \<Rightarrow> bpf_prog_list \<Rightarrow> bool" where
  "entry_ok st c pl \<longleftrightarrow>
     (case pl_link pl of
        None \<Rightarrow> pl_prog pl \<noteq> None
      | Some l \<Rightarrow> pl_prog pl = None \<and> ks_link_cgroup st l = Some c \<and>
                  has_flag (cb_flags (ks_cgroups st c)) BPF_F_ALLOW_MULTI)"

definition lists_ok :: "kstate \<Rightarrow> bool" where
  "lists_ok st \<longleftrightarrow>
     (\<forall>c. list_all (entry_ok st c) (cb_progs (ks_cgroups st c)) \<and>
          distinct (link_ids (cb_progs (ks_cgroups st c))))"

definition links_inv :: "kstate \<Rightarrow> bool" where
  "links_inv st \<longleftrightarrow>
     lists_ok st \<and>
     (\<forall>l c. ks_link_cgroup st l = Some c \<longrightarrow> l \<in> set (link_ids (cb_progs (ks_cgroups st c))))"

lemma lists_okD:
  assumes "lists_ok st" "pl \<in> set (cb_progs (ks_cgroups st c))"
  shows "entry_ok st c pl"
  using assms by (auto simp: lists_ok_def list_all_iff)

lemma entry_okD:
  assumes "entry_ok st c pl"
  shows "pl_link pl = Some l \<Longrightarrow> pl_prog pl = None \<and> ks_link_cgroup st l = Some c \<and>
           has_flag (cb_flags (ks_cgroups st c)) BPF_F_ALLOW_MULTI"
    and "pl_prog pl = Some p \<Longrightarrow> pl_link pl = None"
    and "pl_link pl = None \<Longrightarrow> pl_prog pl \<noteq> None"
  using assms by (auto simp: entry_ok_def split: option.splits)

lemma links_inv_cong:
  assumes "\<And>c. cb_progs (ks_cgroups st' c) = cb_progs (ks_cgroups st c)"
    and "\<And>c. cb_flags (ks_cgroups st' c) = cb_flags (ks_cgroups st c)"
    and "ks_link_cgroup st' = ks_link_cgroup st"
  shows "lists_ok st' = lists_ok st" "links_inv st' = links_inv st"
proof -
  have "entry_ok st' = entry_ok st" using assms by (simp add: fun_eq_iff entry_ok_def split: option.split)
  then show l: "lists_ok st' = lists_ok st" using assms by (simp add: lists_ok_def)
  show "links_inv st' = links_inv st" using assms by (simp add: links_inv_def l)
qed

lemma lists_ok_frame:
  assumes "list_frame st st'"
  shows "lists_ok st' = lists_ok st" "links_inv st' = links_inv st"
  by (rule links_inv_cong; use assms in \<open>simp add: list_frame_def\<close>)+

lemma links_inv_refs [simp]:
  "links_inv (cgroup_get cg st) = links_inv st" "links_inv (cgroup_put cg st) = links_inv st"
  "lists_ok (cgroup_get cg st) = lists_ok st" "lists_ok (cgroup_put cg st) = lists_ok st"
  by (rule links_inv_cong; simp add: cgroup_ref_defs)+

lemma saved_multi:
  "has_flag (fl AND (BPF_F_ALLOW_OVERRIDE OR BPF_F_ALLOW_MULTI)) BPF_F_ALLOW_MULTI = has_flag fl BPF_F_ALLOW_MULTI"
  by (simp add: has_flag_def BPF_F_ALLOW_OVERRIDE_def BPF_F_ALLOW_MULTI_def and.assoc)

lemma link_ids_update:
  assumes "i < length ps" "pl_link (ps ! i) = None" "pl_link pl = None"
  shows "link_ids (ps[i := pl]) = link_ids ps"
proof -
  have "ps = take i ps @ (ps ! i) # drop (Suc i) ps" using assms(1) by (simp add: id_take_nth_drop)
  moreover have "ps[i := pl] = take i ps @ pl # drop (Suc i) ps" using assms(1) by (simp add: upd_conv_take_nth_drop)
  ultimately show ?thesis using assms(2,3) by (metis link_ids_simps(2,3) option.simps(4))
qed

lemma insert_pl_split:
  assumes "insert_pl_to_hlist env pl ps a = Inr (progs, i)"
  obtains xs ys where "ps = xs @ ys" "progs = xs @ pl # ys" "i = length xs"
proof -
  have b: "j < length ps" if "get_prog_list env ps a = Inr (Some j)" for j
    using that
    by (auto simp: get_prog_list_def Let_def dest: find_index_SomeD
        split: if_splits option.splits sum.splits)
  show ?thesis
  proof (cases "get_prog_list env ps a")
    case (Inl e)
    then show ?thesis using assms by (simp add: insert_pl_to_hlist_def)
  next
    case (Inr o')
    show ?thesis
    proof (cases o')
      case None
      then show ?thesis using that [of "[]" ps] assms Inr by (simp add: insert_pl_to_hlist_def)
    next
      case (Some j)
      have j: "j < length ps" using b Inr Some by simp
      define k where "k = (if has_flag (at_flags a) BPF_F_BEFORE then j else Suc j)"
      have "Inr (take k ps @ pl # drop k ps, k) = insert_pl_to_hlist env pl ps a"
        using Inr Some by (simp add: insert_pl_to_hlist_def k_def)
      then have "progs = take k ps @ pl # drop k ps" "i = k" using assms by auto
      moreover have "k \<le> length ps" using j by (simp add: k_def)
      ultimately show ?thesis using that [of "take k ps" "drop k ps"] by (simp only: append_take_drop_id length_take min_absorb2)
    qed
  qed
qed

text \<open>The arguments the two system calls pass on.\<close>

definition attach_args_ok :: "kstate \<Rightarrow> u64 \<Rightarrow> attach_args \<Rightarrow> bool" where
  "attach_args_ok st cg a \<longleftrightarrow>
     (case at_link a of
        None \<Rightarrow> at_prog a \<noteq> None
      | Some l \<Rightarrow> at_prog a = None \<and> at_replace_prog a = None \<and> ks_link_cgroup st l = Some cg \<and>
                  has_flag (at_flags a) BPF_F_ALLOW_MULTI)"

text \<open>An entry that attach reuses is a program.\<close>

lemma attach_entry_prog:
  assumes "lists_ok st" "attach_args_ok st cg a"
    and "cb_progs (ks_cgroups st cg) = [] \<or>
         cb_flags (ks_cgroups st cg) = at_flags a AND (BPF_F_ALLOW_OVERRIDE OR BPF_F_ALLOW_MULTI)"
    and "find_attach_entry (cb_progs (ks_cgroups st cg)) (at_prog a) (at_link a) (at_replace_prog a)
           (has_flag (at_flags a) BPF_F_ALLOW_MULTI) = Inr (Some i)"
  shows "i < length (cb_progs (ks_cgroups st cg))" "at_link a = None"
    "pl_link (cb_progs (ks_cgroups st cg) ! i) = None" "pl_prog (cb_progs (ks_cgroups st cg) ! i) \<noteq> None"
proof -
  let ?ps = "cb_progs (ks_cgroups st cg)"
  show i: "i < length ?ps" using assms(4) by (rule find_attach_entry_bound)
  then have ok: "entry_ok st cg (?ps ! i)" using assms(1) by (simp add: lists_okD)
  have rep: "at_replace_prog a \<noteq> None \<and> pl_prog (?ps ! i) = at_replace_prog a"
    if "has_flag (at_flags a) BPF_F_ALLOW_MULTI"
    using assms(4) that by (auto simp: find_attach_entry_def dest: find_index_SomeD split: if_splits option.splits)
  show "at_link a = None"
    using rep assms(2) by (auto simp: attach_args_ok_def split: option.splits)
  show link: "pl_link (?ps ! i) = None"
  proof (cases "has_flag (at_flags a) BPF_F_ALLOW_MULTI")
    case True
    then show ?thesis using rep entry_okD(2) [OF ok] by auto
  next
    case False
    have "cb_flags (ks_cgroups st cg) = at_flags a AND (BPF_F_ALLOW_OVERRIDE OR BPF_F_ALLOW_MULTI)"
      using assms(3) i by auto
    then have "\<not> has_flag (cb_flags (ks_cgroups st cg)) BPF_F_ALLOW_MULTI" using False by (simp add: saved_multi)
    then show ?thesis using entry_okD(1) [OF ok] by (cases "pl_link (?ps ! i)") auto
  qed
  show "pl_prog (?ps ! i) \<noteq> None" using entry_okD(3) [OF ok link] .
qed

lemma entry_ok_cong:
  assumes "ks_link_cgroup st' = ks_link_cgroup st"
    and "\<And>l. pl_link pl = Some l \<Longrightarrow> has_flag (cb_flags (ks_cgroups st' c)) BPF_F_ALLOW_MULTI =
           has_flag (cb_flags (ks_cgroups st c)) BPF_F_ALLOW_MULTI"
  shows "entry_ok st' c pl = entry_ok st c pl"
  using assms by (auto simp: entry_ok_def split: option.split)

text \<open>
  Attach keeps the lists in order, and adds the link it is given exactly when it succeeds.
\<close>

definition saved_flags :: "attach_args \<Rightarrow> u32" where
  "saved_flags a = at_flags a AND (BPF_F_ALLOW_OVERRIDE OR BPF_F_ALLOW_MULTI)"

definition lists_extended :: "kstate \<Rightarrow> u64 \<Rightarrow> attach_args \<Rightarrow> errno option \<Rightarrow> kstate \<Rightarrow> bool" where
  "lists_extended st cg a r st' \<longleftrightarrow>
     lists_ok st' \<and>
     (\<forall>c. set (link_ids (cb_progs (ks_cgroups st' c))) =
          set (link_ids (cb_progs (ks_cgroups st c))) \<union> (if c = cg \<and> r = None then set_option (at_link a) else {})) \<and>
     ks_link_cgroup st' = ks_link_cgroup st \<and> ks_cgroup_refs st' = ks_cgroup_refs st"

lemma attach_commit_entry_ok:
  assumes "lists_ok st" "attach_commit env cg a (saved_flags a) progs i old st = (r, st')"
    and "cb_progs (ks_cgroups st cg) = [] \<or> cb_flags (ks_cgroups st cg) = saved_flags a"
    and "pl \<in> set (cb_progs (ks_cgroups st cg))"
  shows "entry_ok st' cg pl"
  using assms(3,4) attach_commit_lists(2,3) [OF assms(2)] lists_okD [OF assms(1,4)] entry_ok_cong [of st' st pl cg]
  by (cases "cb_progs (ks_cgroups st cg) = []") auto

lemma lists_extendedI:
  assumes ok: "lists_ok st" and com: "attach_commit env cg a (saved_flags a) progs i old st = (r, st')"
    and here: "list_all (entry_ok st' cg) (cb_progs (ks_cgroups st' cg))"
      "distinct (link_ids (cb_progs (ks_cgroups st' cg)))"
      "set (link_ids (cb_progs (ks_cgroups st' cg))) =
         set (link_ids (cb_progs (ks_cgroups st cg))) \<union> (if r = None then set_option (at_link a) else {})"
  shows "lists_extended st cg a r st'"
proof -
  note l = attach_commit_lists(2,3) [OF com]
  have other: "cb_progs (ks_cgroups st' c) = cb_progs (ks_cgroups st c)" if "c \<noteq> cg" for c
    using attach_commit_lists(1) [OF com, of c] that by simp
  have "list_all (entry_ok st' c) (cb_progs (ks_cgroups st' c)) \<and> distinct (link_ids (cb_progs (ks_cgroups st' c)))"
    for c
  proof (cases "c = cg")
    case False
    have "entry_ok st' c = entry_ok st c"
      using l False by (simp add: fun_eq_iff entry_ok_def split: option.split)
    then show ?thesis using ok False other [of c] by (simp add: lists_ok_def)
  qed (use here in simp)
  moreover have "set (link_ids (cb_progs (ks_cgroups st' c))) =
      set (link_ids (cb_progs (ks_cgroups st c))) \<union> (if c = cg \<and> r = None then set_option (at_link a) else {})" for c
    using here(3) other [of c] by (cases "c = cg") simp_all
  ultimately show ?thesis using l(2) by (simp add: lists_extended_def lists_ok_def)
qed

lemma attach_entry_extended:
  assumes "lists_ok st" "attach_args_ok st cg a"
  defines "ps \<equiv> cb_progs (ks_cgroups st cg)"
  assumes com: "attach_commit env cg a (saved_flags a) ps i (pl_prog (ps ! i)) st = (r, st')"
    and fl: "ps = [] \<or> cb_flags (ks_cgroups st cg) = saved_flags a"
    and find: "find_attach_entry ps (at_prog a) (at_link a) (at_replace_prog a)
           (has_flag (at_flags a) BPF_F_ALLOW_MULTI) = Inr (Some i)"
  shows "lists_extended st cg a r st'"
proof -
  let ?new = "\<lparr> pl_prog = at_prog a, pl_link = at_link a, pl_flags = at_flags a \<rparr>"
  note e = attach_entry_prog [OF assms(1,2) fl [unfolded ps_def saved_flags_def] find [unfolded ps_def], folded ps_def]
  have prog: "at_prog a \<noteq> None" using assms(2) e(2) by (simp add: attach_args_ok_def)
  obtain pl where pl: "cb_progs (ks_cgroups st' cg) = ps[i := pl]" "pl_link pl = None" "pl_prog pl \<noteq> None"
    using attach_commit_lists(1) [OF com, of cg] e(2,4) prog
      that [of ?new] that [of "?new\<lparr>pl_prog := pl_prog (ps ! i), pl_link := None\<rparr>"]
    by (cases "r = None") auto
  have ids: "link_ids (ps[i := pl]) = link_ids ps" by (rule link_ids_update [OF e(1,3) pl(2)])
  show ?thesis
  proof (rule lists_extendedI [OF assms(1) com])
    have "entry_ok st' cg x" if "x \<in> set ps" for x
      using attach_commit_entry_ok [OF assms(1) com] fl that by (simp add: ps_def)
    moreover have "entry_ok st' cg pl" using pl(2,3) by (simp add: entry_ok_def)
    ultimately show "list_all (entry_ok st' cg) (cb_progs (ks_cgroups st' cg))"
      unfolding pl(1) list_all_iff using set_update_subset_insert [of ps i pl] by blast
    show "distinct (link_ids (cb_progs (ks_cgroups st' cg)))"
      unfolding pl(1) ids using assms(1) by (simp add: lists_ok_def ps_def)
    show "set (link_ids (cb_progs (ks_cgroups st' cg))) =
         set (link_ids (cb_progs (ks_cgroups st cg))) \<union> (if r = None then set_option (at_link a) else {})"
      unfolding pl(1) ids using e(2) by (simp add: ps_def)
  qed
qed

lemma attach_fresh_extended:
  assumes "lists_ok st" "attach_args_ok st cg a"
    and notin: "\<And>l. at_link a = Some l \<Longrightarrow> l \<notin> set (link_ids (cb_progs (ks_cgroups st cg)))"
  defines "ps \<equiv> cb_progs (ks_cgroups st cg)"
    and "new \<equiv> \<lparr> pl_prog = at_prog a, pl_link = at_link a, pl_flags = at_flags a \<rparr>"
  assumes com: "attach_commit env cg a (saved_flags a) progs i None st = (r, st')"
    and fl: "ps = [] \<or> cb_flags (ks_cgroups st cg) = saved_flags a"
    and ins: "insert_pl_to_hlist env new ps a = Inr (progs, i)"
  shows "lists_extended st cg a r st'"
proof -
  note l = attach_commit_lists [OF com, folded new_def]
  obtain xs ys where x: "ps = xs @ ys" "progs = xs @ new # ys" "i = length xs"
    using insert_pl_split [OF ins] by blast
  have here: "cb_progs (ks_cgroups st' cg) = (if r = None then xs @ new # ys else xs @ ys)"
    using l(1) [of cg] x by (simp add: remove_at_def)
  have new: "entry_ok st' cg new"
    using assms(2) l(2,3)
    by (auto simp: entry_ok_def attach_args_ok_def saved_flags_def saved_multi new_def split: option.splits)
  have old: "entry_ok st' cg pl" if "pl \<in> set (xs @ ys)" for pl
    using attach_commit_entry_ok [OF assms(1) com] fl that x(1) by (simp add: ps_def)
  have d: "distinct (link_ids xs @ link_ids ys)"
    using assms(1) x(1) unfolding lists_ok_def ps_def by (metis link_ids_simps(3))
  have nl: "l \<notin> set (link_ids xs) \<and> l \<notin> set (link_ids ys)" if "pl_link new = Some l" for l
    using notin [of l] that x(1) by (simp add: ps_def new_def)
  show ?thesis
  proof (rule lists_extendedI [OF assms(1) com])
    show "list_all (entry_ok st' cg) (cb_progs (ks_cgroups st' cg))"
      using here new old by (simp add: list_all_iff)
    show "distinct (link_ids (cb_progs (ks_cgroups st' cg)))"
      using here d nl by (auto split: option.split)
    show "set (link_ids (cb_progs (ks_cgroups st' cg))) =
         set (link_ids (cb_progs (ks_cgroups st cg))) \<union> (if r = None then set_option (at_link a) else {})"
      unfolding ps_def [symmetric] using here x(1) by (auto simp: new_def split: option.split)
  qed
qed

lemma attach_lists_extended:
  assumes "lists_ok st" "attach_args_ok st cg a"
    and "\<And>l. at_link a = Some l \<Longrightarrow> l \<notin> set (link_ids (cb_progs (ks_cgroups st cg)))"
    and "cgroup_bpf_attach env cg a st = (r, st')"
  shows "lists_extended st cg a r st'"
proof (cases rule: attach_lists_cases [OF assms(4)])
  case 1
  then show ?thesis using assms(1) by (auto simp: lists_extended_def)
next
  case (2 i)
  then show ?thesis using attach_entry_extended [OF assms(1,2)] by (simp add: saved_flags_def)
next
  case (3 progs i)
  then show ?thesis using attach_fresh_extended [OF assms(1,2,3)] by (simp add: saved_flags_def)
qed

lemma detach_lists_cases:
  assumes "cgroup_bpf_detach da alloc cg prog link rv st = (r, st')"
  defines "ps \<equiv> cb_progs (ks_cgroups st cg)" and "flags \<equiv> cb_flags (ks_cgroups st cg)"
  obtains (refused) e where "r = Some e" "st' = st"
      "(rv \<noteq> 0 \<and> rv \<noteq> cb_revision (ks_cgroups st cg)) \<or> (prog \<noteq> None \<and> link \<noteq> None) \<or>
       find_detach_entry ps prog link (has_flag flags BPF_F_ALLOW_MULTI) = Inl e"
  | (removed) i where "r = None" "find_detach_entry ps prog link (has_flag flags BPF_F_ALLOW_MULTI) = Inr i"
      "\<And>c. cb_progs (ks_cgroups st' c) = (if c = cg then remove_at i ps else cb_progs (ks_cgroups st c))"
      "\<And>c. cb_flags (ks_cgroups st' c) =
         (if c = cg \<and> remove_at i ps = [] then 0 else cb_flags (ks_cgroups st c))"
      "ks_links st' = ks_links st" "ks_link_cgroup st' = ks_link_cgroup st" "ks_cgroup_refs st' = ks_cgroup_refs st"
proof (cases "(rv \<noteq> 0 \<and> rv \<noteq> cb_revision (ks_cgroups st cg)) \<or> (prog \<noteq> None \<and> link \<noteq> None)")
  case True
  then show thesis
    using assms(1) refused by (auto simp: cgroup_bpf_detach_def Let_def split: if_splits)
next
  case False
  let ?find = "find_detach_entry ps prog link (has_flag flags BPF_F_ALLOW_MULTI)"
  show thesis
  proof (cases ?find)
    case (Inl e)
    have "r = Some e \<and> st' = st"
      using assms(1) False Inl unfolding cgroup_bpf_detach_def Let_def ps_def flags_def by auto
    then show thesis using refused Inl by blast
  next
    case (Inr i)
    let ?pl = "ps ! i"
    let ?st1 = "set_progs cg (ps[i := ?pl\<lparr>pl_prog := None, pl_link := None\<rparr>]) st"
    let ?u = "update_effective_progs alloc cg ?st1"
    let ?st2 = "case ?u of (None, st) \<Rightarrow> st
      | (Some err, st) \<Rightarrow> purge_effective_progs da cg (pl_prog ?pl) link
          (set_progs cg (ps[i := ?pl\<lparr>pl_prog := pl_prog ?pl, pl_link := link\<rparr>]) st)"
    define st2 where "st2 = ?st2"
    have two: "(c \<noteq> cg \<longrightarrow> cb_progs (ks_cgroups st2 c) = cb_progs (ks_cgroups st c)) \<and>
        cb_flags (ks_cgroups st2 c) = cb_flags (ks_cgroups st c) \<and> ks_links st2 = ks_links st \<and>
        ks_link_cgroup st2 = ks_link_cgroup st \<and> ks_cgroup_refs st2 = ks_cgroup_refs st" for c
    proof -
      obtain u s where us: "?u = (u, s)" by fastforce
      have f: "list_frame ?st1 s" using update_frame [of ?st1 alloc cg] us by simp
      show ?thesis
      proof (cases u)
        case None
        then show ?thesis using f us by (auto simp: st2_def list_frame_def)
      next
        case (Some err)
        then have s2: "st2 = purge_effective_progs da cg (pl_prog ?pl) link
            (set_progs cg (ps[i := ?pl\<lparr>pl_prog := pl_prog ?pl, pl_link := link\<rparr>]) s)"
          using us by (simp add: st2_def)
        show ?thesis
          using f purge_frame [of "set_progs cg (ps[i := ?pl\<lparr>pl_prog := pl_prog ?pl, pl_link := link\<rparr>]) s" da cg "pl_prog ?pl" link]
          unfolding s2 list_frame_def by simp
      qed
    qed
    let ?st3 = "upd_cgroup cg (\<lambda>c. c\<lparr>cb_revision := cb_revision c + 1\<rparr>) (set_progs cg (remove_at i ps) st2)"
    let ?st4 = "if remove_at i ps = [] then upd_cgroup cg (\<lambda>c. c\<lparr>cb_flags := 0\<rparr>) ?st3 else ?st3"
    have "r = None" and st': "st' = ?st4\<lparr>ks_enabled := ks_enabled ?st4 - 1\<rparr>"
      using assms(1) False Inr unfolding cgroup_bpf_detach_def Let_def ps_def flags_def st2_def by auto
    then show thesis
      using removed [OF _ Inr] two by (simp add: upd_cgroup_def set_progs_def)
  qed
qed

lemma remove_at_split:
  assumes "i < length ps"
  obtains xs ys where "ps = xs @ (ps ! i) # ys" "remove_at i ps = xs @ ys"
  using assms that [of "take i ps" "drop (Suc i) ps"] by (simp add: remove_at_def id_take_nth_drop)

text \<open>Removing an entry, and forgetting the link when it was one.\<close>

lemma removed_lists_ok:
  assumes "lists_ok st" "i < length (cb_progs (ks_cgroups st cg))"
    and "\<And>c. cb_progs (ks_cgroups st' c) =
           (if c = cg then remove_at i (cb_progs (ks_cgroups st cg)) else cb_progs (ks_cgroups st c))"
    and "\<And>c. cb_flags (ks_cgroups st' c) =
           (if c = cg \<and> remove_at i (cb_progs (ks_cgroups st cg)) = [] then 0 else cb_flags (ks_cgroups st c))"
    and "ks_link_cgroup st' = (case pl_link (cb_progs (ks_cgroups st cg) ! i) of
           None \<Rightarrow> ks_link_cgroup st | Some l \<Rightarrow> (ks_link_cgroup st)(l := None))"
  shows "lists_ok st'" "set (link_ids (cb_progs (ks_cgroups st' c))) =
    set (link_ids (cb_progs (ks_cgroups st c))) -
      (if c = cg then set_option (pl_link (cb_progs (ks_cgroups st cg) ! i)) else {})"
proof -
  let ?ps = "cb_progs (ks_cgroups st cg)"
  obtain xs ys where x: "?ps = xs @ (?ps ! i) # ys" "remove_at i ?ps = xs @ ys"
    using remove_at_split [OF assms(2)] by blast
  have d: "distinct (link_ids ?ps)" "list_all (entry_ok st c) (cb_progs (ks_cgroups st c))" for c
    using assms(1) by (simp_all add: lists_ok_def)
  have ids: "link_ids ?ps = link_ids xs @ (case pl_link (?ps ! i) of None \<Rightarrow> [] | Some l \<Rightarrow> [l]) @ link_ids ys"
    by (subst x(1)) (simp split: option.split)
  have here: "distinct (link_ids xs @ link_ids ys)"
    "set (link_ids xs @ link_ids ys) = set (link_ids ?ps) - set_option (pl_link (?ps ! i))"
    using d(1) unfolding ids by (auto split: option.splits)
  have other: "entry_ok st' c pl"
    if "pl \<in> set (cb_progs (ks_cgroups st' c))" for c pl
  proof -
    have pl: "pl \<in> set (cb_progs (ks_cgroups st c))"
      using that assms(3) [of c] set_remove_at [of i ?ps] by (auto split: if_splits)
    have ok: "entry_ok st c pl" using d(2) [of c] pl by (simp add: list_all_iff)
    have ne: "pl_link (?ps ! i) \<noteq> Some l" if l: "pl_link pl = Some l" for l
    proof (cases "c = cg")
      case True
      then have "l \<in> set (link_ids xs @ link_ids ys)"
        using \<open>pl \<in> set (cb_progs (ks_cgroups st' c))\<close> assms(3) [of c] x(2) l link_ids_iff [of l "xs @ ys"] by auto
      then show ?thesis using here(2) by auto
    next
      case False
      have "ks_link_cgroup st l = Some c" using entry_okD(1) [OF ok l] by simp
      moreover have "entry_ok st cg (?ps ! i)" using d(2) [of cg] assms(2) by (simp add: list_all_length)
      ultimately show ?thesis using entry_okD(1) False by fastforce
    qed
    have fl: "cb_flags (ks_cgroups st' c) = cb_flags (ks_cgroups st c)"
      using that assms(3,4) [of c] by (auto split: if_splits)
    show ?thesis
      using ok ne assms(5) fl by (auto simp: entry_ok_def split: option.splits)
  qed
  show "lists_ok st'"
    unfolding lists_ok_def
  proof (intro allI conjI)
    fix c
    show "list_all (entry_ok st' c) (cb_progs (ks_cgroups st' c))" using other by (simp add: list_all_iff)
    show "distinct (link_ids (cb_progs (ks_cgroups st' c)))"
      using here(1) d assms(3) [of c] x(2) assms(1) by (auto simp: lists_ok_def)
  qed
  show "set (link_ids (cb_progs (ks_cgroups st' c))) = set (link_ids (cb_progs (ks_cgroups st c))) -
      (if c = cg then set_option (pl_link (?ps ! i)) else {})"
    using here(2) assms(3) [of c] x(2) by auto
qed

text \<open>A program is never removed in place of a link.\<close>

lemma detach_prog_entry:
  assumes "lists_ok st"
    and "find_detach_entry (cb_progs (ks_cgroups st cg)) prog None
           (has_flag (cb_flags (ks_cgroups st cg)) BPF_F_ALLOW_MULTI) = Inr i"
  shows "i < length (cb_progs (ks_cgroups st cg))" "pl_link (cb_progs (ks_cgroups st cg) ! i) = None"
proof -
  let ?ps = "cb_progs (ks_cgroups st cg)"
  show i: "i < length ?ps" using assms(2) by (rule find_detach_entry_bound)
  then have ok: "entry_ok st cg (?ps ! i)" using assms(1) by (simp add: lists_okD)
  show "pl_link (?ps ! i) = None"
  proof (cases "has_flag (cb_flags (ks_cgroups st cg)) BPF_F_ALLOW_MULTI")
    case True
    then show ?thesis
      using assms(2) by (auto simp: find_detach_entry_def dest: find_index_SomeD split: if_splits option.splits)
  next
    case False
    then show ?thesis using entry_okD(1) [OF ok] by (cases "pl_link (?ps ! i)") auto
  qed
qed

text \<open>A link that has a cgroup is found in its list.\<close>

lemma detach_link_entry:
  assumes "links_inv st" "ks_link_cgroup st l = Some cg"
  obtains i where "find_detach_entry (cb_progs (ks_cgroups st cg)) None (Some l)
      (has_flag (cb_flags (ks_cgroups st cg)) BPF_F_ALLOW_MULTI) = Inr i"
    "i < length (cb_progs (ks_cgroups st cg))" "pl_link (cb_progs (ks_cgroups st cg) ! i) = Some l"
    "has_flag (cb_flags (ks_cgroups st cg)) BPF_F_ALLOW_MULTI"
proof -
  let ?ps = "cb_progs (ks_cgroups st cg)" and ?p = "\<lambda>pl. pl_prog pl = None \<and> pl_link pl = Some l"
  obtain pl where pl: "pl \<in> set ?ps" "pl_link pl = Some l"
    using assms by (auto simp: links_inv_def link_ids_iff)
  then have ok: "pl_prog pl = None" "has_flag (cb_flags (ks_cgroups st cg)) BPF_F_ALLOW_MULTI"
    using assms(1) entry_okD(1) [OF lists_okD [of st pl cg], of l] by (simp_all add: links_inv_def)
  have "find_index ?p xs \<noteq> None" if "pl \<in> set xs" for xs
    using that pl(2) ok(1) by (induction xs) auto
  then obtain i where i: "find_index ?p ?ps = Some i" using pl(1) by blast
  then show thesis using that [of i] ok(2) find_index_SomeD [OF i] by (simp add: find_detach_entry_def)
qed

end
