(* ===== verification/Link_Calls.thy ===== *)
theory Link_Calls
  imports Link_Inv
begin

text \<open>
  Each system call keeps the links in order and accounts for the cgroup references they hold.
\<close>

subsection \<open>The system calls keep the links in order\<close>

text \<open>References to a cgroup besides those its links hold.\<close>

definition link_count :: "(u64 \<Rightarrow> u64 option) \<Rightarrow> u64 \<Rightarrow> int" where
  "link_count f c = int (card {l. f l = Some c})"

definition unlinked_refs :: "kstate \<Rightarrow> u64 \<Rightarrow> int" where
  "unlinked_refs st c = ks_cgroup_refs st c - link_count (ks_link_cgroup st) c"

lemma link_count_unset:
  assumes "f l = Some cg"
  shows "link_count (f(l := None)) c = link_count f c - of_bool (c = cg)"
proof -
  have "{x. (f(l := None)) x = Some c} = {x. f x = Some c} - (if c = cg then {l} else {})"
    using assms by (auto split: if_splits)
  moreover have "card {x. f x = Some cg} > 0" "l \<in> {x. f x = Some cg}"
    using assms by (auto simp: card_gt_0_iff)
  ultimately show ?thesis by (auto simp: link_count_def of_nat_diff)
qed

lemma link_count_set:
  assumes "f l = None"
  shows "link_count (f(l := Some cg)) c = link_count f c + of_bool (c = cg)"
  using link_count_unset [of "f(l := Some cg)" l cg c] assms by (simp add: fun_upd_idem)

lemma unlinked_refs_cong:
  assumes "ks_link_cgroup st' = ks_link_cgroup st" "ks_cgroup_refs st' = ks_cgroup_refs st"
  shows "unlinked_refs st' = unlinked_refs st"
  using assms by (simp add: unlinked_refs_def [abs_def])

lemma unlinked_refs_get_put:
  assumes "ks_link_cgroup st' = ks_link_cgroup st" "ks_cgroup_refs st' = ks_cgroup_refs (cgroup_get cg st)"
  shows "unlinked_refs (cgroup_put cg st') = unlinked_refs st"
  using assms by (auto simp: unlinked_refs_def cgroup_ref_defs)

lemma links_invI:
  assumes "lists_ok st" "\<And>l c. ks_link_cgroup st l = Some c \<Longrightarrow> l \<in> set (link_ids (cb_progs (ks_cgroups st c)))"
  shows "links_inv st"
  using assms by (simp add: links_inv_def)

lemma prog_attach_links:
  assumes "links_inv st"
  shows "links_inv (snd (cgroup_bpf_prog_attach env attr prog st))"
    and "unlinked_refs (snd (cgroup_bpf_prog_attach env attr prog st)) = unlinked_refs st"
proof -
  have core: "links_inv (cgroup_put cg st') \<and> unlinked_refs (cgroup_put cg st') = unlinked_refs st"
    if "cgroup_bpf_attach aenv cg \<lparr>at_prog = Some prog, at_link = None, at_replace_prog = rp, at_flags = f,
          at_id_or_fd = i, at_revision = rv\<rparr> (cgroup_get cg st) = (r, st')" for aenv cg rp f i rv r st'
  proof -
    let ?a = "\<lparr>at_prog = Some prog, at_link = None, at_replace_prog = rp, at_flags = f, at_id_or_fd = i, at_revision = rv\<rparr>"
    have e: "lists_extended (cgroup_get cg st) cg ?a r st'"
      by (rule attach_lists_extended [OF _ _ _ that])
         (use assms in \<open>simp_all add: links_inv_def attach_args_ok_def\<close>)
    have "links_inv st'"
      using e assms by (intro links_invI) (auto simp: lists_extended_def links_inv_def cgroup_get_def)
    moreover have "unlinked_refs (cgroup_put cg st') = unlinked_refs st"
      using e by (intro unlinked_refs_get_put) (simp_all add: lists_extended_def cgroup_get_def)
    ultimately show ?thesis by simp
  qed
  have same: "unlinked_refs (cgroup_put cg (cgroup_get cg st)) = unlinked_refs st" for cg
    by (intro unlinked_refs_get_put) (simp_all add: cgroup_get_def)
  show "links_inv (snd (cgroup_bpf_prog_attach env attr prog st))"
    using assms core
    by (auto simp: cgroup_bpf_prog_attach_def Let_def split: sum.split prod.split)
  show "unlinked_refs (snd (cgroup_bpf_prog_attach env attr prog st)) = unlinked_refs st"
    using core same
    by (auto simp: cgroup_bpf_prog_attach_def Let_def split: sum.split prod.split)
qed

lemma prog_detach_links:
  assumes "links_inv st"
  shows "links_inv (snd (cgroup_bpf_prog_detach env attr st))"
    and "unlinked_refs (snd (cgroup_bpf_prog_detach env attr st)) = unlinked_refs st"
proof -
  have core: "links_inv (cgroup_put cg st') \<and> unlinked_refs (cgroup_put cg st') = unlinked_refs st"
    if "cgroup_bpf_detach da alloc cg prog None rv (cgroup_get cg st) = (r, st')" for da alloc cg prog rv r st'
  proof (cases rule: detach_lists_cases [OF that])
    case (1 e)
    moreover have "unlinked_refs (cgroup_put cg (cgroup_get cg st)) = unlinked_refs st"
      by (intro unlinked_refs_get_put) (simp_all add: cgroup_get_def)
    ultimately show ?thesis using assms by simp
  next
    case (2 i)
    have ok: "lists_ok (cgroup_get cg st)" using assms by (simp add: links_inv_def)
    note e = detach_prog_entry [OF ok 2(2)]
    note l = removed_lists_ok [OF ok e(1) 2(3,4), unfolded e(2), simplified, OF 2(6)]
    have "links_inv st'"
      using l assms 2(6) by (intro links_invI) (auto simp: links_inv_def cgroup_get_def split: if_splits)
    moreover have "unlinked_refs (cgroup_put cg st') = unlinked_refs st"
      using 2(6,7) by (intro unlinked_refs_get_put) (simp_all add: cgroup_get_def)
    ultimately show ?thesis by simp
  qed
  show "links_inv (snd (cgroup_bpf_prog_detach env attr st))"
    using assms core by (auto simp: cgroup_bpf_prog_detach_def Let_def split: sum.split prod.split)
  show "unlinked_refs (snd (cgroup_bpf_prog_detach env attr st)) = unlinked_refs st"
    using core by (auto simp: cgroup_bpf_prog_detach_def Let_def split: sum.split prod.split)
qed

text \<open>Releasing a link never warns, and gives back its reference.\<close>

lemma link_release_links:
  assumes "links_inv st" "bpf_cgroup_link_release env l st = (w, st')"
  shows "\<not> w" "links_inv st'" "unlinked_refs st' = unlinked_refs st" "ks_link_cgroup st' l = None"
proof -
  have "\<not> w \<and> links_inv st' \<and> unlinked_refs st' = unlinked_refs st \<and> ks_link_cgroup st' l = None"
  proof (cases "ks_link_cgroup st l")
    case None
    then show ?thesis using assms by (auto simp: bpf_cgroup_link_release_def)
  next
    case (Some cg)
    obtain r s where d: "cgroup_bpf_detach (se_delete_at env) (se_alloc env) cg None (Some l) 0 st = (r, s)"
      by fastforce
    let ?s = "s\<lparr>ks_link_cgroup := (ks_link_cgroup s)(l := None)\<rparr>"
    have rel: "w = (r \<noteq> None)" "st' = cgroup_put cg ?s"
      using assms(2) Some d by (simp_all add: bpf_cgroup_link_release_def)
    obtain i where i: "find_detach_entry (cb_progs (ks_cgroups st cg)) None (Some l)
        (has_flag (cb_flags (ks_cgroups st cg)) BPF_F_ALLOW_MULTI) = Inr i"
      "i < length (cb_progs (ks_cgroups st cg))" "pl_link (cb_progs (ks_cgroups st cg) ! i) = Some l"
      using detach_link_entry [OF assms(1) Some] by blast
    show ?thesis
    proof (cases rule: detach_lists_cases [OF d])
      case (1 e)
      then show ?thesis using i(1) by simp
    next
      case (2 j)
      then have j: "j = i" using i(1) by simp
      note rm = 2(3,4,6) [unfolded j]
      have ok: "lists_ok st" using assms(1) by (simp add: links_inv_def)
      have l: "lists_ok ?s" "\<And>c. set (link_ids (cb_progs (ks_cgroups ?s c))) =
          set (link_ids (cb_progs (ks_cgroups st c))) - (if c = cg then {l} else {})"
        using removed_lists_ok [OF ok i(2), of ?s] rm i(3) by simp_all
      have "links_inv ?s"
      proof (rule links_invI [OF l(1)])
        fix x c assume x: "ks_link_cgroup ?s x = Some c"
        then have "x \<noteq> l" "ks_link_cgroup st x = Some c" using 2(6) by (auto split: if_splits)
        then show "x \<in> set (link_ids (cb_progs (ks_cgroups ?s c)))"
          using assms(1) l(2) [of c] by (auto simp: links_inv_def)
      qed
      moreover have "unlinked_refs st' = unlinked_refs st"
        using link_count_unset [of "ks_link_cgroup st" l cg, OF Some] 2(6,7)
        by (intro ext) (simp add: rel(2) unlinked_refs_def cgroup_put_def)
      ultimately show ?thesis using 2(1) by (simp add: rel) (simp add: cgroup_put_def)
    qed
  qed
  then show "\<not> w" "links_inv st'" "unlinked_refs st' = unlinked_refs st" "ks_link_cgroup st' l = None" by blast+
qed


text \<open>
  A new link is either in the list of its cgroup and holds a reference, or nothing is left
  of it.
\<close>

lemma lists_ok_fresh:
  assumes "links_inv st" "ks_link_cgroup st l = None"
  shows "lists_ok (st\<lparr>ks_links := (ks_links st)(l := p), ks_link_cgroup := (ks_link_cgroup st)(l := Some cg)\<rparr>)"
    and "l \<notin> set (link_ids (cb_progs (ks_cgroups st c)))"
proof -
  have ok: "entry_ok st c pl" if "pl \<in> set (cb_progs (ks_cgroups st c))" for c pl
    using assms(1) that by (auto simp: links_inv_def intro: lists_okD)
  show notin: "l \<notin> set (link_ids (cb_progs (ks_cgroups st c)))" for c
    using entry_okD(1) [OF ok] assms(2) by (fastforce simp: link_ids_iff)
  let ?s = "st\<lparr>ks_links := (ks_links st)(l := p), ks_link_cgroup := (ks_link_cgroup st)(l := Some cg)\<rparr>"
  have "entry_ok ?s c pl" if pl: "pl \<in> set (cb_progs (ks_cgroups st c))" for c pl
    using ok [OF pl] notin [of c] pl
    by (auto simp: entry_ok_def link_ids_iff split: option.splits)
  then show "lists_ok ?s" using assms(1) by (simp add: lists_ok_def links_inv_def list_all_iff)
qed

lemma lists_ok_forget:
  assumes "lists_ok st" "\<And>c. l \<notin> set (link_ids (cb_progs (ks_cgroups st c)))"
  shows "lists_ok (st\<lparr>ks_link_cgroup := (ks_link_cgroup st)(l := None)\<rparr>)"
proof -
  have "entry_ok (st\<lparr>ks_link_cgroup := (ks_link_cgroup st)(l := None)\<rparr>) c pl"
    if pl: "pl \<in> set (cb_progs (ks_cgroups st c))" for c pl
    using lists_okD [OF assms(1) pl] assms(2) [of c] pl
    by (auto simp: entry_ok_def link_ids_iff split: option.splits)
  then show ?thesis using assms(1) by (simp add: lists_ok_def list_all_iff)
qed

text \<open>What is left of a link whose creation fails after its allocation: only its program.\<close>

lemma link_freed:
  assumes "links_inv st" "ks_link_cgroup st l = None" "lists_ok s"
    and "\<And>c. set (link_ids (cb_progs (ks_cgroups s c))) = set (link_ids (cb_progs (ks_cgroups st c)))"
    and "ks_link_cgroup s = (ks_link_cgroup st)(l := Some cg)" "ks_cgroup_refs s = ks_cgroup_refs (cgroup_get cg st)"
  defines "s' \<equiv> cgroup_put cg (s\<lparr>ks_link_cgroup := (ks_link_cgroup s)(l := None)\<rparr>)"
  shows "links_inv s' \<and> unlinked_refs s' = unlinked_refs st \<and> ks_link_cgroup s' = (ks_link_cgroup st)(l := None)"
proof -
  let ?s = "s\<lparr>ks_link_cgroup := (ks_link_cgroup s)(l := None)\<rparr>"
  have lc: "ks_link_cgroup ?s = ks_link_cgroup st" using assms(2,5) by (simp add: fun_upd_idem)
  have "links_inv ?s"
  proof (rule links_invI)
    show "lists_ok ?s" using lists_ok_forget [OF assms(3)] lists_ok_fresh(2) [OF assms(1,2)] assms(4) by blast
    show "x \<in> set (link_ids (cb_progs (ks_cgroups ?s c)))" if "ks_link_cgroup ?s x = Some c" for x c
      using that assms(1,4) unfolding lc by (simp add: links_inv_def)
  qed
  moreover have "unlinked_refs s' = unlinked_refs st"
    unfolding s'_def by (rule unlinked_refs_get_put [OF lc]) (simp add: assms(6))
  moreover have "ks_link_cgroup s' = ks_link_cgroup st" using lc by (simp add: s'_def cgroup_put_def)
  ultimately show ?thesis using assms(2) by (simp add: s'_def fun_upd_idem)
qed

text \<open>The paths through \<open>cgroup_bpf_link_attach\<close>.\<close>

lemma link_attach_cases:
  assumes "cgroup_bpf_link_attach env attr prog l st = (r, st')"
  defines "linked \<equiv> \<lambda>cg st. st\<lparr>ks_links := (ks_links st)(l := prog), ks_link_cgroup := (ks_link_cgroup st)(l := Some cg)\<rparr>"
    and "free \<equiv> \<lambda>st. st\<lparr>ks_link_cgroup := (ks_link_cgroup st)(l := None)\<rparr>"
    and "a \<equiv> \<lparr> at_prog = None, at_link = Some l, at_replace_prog = None,
      at_flags = BPF_F_ALLOW_MULTI OR lk_flags attr, at_id_or_fd = lk_relative_fd attr,
      at_revision = lk_expected_revision attr \<rparr>"
  obtains (refused) e where "r = Some e" "st' = st"
  | (alloc) e cg where "r = Some e" "st' = cgroup_put cg (cgroup_get cg st)"
  | (prime) e cg where "r = Some e" "st' = cgroup_put cg (free (linked cg (cgroup_get cg st)))"
  | (failed) e cg s where "r = Some e" "cgroup_bpf_attach (se_attach env) cg a (linked cg (cgroup_get cg st)) = (Some e, s)"
      "st' = cgroup_put cg (free s)"
  | (settled) cg where "r = None" "se_cgroup_fd env (lk_target_fd attr) = Inr cg"
      "cgroup_bpf_attach (se_attach env) cg a (linked cg (cgroup_get cg st)) = (None, st')"
proof (cases "lk_flags attr AND NOT BPF_F_LINK_ATTACH_MASK \<noteq> 0")
  case True
  then show thesis using assms(1) refused by (auto simp: cgroup_bpf_link_attach_def)
next
  case False
  show thesis
  proof (cases "se_cgroup_fd env (lk_target_fd attr)")
    case (Inl e)
    then show thesis using False assms(1) refused by (auto simp: cgroup_bpf_link_attach_def)
  next
    case (Inr cg)
    let ?res = "cgroup_bpf_attach (se_attach env) cg a (linked cg (cgroup_get cg st))"
    have call: "(r, st') =
      (if \<not> se_link_alloc env then (Some ENOMEM, cgroup_put cg (cgroup_get cg st))
       else case se_prime env of
              Some e \<Rightarrow> (Some e, cgroup_put cg (free (linked cg (cgroup_get cg st))))
            | None \<Rightarrow> (case ?res of (Some e, s) \<Rightarrow> (Some e, cgroup_put cg (free s)) | (None, s) \<Rightarrow> (None, s)))"
      unfolding assms(1) [symmetric] cgroup_bpf_link_attach_def Let_def linked_def free_def a_def
      using False Inr by simp
    obtain q s where q: "?res = (q, s)" by fastforce
    consider "\<not> se_link_alloc env" | e where "se_link_alloc env" "se_prime env = Some e"
      | e where "se_link_alloc env" "se_prime env = None" "q = Some e"
      | "se_link_alloc env" "se_prime env = None" "q = None"
      by (cases "se_prime env"; cases q) auto
    then show thesis
    proof cases
      case 1
      then show thesis using call alloc [of ENOMEM cg] by (simp only: not_False_eq_True if_True prod.inject simp_thms)
    next
      case (2 e)
      then have "r = Some e \<and> st' = cgroup_put cg (free (linked cg (cgroup_get cg st)))" using call by simp
      then show thesis using prime by blast
    next
      case (3 e)
      then have "r = Some e \<and> st' = cgroup_put cg (free s)" using call q by simp
      then show thesis using failed q 3 by blast
    next
      case 4
      then have "r = None \<and> st' = s" using call q by simp
      then show thesis using settled Inr q 4 by blast
    qed
  qed
qed

text \<open>The state in which attach is called.\<close>

lemma lists_ok_linked:
  fixes cg prog :: u64
  assumes "links_inv st" "ks_link_cgroup st l = None"
  defines "s0 \<equiv> (cgroup_get cg st)\<lparr>ks_links := (ks_links (cgroup_get cg st))(l := prog),
      ks_link_cgroup := (ks_link_cgroup (cgroup_get cg st))(l := Some cg)\<rparr>"
  shows "lists_ok s0" "ks_link_cgroup s0 = (ks_link_cgroup st)(l := Some cg)"
    "cb_progs (ks_cgroups s0 c) = cb_progs (ks_cgroups st c)" "ks_cgroup_refs s0 = ks_cgroup_refs (cgroup_get cg st)"
proof -
  have s0: "cb_progs (ks_cgroups s0 c) = cb_progs (ks_cgroups st c)"
    "cb_flags (ks_cgroups s0 c) = cb_flags (ks_cgroups st c)"
    "ks_link_cgroup s0 = (ks_link_cgroup st)(l := Some cg)" for c
    by (simp_all add: s0_def cgroup_get_def)
  then show "ks_link_cgroup s0 = (ks_link_cgroup st)(l := Some cg)"
    "cb_progs (ks_cgroups s0 c) = cb_progs (ks_cgroups st c)" by simp_all
  show "ks_cgroup_refs s0 = ks_cgroup_refs (cgroup_get cg st)" by (simp add: s0_def)
  show "lists_ok s0"
    using lists_ok_fresh(1) [OF assms(1,2), of cg prog]
    by (rule links_inv_cong(1) [THEN iffD2, rotated 3]) (simp_all add: s0)
qed

lemma link_attach_extended:
  assumes "links_inv st" "ks_link_cgroup st l = None"
    and "cgroup_bpf_attach aenv cg \<lparr> at_prog = None, at_link = Some l, at_replace_prog = None,
      at_flags = BPF_F_ALLOW_MULTI OR fl, at_id_or_fd = fd, at_revision = rv \<rparr>
      ((cgroup_get cg st)\<lparr>ks_links := (ks_links (cgroup_get cg st))(l := prog),
         ks_link_cgroup := (ks_link_cgroup (cgroup_get cg st))(l := Some cg)\<rparr>) = (r, s)"
    (is "cgroup_bpf_attach aenv cg ?a ?s0 = _")
  shows "lists_ok s" "ks_link_cgroup s = (ks_link_cgroup st)(l := Some cg)"
    "ks_cgroup_refs s = ks_cgroup_refs (cgroup_get cg st)"
    "set (link_ids (cb_progs (ks_cgroups s c))) =
       set (link_ids (cb_progs (ks_cgroups st c))) \<union> (if c = cg \<and> r = None then {l} else {})"
proof -
  note s0 = lists_ok_linked [OF assms(1,2), of cg prog]
  have multi: "has_flag (BPF_F_ALLOW_MULTI OR fl) BPF_F_ALLOW_MULTI"
  proof -
    have "(BPF_F_ALLOW_MULTI OR fl) AND BPF_F_ALLOW_MULTI = BPF_F_ALLOW_MULTI"
      by (rule bit_word_eqI) (auto simp: bit_simps)
    then show ?thesis by (simp add: has_flag_def) (simp add: BPF_F_ALLOW_MULTI_def)
  qed
  have "lists_extended ?s0 cg ?a r s"
    by (rule attach_lists_extended [OF s0(1) _ _ assms(3)])
       (use lists_ok_fresh(2) [OF assms(1,2), of cg] multi in \<open>simp_all add: attach_args_ok_def cgroup_get_def\<close>)
  then show "lists_ok s" "ks_link_cgroup s = (ks_link_cgroup st)(l := Some cg)"
    "ks_cgroup_refs s = ks_cgroup_refs (cgroup_get cg st)"
    "set (link_ids (cb_progs (ks_cgroups s c))) =
       set (link_ids (cb_progs (ks_cgroups st c))) \<union> (if c = cg \<and> r = None then {l} else {})"
    unfolding lists_extended_def s0(2-4) by simp_all
qed

lemma link_attach_links:
  assumes "links_inv st" "ks_link_cgroup st l = None"
    and "cgroup_bpf_link_attach env attr prog l st = (r, st')"
  shows "links_inv st' \<and> unlinked_refs st' = unlinked_refs st \<and>
    ks_link_cgroup st' = (ks_link_cgroup st)(l :=
      if r = None then (case se_cgroup_fd env (lk_target_fd attr) of Inl e \<Rightarrow> None | Inr cg \<Rightarrow> Some cg) else None)"
proof (cases rule: link_attach_cases [OF assms(3)])
  case (1 e)
  then show ?thesis using assms(1,2) by (simp add: fun_upd_idem)
next
  case (2 e cg)
  have "unlinked_refs st' = unlinked_refs st" unfolding 2 by (intro unlinked_refs_get_put) (simp_all add: cgroup_get_def)
  moreover have "ks_link_cgroup st' = ks_link_cgroup st" by (simp add: 2 cgroup_ref_defs)
  ultimately show ?thesis using assms(1,2) 2 by (simp add: fun_upd_idem)
next
  case (3 e cg)
  note s = lists_ok_linked [OF assms(1,2), of cg prog]
  show ?thesis
    unfolding 3
    by (simp only: option.distinct if_False) (rule link_freed [OF assms(1,2) s(1) _ s(2,4)], simp add: cgroup_get_def)
next
  case (4 e cg s)
  note s = link_attach_extended [OF assms(1,2) 4(2)]
  show ?thesis
    unfolding 4(1,3)
    by (simp only: option.distinct if_False) (rule link_freed [OF assms(1,2) s(1) _ s(2,3)], simp add: s(4))
next
  case (5 cg)
  note s = link_attach_extended [OF assms(1,2) 5(3)]
  have "links_inv st'"
    by (rule links_invI [OF s(1)]) (use assms(1) s(2,4) in \<open>auto simp: links_inv_def split: if_splits\<close>)
  moreover have "unlinked_refs st' = unlinked_refs st"
    by (rule ext) (simp add: unlinked_refs_def s(2,3) link_count_set [of "ks_link_cgroup st" l, OF assms(2)] cgroup_get_def)
  ultimately show ?thesis using 5(1,2) s(2) by simp
qed

subsection \<open>Updating a link\<close>

text \<open>
  The walk for the position of a link finds it: the cgroup of the link allows several
  entries, so its level is never skipped, and a link always has a program.
\<close>

lemma level_pos_found:
  assumes "\<exists>pl\<in>set pls. match pl \<and> prog_list_prog links pl \<noteq> None"
  shows "isl (level_pos links match pls pos)"
  using assms by (induction pls arbitrary: pos) auto

lemma effective_pos_found:
  assumes "cg \<in> set cgs" "has_flag (cb_flags (ks_cgroups st cg)) BPF_F_ALLOW_MULTI"
    and "\<exists>pl\<in>set (cb_progs (ks_cgroups st cg)). match pl \<and> prog_list_prog (ks_links st) pl \<noteq> None"
  shows "effective_pos st match cgs pos \<noteq> None"
  using assms(1)
proof (induction cgs arbitrary: pos)
  case (Cons c cgs)
  have "isl (level_pos (ks_links st) match (cb_progs (ks_cgroups st cg)) pos)"
    using level_pos_found [OF assms(3)] .
  with Cons assms(2) show ?case by (cases "c = cg") (auto split: sum.split)
qed simp

text \<open>What a rewrite of the effective arrays leaves alone.\<close>

definition chains_frame :: "kstate \<Rightarrow> kstate \<Rightarrow> bool" where
  "chains_frame st st' \<longleftrightarrow> list_frame st st' \<and> (\<forall>d. cgroup_chain d st' = cgroup_chain d st)"

lemma set_effective_chains: "chains_frame st s \<Longrightarrow> chains_frame st (set_effective_at d pos p s)"
  by (auto simp: chains_frame_def list_frame_def set_effective_at_def upd_cgroup_def cgroup_chain_def)

lemma replace_effective_total:
  assumes "has_flag (cb_flags (ks_cgroups st cg)) BPF_F_ALLOW_MULTI"
    and "\<exists>pl\<in>set (cb_progs (ks_cgroups st cg)). pl_link pl = Some l \<and> pl_prog pl = None"
  obtains st' where "replace_effective_prog cg l st = Some st'" "chains_frame st st'"
proof -
  let ?match = "\<lambda>pl. pl_link pl = Some l"
  let ?step = "\<lambda>d r. case r of None \<Rightarrow> None
    | Some s \<Rightarrow> (case effective_pos s ?match (cgroup_chain d s) 0 of
                   None \<Rightarrow> None | Some pos \<Rightarrow> Some (set_effective_at d pos (ks_links s l) s))"
  have "\<exists>s'. fold ?step ds (Some s) = Some s' \<and> chains_frame st s'"
    if "\<forall>d\<in>set ds. cg \<in> set (cgroup_chain d st)" "chains_frame st s" for ds s
    using that
  proof (induction ds arbitrary: s)
    case (Cons d ds)
    have s: "cgroup_chain d s = cgroup_chain d st" "ks_links s = ks_links st"
      "cb_progs (ks_cgroups s cg) = cb_progs (ks_cgroups st cg)" "cb_flags (ks_cgroups s cg) = cb_flags (ks_cgroups st cg)"
      using Cons.prems(2) by (auto simp: chains_frame_def list_frame_def)
    have "effective_pos s ?match (cgroup_chain d s) 0 \<noteq> None"
      by (rule effective_pos_found [of cg]) (use assms Cons.prems(1) in \<open>auto simp: s prog_list_prog_def\<close>)
    then obtain pos where "effective_pos s ?match (cgroup_chain d s) 0 = Some pos" by blast
    then show ?case using Cons.IH [of "set_effective_at d pos (ks_links s l) s"] Cons.prems set_effective_chains by simp
  qed simp
  from this [of "live_descendants cg st" st] that show thesis
    by (auto simp: replace_effective_prog_def chains_frame_def live_descendants_iff)
qed

lemma link_update_links:
  assumes "links_inv st"
  obtains r st' where "cgroup_bpf_link_update ok l new old st = Some (r, st')"
    "links_inv st'" "unlinked_refs st' = unlinked_refs st" "ks_link_cgroup st' = ks_link_cgroup st"
    "ks_links st' = (if r = None then (ks_links st)(l := new) else ks_links st)"
    "r = (case ks_link_cgroup st l of None \<Rightarrow> Some ENOLINK
          | Some cg \<Rightarrow> if old \<noteq> None \<and> old \<noteq> Some (ks_links st l) then Some EPERM
                      else if ok then None else Some EINVAL)"
proof (cases "ks_link_cgroup st l")
  case None
  then show thesis using that assms by (simp add: cgroup_bpf_link_update_def)
next
  case (Some cg)
  show thesis
  proof (cases "(old \<noteq> None \<and> old \<noteq> Some (ks_links st l)) \<or> \<not> ok")
    case True
    let ?e = "if old \<noteq> None \<and> old \<noteq> Some (ks_links st l) then EPERM else EINVAL"
    have "cgroup_bpf_link_update ok l new old st = Some (Some ?e, st)"
      using True Some by (auto simp: cgroup_bpf_link_update_def cgroup_bpf_replace_def)
    then show thesis by (rule that) (use assms True Some in auto)
  next
    case False
    obtain pl where pl: "pl \<in> set (cb_progs (ks_cgroups st cg))" "pl_link pl = Some l"
      using assms Some by (auto simp: links_inv_def link_ids_iff)
    note e = entry_okD(1) [OF lists_okD [of st pl cg] pl(2)]
    let ?s = "(upd_cgroup cg (\<lambda>c. c\<lparr>cb_revision := cb_revision c + 1\<rparr>) st)\<lparr>ks_links := (ks_links st)(l := new)\<rparr>"
    have s: "cb_progs (ks_cgroups ?s c) = cb_progs (ks_cgroups st c)" "cb_flags (ks_cgroups ?s c) = cb_flags (ks_cgroups st c)"
      for c by (simp_all add: upd_cgroup_def)
    obtain st' where st': "replace_effective_prog cg l ?s = Some st'" "chains_frame ?s st'"
      by (rule replace_effective_total [of ?s cg l]) (use assms e pl in \<open>auto simp: upd_cgroup_def links_inv_def\<close>)
    have "cgroup_bpf_link_update ok l new old st = Some (None, st')"
      using False Some pl st'(1) by (auto simp: cgroup_bpf_link_update_def cgroup_bpf_replace_def Let_def list_ex_iff upd_cgroup_def)
    moreover have "links_inv st'"
      using lists_ok_frame(2) [of ?s st'] st'(2) links_inv_cong(2) [of ?s st] assms s
      by (simp add: chains_frame_def upd_cgroup_def)
    ultimately show thesis
      using that [of None st'] st'(2) False Some
      by (auto simp: chains_frame_def list_frame_def upd_cgroup_def unlinked_refs_def fun_eq_iff)
  qed
qed

end
