(* ===== verification/Link_Reach.thy ===== *)
theory Link_Reach
  imports Link_Calls Reach
begin

text \<open>
  The life of a cgroup with links, the step relation of the system calls with its invariant,
  and what queries return.
\<close>

subsection \<open>Death of a cgroup\<close>

lemma auto_detach_links:
  assumes "ks_link_cgroup st l = Some cg"
  defines "st' \<equiv> bpf_cgroup_link_auto_detach l st"
  shows "ks_link_cgroup st' = (ks_link_cgroup st)(l := None)" "unlinked_refs st' = unlinked_refs st"
proof -
  show lc: "ks_link_cgroup st' = (ks_link_cgroup st)(l := None)"
    using assms(1) by (simp add: st'_def bpf_cgroup_link_auto_detach_def cgroup_put_def)
  have "ks_cgroup_refs st' c = ks_cgroup_refs st c - of_bool (c = cg)" for c
    using assms(1) by (simp add: st'_def bpf_cgroup_link_auto_detach_def cgroup_put_def)
  then show "unlinked_refs st' = unlinked_refs st"
    by (intro ext) (simp add: unlinked_refs_def lc link_count_unset [of "ks_link_cgroup st" l cg, OF assms(1)])
qed

lemma release_entries_links:
  assumes "distinct (link_ids ps)" "\<forall>l\<in>set (link_ids ps). ks_link_cgroup st l = Some cg"
  shows "ks_link_cgroup (release_entries ps st) =
           (\<lambda>l. if l \<in> set (link_ids ps) then None else ks_link_cgroup st l) \<and>
         unlinked_refs (release_entries ps st) = unlinked_refs st"
  using assms
proof (induction ps arbitrary: st)
  case Nil
  then show ?case by (simp add: release_entries_def)
next
  case (Cons pl ps)
  let ?s = "case pl_link pl of Some l \<Rightarrow> bpf_cgroup_link_auto_detach l st | None \<Rightarrow> st"
  have rel: "release_entries (pl # ps) st = release_entries ps ?s" by (simp add: release_entries_def)
  have s: "ks_link_cgroup ?s = (\<lambda>l. if pl_link pl = Some l then None else ks_link_cgroup st l)"
    "unlinked_refs ?s = unlinked_refs st"
    using Cons.prems(2) auto_detach_links [of st _ cg] by (cases "pl_link pl"; auto simp: fun_eq_iff)+
  have "\<forall>l\<in>set (link_ids ps). ks_link_cgroup ?s l = Some cg"
    unfolding s(1) using Cons.prems by (auto split: option.splits)
  moreover have "distinct (link_ids ps)" using Cons.prems(1) by (auto split: option.splits)
  ultimately show ?case
    unfolding rel using Cons.IH [of ?s] unfolding s by (auto simp: fun_eq_iff split: option.splits)
qed

lemma replace_locked_link_cgroup:
  "ks_link_cgroup (snd (namei_ext_scope_replace_locked hb cg new st)) = ks_link_cgroup st"
  by (simp add: namei_ext_scope_replace_locked_def Let_def upd_cgroup_def
      namei_ext_scope_index_add_locked_def namei_ext_scope_index_del_locked_def
      namei_ext_global_scope_get_locked_def namei_ext_global_scope_put_locked_def split: option.split)

lemma cgroup_release_frame: "list_frame st (namei_ext_cgroup_release hb cg st)"
  by (simp add: list_frame_def namei_ext_cgroup_release_def Let_def split_beta replace_locked_fields
      replace_locked_link_cgroup clear_targets_eq path_put_list_eq refs_eq upd_cgroup_def
      namei_ext_finish_scope_replace_def namei_ext_free_scopes_def split: option.split)

lemma bpf_put_all_frame: "list_frame st (fold cgroup_bpf_put cs st)"
  by (rule fold_inv [of "list_frame st"]) (auto simp: list_frame_def cgroup_bpf_put_def)

lemma release_links:
  assumes "links_inv st"
  shows "links_inv (cgroup_bpf_release hb cg st)"
    and "unlinked_refs (cgroup_bpf_release hb cg st) c = unlinked_refs st c - of_bool (c = cg)"
    and "ks_link_cgroup (cgroup_bpf_release hb cg st) l \<noteq> Some cg"
proof -
  let ?ps = "cb_progs (ks_cgroups st cg)" and ?st' = "cgroup_bpf_release hb cg st"
  let ?r = "release_entries ?ps st"
  let ?s = "upd_cgroup cg (\<lambda>c. c\<lparr>cb_effective := []\<rparr>)
    (set_progs cg [] (?r\<lparr>ks_enabled := ks_enabled ?r - int (length ?ps)\<rparr>))"
  have ok: "list_all (entry_ok st c) (cb_progs (ks_cgroups st c))" "distinct (link_ids ?ps)" for c
    using assms by (auto simp: links_inv_def lists_ok_def)
  have listed: "l \<in> set (link_ids (cb_progs (ks_cgroups st c)))" if "ks_link_cgroup st l = Some c" for l c
    using assms that by (auto simp: links_inv_def)
  have mine: "ks_link_cgroup st l = Some c" if "l \<in> set (link_ids (cb_progs (ks_cgroups st c)))" for l c
    using that ok(1) [of c] entry_okD(1) by (fastforce simp: link_ids_iff list_all_iff)
  have r: "ks_link_cgroup ?r = (\<lambda>l. if l \<in> set (link_ids ?ps) then None else ks_link_cgroup st l)"
    "unlinked_refs ?r = unlinked_refs st"
    using release_entries_links [OF ok(2)] mine by blast+
  obtain refs lc where req: "?r = st\<lparr>ks_cgroup_refs := refs, ks_link_cgroup := lc\<rparr>"
    using release_entries_eq by blast
  let ?t = "fold cgroup_bpf_put (cb_ancestors (ks_cgroups (namei_ext_cgroup_release hb cg ?s) cg))
    (namei_ext_cgroup_release hb cg ?s)"
  have "list_frame ?s ?t" by (rule list_frame_trans [OF cgroup_release_frame bpf_put_all_frame])
  then have t: "cb_progs (ks_cgroups ?t c) = (if c = cg then [] else cb_progs (ks_cgroups st c))"
    "cb_flags (ks_cgroups ?t c) = cb_flags (ks_cgroups st c)"
    "ks_link_cgroup ?t = ks_link_cgroup ?r" "ks_cgroup_refs ?t = ks_cgroup_refs ?r" for c
    by (simp_all add: list_frame_def req upd_cgroup_def set_progs_def)
  have put: "?st' = cgroup_put cg ?t" by (simp add: cgroup_bpf_release_def Let_def)
  have "entry_ok ?t c pl" if pl: "pl \<in> set (cb_progs (ks_cgroups ?t c))" for c pl
  proof -
    have "c \<noteq> cg" "pl \<in> set (cb_progs (ks_cgroups st c))" using pl t(1) [of c] by (auto split: if_splits)
    moreover then have "entry_ok st c pl" using ok(1) [of c] by (simp add: list_all_iff)
    ultimately show ?thesis
      using t(2) [of c] mine [of _ cg] by (auto simp: entry_ok_def t(3) r(1) split: option.splits)
  qed
  then have "lists_ok ?t" using assms t(1) by (simp add: lists_ok_def links_inv_def list_all_iff)
  then have "links_inv ?t"
  proof (rule links_invI)
    fix l c assume l: "ks_link_cgroup ?t l = Some c"
    then have "l \<notin> set (link_ids ?ps)" "ks_link_cgroup st l = Some c" by (simp_all add: t(3) r(1) split: if_splits)
    then show "l \<in> set (link_ids (cb_progs (ks_cgroups ?t c)))" using listed [of l c] t(1) [of c] by auto
  qed
  then show "links_inv ?st'" unfolding put by simp
  show "ks_link_cgroup ?st' l \<noteq> Some cg"
    using listed [of l cg] by (auto simp: put cgroup_put_def t(3) r(1))
  show "unlinked_refs ?st' c = unlinked_refs st c - of_bool (c = cg)"
    using fun_cong [OF r(2), of c] by (cases "c = cg") (simp_all add: put unlinked_refs_def cgroup_put_def t(3,4))
qed

subsection \<open>The other operations\<close>

text \<open>The list frame also holds for the two debugfs writes.\<close>

lemma ref_frames [simp]:
  "list_frame st (path_get p s) = list_frame st s"
  "list_frame st (path_put p s) = list_frame st s"
  "list_frame st (path_get_list ps s) = list_frame st s"
  "list_frame st (path_put_list ps s) = list_frame st s"
  "list_frame st (s\<lparr>ks_next_addr := n\<rparr>) = list_frame st s"
  "list_frame st (cgroup_bpf_get cg s) = list_frame st s"
  "list_frame st (cgroup_bpf_put cg s) = list_frame st s"
  "list_frame st (s\<lparr>namei_ext_targets := ts\<rparr>) = list_frame st s"
  by (simp_all add: list_frame_def refs_eq path_put_list_eq cgroup_ref_defs)

lemma free_scopes_frame [simp]: "list_frame st (namei_ext_free_scopes sc s) = list_frame st s"
  by (simp add: namei_ext_free_scopes_def split: option.split)

lemma publish_frame [simp]:
  "list_frame st (namei_ext_finish_scope_replace old (snd (namei_ext_scope_replace_locked hb cg new s))) = list_frame st s"
  by (simp add: namei_ext_finish_scope_replace_def)
     (auto simp: list_frame_def replace_locked_fields replace_locked_link_cgroup)

lemma scope_commands_frame [simp]:
  "list_frame st (snd (namei_ext_alloc_scopes alloc nr s)) = list_frame st s"
  "list_frame st (snd (namei_ext_scope_exact hb alloc cg path s)) = list_frame st s"
  "list_frame st (snd (namei_ext_scope_empty hb alloc cg s)) = list_frame st s"
  "list_frame st (snd (namei_ext_scope_global hb cg s)) = list_frame st s"
  "list_frame st (snd (namei_ext_scope_add hb alloc cg path s)) = list_frame st s"
  by (simp_all add: namei_ext_alloc_scopes_def namei_ext_scope_exact_def namei_ext_scope_empty_def
      namei_ext_scope_global_def namei_ext_scope_add_def Let_def split_beta split: option.split)

lemma policy_parent_write_frame: "list_frame st (snd (namei_ext_policy_parent_write hb env count st))"
proof (cases rule: policy_parent_write_cases [of hb env count st])
  case (command buf c f n r st')
  let ?st = "cgroup_get (we_current env) (cgroup_bpf_get (we_current env) st)"
  have "list_frame ?st (snd (policy_parent_command hb env (we_current env) c f n ?st)) = list_frame ?st ?st"
    by (simp add: policy_parent_command_def split: option.split)
  with command show ?thesis by (simp add: list_frame_def namei_ext_put_cgroup_def cgroup_ref_defs)
qed simp

lemma register_target_frame': "list_frame st (snd (namei_ext_register_target hb alloc cg tid p st))"
  by (auto simp: namei_ext_register_target_def Let_def split: prod.split option.split)

lemma register_target_write_frame: "list_frame st (snd (namei_ext_register_target_write hb env count st))"
proof (cases rule: register_target_write_cases [of hb env count st])
  case (registered buf tid fd p st')
  then show ?thesis
    using register_target_frame' [of "path_get p st" hb "we_alloc env" "we_current env" tid p]
    by (simp add: list_frame_def refs_eq)
qed (auto simp: put_get_path clear_targets_eq)

lemma list_frame_links:
  assumes "list_frame st st'"
  shows "links_inv st' = links_inv st" "unlinked_refs st' = unlinked_refs st"
  using lists_ok_frame(2) [OF assms] unlinked_refs_cong [of st' st] assms by (simp_all add: list_frame_def)

lemma offline_links:
  "links_inv (cgroup_offline c st) = links_inv st"
  "unlinked_refs (cgroup_offline c st) d = unlinked_refs st d + of_bool (d = c)"
  by (rule links_inv_cong(2)) (simp_all add: offline_defs upd_cgroup_def unlinked_refs_def)

lemma ref_zero_links:
  "links_inv (cgroup_ref_zero c st) = links_inv st" "unlinked_refs (cgroup_ref_zero c st) = unlinked_refs st"
  by (rule list_frame_links, simp add: list_frame_def cgroup_ref_zero_def upd_cgroup_def)+

lemma create_links:
  assumes "links_inv st" "cb_progs (ks_cgroups st c) = []"
    and "cgroup_bpf_inherit ref_init alloc c (cgroup_link c parent online st) = (None, st')"
  shows "links_inv st'" "unlinked_refs st' = unlinked_refs st"
proof -
  let ?st = "cgroup_link c parent online st"
  let ?g = "fold cgroup_bpf_get (cb_ancestors (ks_cgroups ?st c)) ?st"
  have st: "cb_progs (ks_cgroups ?st d) = cb_progs (ks_cgroups st d)" "d \<noteq> c \<Longrightarrow> cb_flags (ks_cgroups ?st d) = cb_flags (ks_cgroups st d)"
    "ks_link_cgroup ?st = ks_link_cgroup st" "ks_cgroup_refs ?st = ks_cgroup_refs st" for d
    using assms(2) by (simp_all add: cgroup_link_def zero_cgroup_bpf_def)
  have "list_frame ?st ?g" by (rule fold_inv [of "list_frame ?st"]) simp_all
  moreover obtain arr where "st' = activate_all [(c, Inr arr)] ?g"
    using inherit_activate [OF assms(3)] by (auto simp: cgroup_link_def zero_cgroup_bpf_def)
  ultimately have f: "list_frame ?st st'" using activate_all_frame list_frame_trans by blast
  have "entry_ok ?st d pl = entry_ok st d pl" if "pl \<in> set (cb_progs (ks_cgroups st d))" for d pl
    using that assms(2) st(2) [of d] by (cases "d = c") (auto simp: entry_ok_def st(3) split: option.split)
  then have "links_inv ?st"
    using assms(1) by (simp add: links_inv_def lists_ok_def list_all_iff st(1,3))
  then show "links_inv st'" "unlinked_refs st' = unlinked_refs st"
    using list_frame_links [OF f] unlinked_refs_cong [OF st(3,4)] by simp_all
qed

subsection \<open>Reachable states\<close>

text \<open>
  The system calls keep the invariant of the kernel tables too: references and the links
  are outside it.
\<close>

lemma kernel_inv_refs [simp]:
  "kernel_inv hb (cgroup_get cg st) = kernel_inv hb st" "kernel_inv hb (cgroup_put cg st) = kernel_inv hb st"
  by (simp_all add: kernel_inv_split)

lemma kernel_inv_links [simp]:
  "kernel_inv hb (st\<lparr>ks_link_cgroup := lc\<rparr>) = kernel_inv hb st"
  "kernel_inv hb (st\<lparr>ks_links := ls\<rparr>) = kernel_inv hb st"
proof -
  have "attach_inv (st\<lparr>ks_link_cgroup := lc\<rparr>) = attach_inv st" "scopes_inv hb (st\<lparr>ks_link_cgroup := lc\<rparr>) = scopes_inv hb st"
    by (rule attach_inv_cong scopes_inv_cong; simp)+
  then show "kernel_inv hb (st\<lparr>ks_link_cgroup := lc\<rparr>) = kernel_inv hb st"
    by (simp add: kernel_inv_def targets_wf_def)
  have "prog_list_length ls ps = prog_list_length (ks_links st) ps" for ps
    by (induction ps) (auto simp: prog_list_prog_def split: option.split)
  then have "has_progs (st\<lparr>ks_links := ls\<rparr>) c = has_progs st c" for c by (simp add: has_progs_def)
  then have "attach_inv (st\<lparr>ks_links := ls\<rparr>) = attach_inv st"
    by (simp add: attach_inv_def hierarchy_ok_def attached_active_def owners_active_def live_def cgroup_chain_def)
  then show "kernel_inv hb (st\<lparr>ks_links := ls\<rparr>) = kernel_inv hb st" by (simp add: kernel_inv_split)
qed

lemma prog_attach_kernel:
  assumes "kernel_inv hb st"
  shows "kernel_inv hb (snd (cgroup_bpf_prog_attach env attr prog st))"
  using assms kstep_inv [OF kstep.attach]
  by (auto simp: cgroup_bpf_prog_attach_def Let_def split_beta split: sum.split)

lemma prog_detach_kernel:
  assumes "kernel_inv hb st"
  shows "kernel_inv hb (snd (cgroup_bpf_prog_detach env attr st))"
  using assms kstep_inv [OF kstep.detach]
  by (auto simp: cgroup_bpf_prog_detach_def Let_def split_beta split: sum.split)

lemma link_release_kernel:
  assumes "kernel_inv hb st"
  shows "kernel_inv hb (snd (bpf_cgroup_link_release env l st))"
  using assms kstep_inv [OF kstep.detach]
  by (auto simp: bpf_cgroup_link_release_def Let_def split_beta split: option.split)

lemma link_update_kernel:
  assumes "kernel_inv hb st" "cgroup_bpf_link_update ok l new old st = Some (r, st')"
  shows "kernel_inv hb st'"
  using assms kstep_inv [OF kstep.replace]
  by (auto simp: cgroup_bpf_link_update_def split: option.splits if_splits)

lemma link_attach_kernel:
  assumes "kernel_inv hb st" "cgroup_bpf_link_attach env attr prog l st = (r, st')"
  shows "kernel_inv hb st'"
proof (cases rule: link_attach_cases [OF assms(2)])
  case (4 e cg s)
  then show ?thesis using kstep_inv [OF kstep.attach, of hb] assms(1) by (metis kernel_inv_links kernel_inv_refs snd_conv)
next
  case (5 cg)
  then show ?thesis using kstep_inv [OF kstep.attach, of hb] assms(1) by (metis kernel_inv_links kernel_inv_refs snd_conv)
qed (use assms(1) in simp_all)

text \<open>
  One step is one system call or one event in the life of a cgroup. A new link has an address
  no settled link has, and a new cgroup an address whose last user left no entries behind.
\<close>

inductive sys_step :: "hashfn \<Rightarrow> kstate \<Rightarrow> kstate \<Rightarrow> bool" for hb where
  prog_attach: "sys_step hb st (snd (cgroup_bpf_prog_attach env attr prog st))"
| prog_detach: "sys_step hb st (snd (cgroup_bpf_prog_detach env attr st))"
| link_attach: "ks_link_cgroup st l = None \<Longrightarrow> sys_step hb st (snd (cgroup_bpf_link_attach env lattr prog l st))"
| link_release: "sys_step hb st (snd (bpf_cgroup_link_release env l st))"
| link_update: "cgroup_bpf_link_update ok l new old st = Some (r, st') \<Longrightarrow> sys_step hb st st'"
| register: "sys_step hb st (snd (namei_ext_register_target_write hb wenv count st))"
| policy_parent: "sys_step hb st (snd (namei_ext_policy_parent_write hb wenv count st))"
| create: "cgroup_unused st c \<Longrightarrow> cb_progs (ks_cgroups st c) = [] \<Longrightarrow> live st parent \<Longrightarrow>
    set online = insert c (set (ks_online st)) \<Longrightarrow>
    cgroup_bpf_inherit ref_init alloc c (cgroup_link c parent online st) = (None, st') \<Longrightarrow>
    sys_step hb st st'"
| offline: "sys_step hb st (cgroup_offline c st)"
| ref_zero: "(\<And>d. live st d \<Longrightarrow> c \<in> set (cgroup_chain d st) \<Longrightarrow> d = c) \<Longrightarrow>
    sys_step hb st (cgroup_ref_zero c st)"
| release: "\<not> live st c \<Longrightarrow> sys_step hb st (cgroup_bpf_release hb c st)"

inductive sys_reachable :: "hashfn \<Rightarrow> kstate \<Rightarrow> kstate \<Rightarrow> bool" for hb init where
  start: "sys_reachable hb init init"
| step: "sys_reachable hb init st \<Longrightarrow> sys_step hb st st' \<Longrightarrow> sys_reachable hb init st'"

lemma sys_step_links:
  assumes "sys_step hb st st'" "links_inv st"
  shows "links_inv st'"
  using assms
proof (cases rule: sys_step.cases)
  case (link_attach l env attr prog)
  then show ?thesis
    using link_attach_links [OF assms(2) link_attach(2), of env attr prog "fst (cgroup_bpf_link_attach env attr prog l st)" st'] by simp
next
  case (link_release env l)
  then show ?thesis using link_release_links(2) [OF assms(2)] by (metis prod.collapse)
next
  case (link_update ok l new old r)
  then show ?thesis using link_update_links [OF assms(2), of ok l new old] by (metis option.inject prod.inject)
next
  case (create c parent online ref_init alloc)
  then show ?thesis using create_links(1) [OF assms(2)] by blast
qed (use assms(2) prog_attach_links(1) prog_detach_links(1) list_frame_links(1) [OF register_target_write_frame]
      list_frame_links(1) [OF policy_parent_write_frame] offline_links(1) ref_zero_links(1) release_links(1) in auto)

lemma sys_step_kernel:
  assumes "sys_step hb st st'" "kernel_inv hb st"
  shows "kernel_inv hb st'"
  using assms
proof (cases rule: sys_step.cases)
  case (link_attach l env attr prog)
  then show ?thesis using link_attach_kernel [OF assms(2)] by (metis prod.collapse)
next
  case (link_update ok l new old r)
  then show ?thesis using link_update_kernel [OF assms(2)] by blast
next
  case (create c parent online ref_init alloc)
  then show ?thesis using create_inv [OF assms(2)] by blast
next
  case (ref_zero c)
  then show ?thesis using assms(2) ref_zero_inv by blast
qed (use assms(2) prog_attach_kernel prog_detach_kernel link_release_kernel kstep_inv [OF kstep.register]
      kstep_inv [OF kstep.policy_parent] offline_inv release_inv in auto)

lemma sys_reachable_inv:
  assumes "sys_reachable hb init st" "kernel_inv hb init" "links_inv init"
  shows "kernel_inv hb st \<and> links_inv st"
  using assms(1)
  by (induction rule: sys_reachable.induct) (use assms(2,3) sys_step_kernel sys_step_links in blast)+

lemma kernel_boot_links: "links_inv (kernel_boot root)"
  by (simp add: links_inv_def lists_ok_def kernel_boot_def zero_cgroup_bpf_def)

subsection \<open>What a query returns\<close>

text \<open>The program behind an entry.\<close>

definition entry_prog :: "(u64 \<Rightarrow> u64) \<Rightarrow> bpf_prog_list \<Rightarrow> u64" where
  "entry_prog links pl = (case prog_list_prog links pl of Some p \<Rightarrow> p | None \<Rightarrow> 0)"

lemma entry_has_prog:
  assumes "entry_ok st c pl"
  shows "prog_list_prog links pl = Some (entry_prog links pl)"
  using assms by (auto simp: entry_ok_def entry_prog_def prog_list_prog_def split: option.splits)

lemma lists_ok_length:
  assumes "lists_ok st"
  shows "fst (prog_list_length (ks_links st) (cb_progs (ks_cgroups st c))) = length (cb_progs (ks_cgroups st c))"
proof -
  have "fst (prog_list_length links pls) = length pls" if "\<forall>pl\<in>set pls. prog_list_prog links pl \<noteq> None" for links pls
    using that by (induction pls) (auto simp: split_beta)
  then show ?thesis using entry_has_prog lists_okD [OF assms] by (metis option.distinct(1))
qed

lemma query_ids_take:
  assumes "list_all (\<lambda>pl. prog_list_prog links pl = Some (entry_prog links pl)) pls"
    and "i < cnt" "cnt - i \<le> length pls" "\<And>j. qe_copy_id env j"
  shows "query_ids env links cnt i pls =
           Some (None, map (\<lambda>pl. qe_prog_id env (entry_prog links pl)) (take (cnt - i) pls))"
  using assms(1-3)
proof (induction pls arbitrary: i)
  case (Cons pl pls)
  have "query_ids env links cnt (Suc i) pls =
      Some (None, map (\<lambda>pl. qe_prog_id env (entry_prog links pl)) (take (cnt - Suc i) pls))" if "Suc i \<noteq> cnt"
    by (rule Cons.IH) (use Cons.prems that in auto)
  moreover have "cnt - i = Suc (cnt - Suc i)" using Cons.prems(2) by simp
  ultimately show ?case using Cons.prems(1) assms(4) by simp
qed simp

lemma query_list:
  fixes c :: u64
  assumes "lists_ok st" "\<not> qa_effective attr" "qa_want_ids attr" "\<not> qa_want_attach_flags attr" "qa_prog_cnt attr > 0"
    and "qe_copy_flags env" "qe_copy_cnt env" "qe_copy_revision env" "\<And>j. qe_copy_id env j"
  defines "ps \<equiv> cb_progs (ks_cgroups st c)"
  shows "cgroup_bpf_query env attr c st =
    Some (if qa_prog_cnt attr < length ps then Some ENOSPC else None,
          \<lparr>qo_attach_flags = cb_flags (ks_cgroups st c), qo_prog_cnt = length ps,
           qo_revision = cb_revision (ks_cgroups st c),
           qo_ids = map (\<lambda>pl. qe_prog_id env (entry_prog (ks_links st) pl)) (take (qa_prog_cnt attr) ps),
           qo_prog_attach_flags = []\<rparr>)"
proof (cases "ps = []")
  case True
  then show ?thesis
    using assms(2-8) unfolding ps_def by (simp add: cgroup_bpf_query_def Let_def zero_query_out_def)
next
  case False
  have n: "fst (prog_list_length (ks_links st) ps) = length ps" using lists_ok_length [OF assms(1)] by (simp add: ps_def)
  define cnt where "cnt = min (qa_prog_cnt attr) (length ps)"
  have "query_ids env (ks_links st) cnt 0 ps =
      Some (None, map (\<lambda>pl. qe_prog_id env (entry_prog (ks_links st) pl)) (take (cnt - 0) ps))"
  proof (rule query_ids_take)
    show "list_all (\<lambda>pl. prog_list_prog (ks_links st) pl = Some (entry_prog (ks_links st) pl)) ps"
      using lists_okD [OF assms(1)] entry_has_prog by (fastforce simp: list_all_iff ps_def)
  qed (use False assms(5,9) in \<open>simp_all add: cnt_def\<close>)
  then have q: "query_ids env (ks_links st) cnt 0 ps =
      Some (None, map (\<lambda>pl. qe_prog_id env (entry_prog (ks_links st) pl)) (take (qa_prog_cnt attr) ps))"
    by (cases "qa_prog_cnt attr \<le> length ps") (simp_all add: cnt_def)
  have "min (length ps) (min (qa_prog_cnt attr) (length ps)) = cnt" by (simp add: cnt_def)
  then show ?thesis
    using assms(2-8) False q unfolding cgroup_bpf_query_def Let_def ps_def [symmetric]
    by (simp add: n zero_query_out_def)
qed

text \<open>No query meets an entry without program.\<close>

lemma query_ids_total:
  assumes "list_all (\<lambda>pl. prog_list_prog links pl \<noteq> None) pls"
  shows "query_ids env links cnt i pls \<noteq> None"
  using assms by (induction pls arbitrary: i) auto

lemma query_total:
  assumes "lists_ok st"
  shows "cgroup_bpf_query env attr c st \<noteq> None"
proof -
  have "list_all (\<lambda>pl. prog_list_prog (ks_links st) pl \<noteq> None) (cb_progs (ks_cgroups st c))"
    using lists_okD [OF assms] entry_has_prog by (fastforce simp: list_all_iff)
  then have "query_ids env (ks_links st) cnt 0 (cb_progs (ks_cgroups st c)) \<noteq> None" for cnt
    by (rule query_ids_total)
  then have q: "query_ids env (ks_links st) cnt 0 (cb_progs (ks_cgroups st c)) =
      Some (the (query_ids env (ks_links st) cnt 0 (cb_progs (ks_cgroups st c))))" for cnt
    by simp
  show ?thesis
    unfolding cgroup_bpf_query_def Let_def by (subst q) (simp split: prod.split option.split)
qed

end
