(* ===== verification/Harness_Load.thy ===== *)
theory Harness_Load
  imports Harness_Control Link_Reach
begin

text \<open>
  The rest of \<open>runner/src/namei_ext_harness.c\<close>: entering a cgroup, the clock, cgroup ids,
  removing a tree, the wrappers around the control children, and loading, attaching and
  destroying a policy, which act on the program lists of the kernel model.
\<close>

subsection \<open>Small calls\<close>

text \<open>
  What entering a cgroup meets: opening the \<open>cgroup.procs\<close> file, the own pid, what the write of
  a text returns with the error code left behind (\<open>None\<close> is zero), and closing.
\<close>

record move_env =
  mv_open :: "bytes \<Rightarrow> errno option"
  mv_pid :: nat
  mv_write :: "bytes \<Rightarrow> int \<times> errno option"
  mv_close :: "errno option"

text \<open>The result, and what was written into the file that was opened.\<close>

definition namei_ext_move_self_to_cgroup ::
  "move_env \<Rightarrow> bytes \<Rightarrow> bytes \<Rightarrow> errno option \<times> (bytes \<times> bytes) option" where
  "namei_ext_move_self_to_cgroup env buf cgroup_path =
     (let (err, procs) = namei_ext_path_join buf 4096 cgroup_path ''cgroup.procs'';
          procs_path = cstr procs;
          pid_buf = dec (mv_pid env) @ [CHR 10];
          len = length pid_buf
      in
      if err \<noteq> None then (Some ENAMETOOLONG, None)
      else case mv_open env procs_path of
        Some e \<Rightarrow> (Some e, None)
      | None \<Rightarrow>
          if len \<ge> 32 then (Some EINVAL, None)
          else
            let (nwritten, e) = mv_write env pid_buf in
            if nwritten \<noteq> int len
            then (Some (case e of Some e \<Rightarrow> e | None \<Rightarrow> EIO), Some (procs_path, take (nat nwritten) pid_buf))
            else (mv_close env, Some (procs_path, pid_buf)))"

definition namei_ext_monotonic_ns :: "(errno + int \<times> int) \<Rightarrow> errno + u64" where
  "namei_ext_monotonic_ns clock =
     (case clock of
        Inl e \<Rightarrow> Inl e
      | Inr (tv_sec, tv_nsec) \<Rightarrow> Inr (of_int tv_sec * 1000000000 + of_int tv_nsec))"

text \<open>
  \<open>name_to_handle_at\<close> is called twice, to learn the size and with room for it. The first call
  returns a value, the error code and the size it asks for.
\<close>

record handle_env =
  he_calloc :: "errno option"
  he_probe :: "int \<times> errno option \<times> nat"
  he_realloc :: "errno option"
  he_handle :: "errno + bytes"

definition u64_of_bytes :: "bytes \<Rightarrow> u64" where
  "u64_of_bytes bs = horner_sum of_char 256 (take 8 bs)"

definition namei_ext_cgroup_id :: "handle_env \<Rightarrow> errno + u64" where
  "namei_ext_cgroup_id env =
     (case he_calloc env of
        Some e \<Rightarrow> Inl e
      | None \<Rightarrow>
          let (ret, err, handle_bytes) = he_probe env in
          if ret \<ge> 0 \<or> err \<noteq> Some EOVERFLOW \<or> handle_bytes \<noteq> 8
          then Inl (case err of Some e \<Rightarrow> e | None \<Rightarrow> EINVAL)
          else
            case he_realloc env of
              Some e \<Rightarrow> Inl e
            | None \<Rightarrow>
                (case he_handle env of
                   Inl e \<Rightarrow> Inl e
                 | Inr f_handle \<Rightarrow>
                     let cgroup_id = u64_of_bytes f_handle
                     in if cgroup_id = 0 then Inl EINVAL else Inr cgroup_id))"

subsection \<open>Removing a tree\<close>

text \<open>
  A directory tree as \<open>nftw\<close> walks it with \<open>FTW_DEPTH\<close> and \<open>FTW_PHYS\<close>: the entries of a directory
  before the directory, links not followed. A callback that returns nonzero ends the walk.
\<close>

datatype ftree = FNode bytes "ftree list"

fun nftw_order :: "bytes \<Rightarrow> ftree \<Rightarrow> bytes list" where
  "nftw_order path (FNode name ts) = concat (map (\<lambda>t. nftw_order (path @ name @ ''/'') t) ts) @ [path @ name]"

definition remove_callback :: "(bytes \<Rightarrow> bool) \<Rightarrow> bytes \<Rightarrow> bool" where
  "remove_callback remove path = remove path"

definition namei_ext_remove_tree :: "(bytes \<Rightarrow> bool) \<Rightarrow> bytes option \<Rightarrow> (bytes \<Rightarrow> ftree option) \<Rightarrow> bytes list" where
  "namei_ext_remove_tree remove path tree =
     (case path of
        None \<Rightarrow> []
      | Some p \<Rightarrow>
          if p = [] then []
          else case tree p of None \<Rightarrow> [] | Some t \<Rightarrow> takeWhile (remove_callback remove) (nftw_order [] t))"

lemma nftw_below:
  "p \<in> set (nftw_order path t) \<Longrightarrow> case t of FNode name ts \<Rightarrow> p = path @ name \<or> (\<exists>q. p = path @ name @ ''/'' @ q)"
proof (induction t arbitrary: path)
  case (FNode name ts)
  consider "p = path @ name" | t where "t \<in> set ts" "p \<in> set (nftw_order (path @ name @ ''/'') t)"
    using FNode.prems by auto
  then show ?case
  proof cases
    case (2 t)
    then show ?thesis using FNode.IH [OF 2] by (auto split: ftree.splits)
  qed simp
qed

subsection \<open>Wrappers\<close>

definition namei_ext_register_target_one ::
  "nat \<Rightarrow> hashfn \<Rightarrow> control_child \<Rightarrow> bytes option \<Rightarrow> bytes option \<Rightarrow> u32 \<Rightarrow> kstate \<Rightarrow> errno option option \<times> kstate" where
  "namei_ext_register_target_one rounds hb ch cgroup_path path target_id st =
     namei_ext_register_target_batch rounds hb ch cgroup_path
       [\<lparr>tr_path = path, tr_target_id = target_id\<rparr>] st"

definition namei_ext_policy_parent_exact ::
  "nat \<Rightarrow> hashfn \<Rightarrow> control_child \<Rightarrow> bytes \<Rightarrow> kstate \<Rightarrow> errno option option \<times> kstate" where
  "namei_ext_policy_parent_exact rounds hb ch parent_dir st =
     namei_ext_policy_parent_child rounds hb ch ''exact'' (Some parent_dir) st"

definition namei_ext_policy_parent_add ::
  "nat \<Rightarrow> hashfn \<Rightarrow> control_child \<Rightarrow> bytes \<Rightarrow> kstate \<Rightarrow> errno option option \<times> kstate" where
  "namei_ext_policy_parent_add rounds hb ch parent_dir st =
     namei_ext_policy_parent_child rounds hb ch ''add'' (Some parent_dir) st"

definition namei_ext_policy_parent_clear ::
  "nat \<Rightarrow> hashfn \<Rightarrow> control_child \<Rightarrow> kstate \<Rightarrow> errno option option \<times> kstate" where
  "namei_ext_policy_parent_clear rounds hb ch st = namei_ext_policy_parent_child rounds hb ch ''clear'' None st"

definition namei_ext_policy_parent_global ::
  "nat \<Rightarrow> hashfn \<Rightarrow> control_child \<Rightarrow> kstate \<Rightarrow> errno option option \<times> kstate" where
  "namei_ext_policy_parent_global rounds hb ch st = namei_ext_policy_parent_child rounds hb ch ''global'' None st"

subsection \<open>Loading and destroying a policy\<close>

text \<open>
  What libbpf and \<open>open\<close> answer, and the kernel's view of the descriptors. The system call behind
  \<open>bpf_prog_attach\<close> finds the program of the descriptor and calls \<open>cgroup_bpf_prog_attach\<close>;
  \<open>bpf_prog_detach2\<close> ends in \<open>cgroup_bpf_prog_detach\<close>.
\<close>

record load_env =
  le_open_file :: "errno + (bytes \<rightharpoonup> bpf_map)"
  le_load :: "errno option"
  le_next_program :: "int option"
  le_open_cgroup :: "errno + int"
  le_sys :: sys_env

text \<open>Objects and descriptors the process holds.\<close>

record held =
  h_objects :: nat
  h_fds :: nat

definition attach_attr :: "int \<Rightarrow> int \<Rightarrow> prog_attach_attr" where
  "attach_attr program_fd cgroup_fd =
     \<lparr>pa_target_fd = of_int cgroup_fd, pa_attach_bpf_fd = of_int program_fd, pa_replace_bpf_fd = 0,
      pa_attach_flags = 0, pa_relative_fd = 0, pa_expected_revision = 0\<rparr>"

definition bpf_prog_attach :: "sys_env \<Rightarrow> int \<Rightarrow> int \<Rightarrow> kstate \<Rightarrow> errno option \<times> kstate" where
  "bpf_prog_attach sys program_fd cgroup_fd st =
     (case se_prog_fd sys (of_int program_fd) of
        Inl e \<Rightarrow> (Some e, st)
      | Inr prog \<Rightarrow> cgroup_bpf_prog_attach sys (attach_attr program_fd cgroup_fd) prog st)"

definition namei_ext_policy_load_attach ::
  "load_env \<Rightarrow> harness_policy option \<Rightarrow> held \<Rightarrow> kstate \<Rightarrow> (errno + harness_policy) \<times> held \<times> kstate" where
  "namei_ext_policy_load_attach env policy h st =
     (case policy of
        None \<Rightarrow> (Inl EINVAL, h, st)
      | Some p \<Rightarrow>
          (case le_open_file env of
             Inl e \<Rightarrow> (Inl e, h, st)
           | Inr obj \<Rightarrow>
               let h = h\<lparr>h_objects := h_objects h + 1\<rparr>;
                   close_object = (\<lambda>e h st. (Inl e, h\<lparr>h_objects := h_objects h - 1\<rparr>, st))
               in
               case le_load env of
                 Some e \<Rightarrow> close_object e h st
               | None \<Rightarrow>
                   (case le_next_program env of
                      None \<Rightarrow> close_object EINVAL h st
                    | Some program_fd \<Rightarrow>
                        if program_fd < 0 then close_object EINVAL h st
                        else
                          case le_open_cgroup env of
                            Inl e \<Rightarrow> close_object e h st
                          | Inr cgroup_fd \<Rightarrow>
                              let h = h\<lparr>h_fds := h_fds h + 1\<rparr> in
                              (case bpf_prog_attach (le_sys env) program_fd cgroup_fd st of
                                 (Some e, st) \<Rightarrow> close_object e (h\<lparr>h_fds := h_fds h - 1\<rparr>) st
                               | (None, st) \<Rightarrow>
                                   (Inr (p\<lparr>hp_obj := Some obj, hp_cgroup_fd := cgroup_fd,
                                           hp_prog_fd := program_fd, hp_attached := True\<rparr>), h, st)))))"

definition namei_ext_policy_destroy ::
  "sys_env \<Rightarrow> harness_policy option \<Rightarrow> held \<Rightarrow> kstate \<Rightarrow> errno option \<times> harness_policy option \<times> held \<times> kstate" where
  "namei_ext_policy_destroy sys policy h st =
     (case policy of
        None \<Rightarrow> (Some EINVAL, None, h, st)
      | Some p \<Rightarrow>
          let (err, p, st) =
                (if hp_attached p then
                   let (err, st) = cgroup_bpf_prog_detach sys (attach_attr (hp_prog_fd p) (hp_cgroup_fd p)) st
                   in (err, p\<lparr>hp_attached := False\<rparr>, st)
                 else (None, p, st));
              h = (if hp_cgroup_fd p \<ge> 0 then h\<lparr>h_fds := h_fds h - 1\<rparr> else h);
              h = (if hp_obj p \<noteq> None then h\<lparr>h_objects := h_objects h - 1\<rparr> else h)
          in (err, Some (p\<lparr>hp_obj := None, hp_cgroup_fd := -1, hp_prog_fd := -1\<rparr>), h, st))"

subsection \<open>What they keep\<close>

text \<open>A load that fails holds nothing and changes no effective array; one that succeeds is attached.\<close>

lemma prog_attach_refused:
  assumes "cgroup_bpf_prog_attach sys attr prog st = (Some e, st')"
  shows "cb_effective (ks_cgroups st' c) = cb_effective (ks_cgroups st c)"
    "cb_owner (ks_cgroups st' c) = cb_owner (ks_cgroups st c)"
proof -
  have "cb_effective (ks_cgroups s c) = cb_effective (ks_cgroups st c) \<and> cb_owner (ks_cgroups s c) = cb_owner (ks_cgroups st c)"
    if "cgroup_bpf_attach env cg a (cgroup_get cg st) = (Some e', s)" for env cg a e' s
    using attach_refused [OF that, of c] by (simp add: cgroup_get_def)
  then have "cb_effective (ks_cgroups st' c) = cb_effective (ks_cgroups st c) \<and> cb_owner (ks_cgroups st' c) = cb_owner (ks_cgroups st c)"
    using assms by (auto simp: cgroup_bpf_prog_attach_def Let_def cgroup_ref_defs split: sum.splits prod.splits if_splits)
  then show "cb_effective (ks_cgroups st' c) = cb_effective (ks_cgroups st c)"
    "cb_owner (ks_cgroups st' c) = cb_owner (ks_cgroups st c)" by simp_all
qed

lemma load_attach_cases:
  assumes "namei_ext_policy_load_attach env policy h st = (r, h', st')"
  obtains (early) e where "r = Inl e" "h' = h" "st' = st"
  | (refused) e fd cfd where "r = Inl e" "h' = h" "le_next_program env = Some fd" "le_open_cgroup env = Inr cfd"
      "bpf_prog_attach (le_sys env) fd cfd st = (Some e, st')"
  | (loaded) p obj fd cfd where "policy = Some p" "le_next_program env = Some fd" "fd \<ge> 0" "le_open_cgroup env = Inr cfd"
      "bpf_prog_attach (le_sys env) fd cfd st = (None, st')"
      "r = Inr (p\<lparr>hp_obj := Some obj, hp_cgroup_fd := cfd, hp_prog_fd := fd, hp_attached := True\<rparr>)"
      "h' = h\<lparr>h_objects := h_objects h + 1, h_fds := h_fds h + 1\<rparr>"
proof -
  have "(\<exists>e. r = Inl e \<and> h' = h \<and> st' = st) \<or>
    (\<exists>e fd cfd. r = Inl e \<and> h' = h \<and> le_next_program env = Some fd \<and> le_open_cgroup env = Inr cfd \<and>
       bpf_prog_attach (le_sys env) fd cfd st = (Some e, st')) \<or>
    (\<exists>p obj fd cfd. policy = Some p \<and> le_next_program env = Some fd \<and> fd \<ge> 0 \<and> le_open_cgroup env = Inr cfd \<and>
       bpf_prog_attach (le_sys env) fd cfd st = (None, st') \<and>
       r = Inr (p\<lparr>hp_obj := Some obj, hp_cgroup_fd := cfd, hp_prog_fd := fd, hp_attached := True\<rparr>) \<and>
       h' = h\<lparr>h_objects := h_objects h + 1, h_fds := h_fds h + 1\<rparr>)"
    using assms
    by (auto simp: namei_ext_policy_load_attach_def Let_def split: option.splits sum.splits if_splits prod.splits)
  then show thesis using early refused loaded by blast
qed

lemma bpf_attach_links:
  assumes "links_inv st" "bpf_prog_attach sys fd cfd st = (r, st')"
  shows "links_inv st' \<and> unlinked_refs st' = unlinked_refs st"
  using assms prog_attach_links [OF assms(1), of sys "attach_attr fd cfd"]
  by (auto simp: bpf_prog_attach_def split: sum.splits) (metis snd_conv)+

lemma load_fails_clean:
  assumes "namei_ext_policy_load_attach env policy h st = (Inl e, h', st')"
  shows "h' = h" "cb_effective (ks_cgroups st' c) = cb_effective (ks_cgroups st c)"
    "cb_owner (ks_cgroups st' c) = cb_owner (ks_cgroups st c)"
    "links_inv st \<Longrightarrow> unlinked_refs st' = unlinked_refs st"
proof -
  have "h' = h \<and> cb_effective (ks_cgroups st' c) = cb_effective (ks_cgroups st c) \<and>
      cb_owner (ks_cgroups st' c) = cb_owner (ks_cgroups st c) \<and> (links_inv st \<longrightarrow> unlinked_refs st' = unlinked_refs st)"
  proof (cases rule: load_attach_cases [OF assms])
    case (2 e' fd cfd)
    then show ?thesis
      using prog_attach_refused [of "le_sys env" "attach_attr fd cfd" _ st _ st'] bpf_attach_links [OF _ 2(5)]
      by (auto simp: bpf_prog_attach_def split: sum.splits)
  qed auto
  then show "h' = h" "cb_effective (ks_cgroups st' c) = cb_effective (ks_cgroups st c)"
    "cb_owner (ks_cgroups st' c) = cb_owner (ks_cgroups st c)"
    "links_inv st \<Longrightarrow> unlinked_refs st' = unlinked_refs st" by simp_all
qed

text \<open>
  Without \<open>BPF_F_ALLOW_MULTI\<close> a cgroup has one entry: attaching fills it or takes its place, and
  detaching empties it, whichever program it names.
\<close>

lemma attach_single:
  assumes "cgroup_bpf_prog_attach sys attr prog st = (None, st')" "pa_attach_flags attr = 0" "pa_relative_fd attr = 0"
    and "se_cgroup_fd sys (pa_target_fd attr) = Inr cg" "length (cb_progs (ks_cgroups st cg)) \<le> 1"
  shows "cb_progs (ks_cgroups st' c) =
      (if c = cg then [\<lparr>pl_prog = Some prog, pl_link = None, pl_flags = 0\<rparr>] else cb_progs (ks_cgroups st c))"
    "cb_flags (ks_cgroups st' cg) = 0"
proof -
  let ?a = "\<lparr>at_prog = Some prog, at_link = None, at_replace_prog = None, at_flags = 0, at_id_or_fd = 0,
    at_revision = pa_expected_revision attr\<rparr>"
  let ?s = "cgroup_get cg st"
  obtain s where a: "cgroup_bpf_attach (se_attach sys) cg ?a ?s = (None, s)" "st' = cgroup_put cg s"
    using assms(1-4) by (auto simp: cgroup_bpf_prog_attach_def Let_def has_flag_def split: prod.splits)
  have ps: "cb_progs (ks_cgroups ?s d) = cb_progs (ks_cgroups st d)" for d by (simp add: cgroup_get_def)
  have st': "cb_progs (ks_cgroups st' d) = cb_progs (ks_cgroups s d)" "cb_flags (ks_cgroups st' d) = cb_flags (ks_cgroups s d)" for d
    by (simp_all add: a(2) cgroup_put_def)
  have "cb_progs (ks_cgroups s c) = (if c = cg then [\<lparr>pl_prog = Some prog, pl_link = None, pl_flags = 0\<rparr>] else cb_progs (ks_cgroups st c)) \<and>
      cb_flags (ks_cgroups s cg) = 0"
  proof (cases rule: attach_lists_cases [OF a(1)])
    case (2 i)
    have "cb_progs (ks_cgroups st cg) \<noteq> []" "i = 0"
      using 2(3) by (auto simp: ps find_attach_entry_def has_flag_def split: if_splits)
    then obtain pl where one: "cb_progs (ks_cgroups st cg) = [pl]" using assms(5) by (cases "cb_progs (ks_cgroups st cg)") auto
    show ?thesis using attach_commit_lists(1,2) [OF 2(1)] ps one \<open>i = 0\<close> by simp
  next
    case (3 progs i)
    have nil: "cb_progs (ks_cgroups st cg) = []"
      using 3(4) by (auto simp: ps find_attach_entry_def has_flag_def split: if_splits)
    then have "progs = [\<lparr>pl_prog = Some prog, pl_link = None, pl_flags = 0\<rparr>] \<and> i = 0"
      using 3(3) by (auto simp: ps insert_pl_to_hlist_def get_prog_list_def has_flag_def)
    then show ?thesis using attach_commit_lists(1,2) [OF 3(1)] ps by simp
  qed simp
  then show "cb_progs (ks_cgroups st' c) =
      (if c = cg then [\<lparr>pl_prog = Some prog, pl_link = None, pl_flags = 0\<rparr>] else cb_progs (ks_cgroups st c))"
    "cb_flags (ks_cgroups st' cg) = 0" by (simp_all add: st')
qed

lemma detach_single:
  assumes "cgroup_bpf_prog_detach sys attr st = (r, st')" "pa_expected_revision attr = 0"
    and "se_cgroup_fd sys (pa_target_fd attr) = Inr cg" "cb_progs (ks_cgroups st cg) = [pl]" "cb_flags (ks_cgroups st cg) = 0"
  shows "r = None" "cb_progs (ks_cgroups st' c) = (if c = cg then [] else cb_progs (ks_cgroups st c))"
proof -
  obtain prog s where d: "cgroup_bpf_detach (se_delete_at sys) (se_alloc sys) cg prog None 0 (cgroup_get cg st) = (r, s)" "st' = cgroup_put cg s"
    using assms(1-3) by (auto simp: cgroup_bpf_prog_detach_def Let_def split: prod.splits)
  have ps: "ks_cgroups (cgroup_get cg st) = ks_cgroups st" "ks_cgroups st' = ks_cgroups s" by (simp_all add: d(2) cgroup_ref_defs)
  have f: "find_detach_entry (cb_progs (ks_cgroups st cg)) prog None (has_flag (cb_flags (ks_cgroups st cg)) BPF_F_ALLOW_MULTI) = Inr 0"
    using assms(4,5) by (simp add: find_detach_entry_def has_flag_def)
  have "r = None \<and> cb_progs (ks_cgroups s c) = (if c = cg then [] else cb_progs (ks_cgroups st c))"
  proof (cases rule: detach_lists_cases [OF d(1)])
    case (1 e)
    then show ?thesis using f by (simp add: ps)
  next
    case (2 i)
    then have "i = 0" using f by (simp add: ps)
    then show ?thesis using 2(1,3) assms(4) by (simp add: ps remove_at_def)
  qed
  then show "r = None" "cb_progs (ks_cgroups st' c) = (if c = cg then [] else cb_progs (ks_cgroups st c))"
    by (simp_all add: ps)
qed

text \<open>
  Loading a policy and destroying it leaves the process with what it held and every program list
  as it was, on a cgroup that had no program.
\<close>

lemma load_destroy_round_trip:
  assumes load: "namei_ext_policy_load_attach env policy h st = (Inr p, h1, st1)"
    and destroy: "namei_ext_policy_destroy (le_sys env) (Some p) h1 st1 = (err, q, h2, st2)"
    and fd: "le_open_cgroup env = Inr cfd" "cfd \<ge> 0" "se_cgroup_fd (le_sys env) (of_int cfd) = Inr cg"
    and empty: "cb_progs (ks_cgroups st cg) = []"
  shows "err = None" "h2 = h" "cb_progs (ks_cgroups st2 c) = cb_progs (ks_cgroups st c)"
    "map_option hp_attached q = Some False" "links_inv st \<Longrightarrow> unlinked_refs st2 = unlinked_refs st"
proof -
  obtain p0 obj pfd where l: "bpf_prog_attach (le_sys env) pfd cfd st = (None, st1)"
    "p = p0\<lparr>hp_obj := Some obj, hp_cgroup_fd := cfd, hp_prog_fd := pfd, hp_attached := True\<rparr>"
    "h1 = h\<lparr>h_objects := h_objects h + 1, h_fds := h_fds h + 1\<rparr>"
    by (cases rule: load_attach_cases [OF load]) (use fd(1) in auto)
  obtain prog where a: "cgroup_bpf_prog_attach (le_sys env) (attach_attr pfd cfd) prog st = (None, st1)"
    using l(1) by (auto simp: bpf_prog_attach_def split: sum.splits)
  let ?attr = "attach_attr pfd cfd"
  have attr: "pa_attach_flags ?attr = 0" "pa_relative_fd ?attr = 0" "pa_expected_revision ?attr = 0"
    "se_cgroup_fd (le_sys env) (pa_target_fd ?attr) = Inr cg"
    using fd(3) by (simp_all add: attach_attr_def)
  note one = attach_single [OF a attr(1,2,4), unfolded empty, simplified]
  obtain r s where d: "cgroup_bpf_prog_detach (le_sys env) ?attr st1 = (r, s)" by fastforce
  have out: "err = r" "st2 = s" "h2 = h" "map_option hp_attached q = Some False"
    using destroy d fd(2) by (auto simp: namei_ext_policy_destroy_def l(2,3) Let_def)
  note two = detach_single [OF d attr(3,4) one(1) [of cg, simplified] one(2)]
  show "err = None" "h2 = h" "map_option hp_attached q = Some False" using out two(1) by simp_all
  show "cb_progs (ks_cgroups st2 c) = cb_progs (ks_cgroups st c)"
    using two(2) [of c] one(1) [of c] empty out(2) by (auto split: if_splits)
  show "unlinked_refs st2 = unlinked_refs st" if "links_inv st"
    using bpf_attach_links [OF that l(1)] prog_detach_links(2) [of st1 "le_sys env" ?attr] d out(2) by simp
qed

text \<open>
  A second policy loaded on the same cgroup takes the place of the first; destroying the first
  then removes the program of the second.
\<close>

lemma destroy_detaches_successor:
  assumes "cgroup_bpf_prog_attach sys a1 prog1 st = (None, st1)" "cgroup_bpf_prog_attach sys a2 prog2 st1 = (None, st2)"
    and "cgroup_bpf_prog_detach sys a1 st2 = (r, st3)"
    and "a1 = attach_attr p1 cfd" "a2 = attach_attr p2 cfd" "se_cgroup_fd sys (of_int cfd) = Inr cg"
    and "cb_progs (ks_cgroups st cg) = []"
  shows "map pl_prog (cb_progs (ks_cgroups st2 cg)) = [Some prog2]" "cb_progs (ks_cgroups st3 cg) = []"
proof -
  have attr: "pa_attach_flags (attach_attr p cfd) = 0" "pa_relative_fd (attach_attr p cfd) = 0"
    "pa_expected_revision (attach_attr p cfd) = 0" "se_cgroup_fd sys (pa_target_fd (attach_attr p cfd)) = Inr cg" for p
    using assms(6) by (simp_all add: attach_attr_def)
  note s1 = attach_single [OF assms(1) [unfolded assms(4)] attr(1,2,4)]
  note s2 = attach_single [OF assms(2) [unfolded assms(5)] attr(1,2,4)]
  have "length (cb_progs (ks_cgroups st1 cg)) \<le> 1" using s1(1) [of cg] assms(7) by simp
  then have two: "cb_progs (ks_cgroups st2 cg) = [\<lparr>pl_prog = Some prog2, pl_link = None, pl_flags = 0\<rparr>]" "cb_flags (ks_cgroups st2 cg) = 0"
    using s2 by simp_all
  then show "map pl_prog (cb_progs (ks_cgroups st2 cg)) = [Some prog2]" by simp
  show "cb_progs (ks_cgroups st3 cg) = []"
    using detach_single(2) [OF assms(3) [unfolded assms(4)] attr(3,4) two, of cg] by simp
qed

subsection \<open>Identifiers and trees\<close>

lemma cgroup_id_nonzero: "namei_ext_cgroup_id env = Inr cgid \<Longrightarrow> cgid \<noteq> 0"
  by (auto simp: namei_ext_cgroup_id_def Let_def split: option.splits prod.splits sum.splits if_splits)

lemma remove_tree_all:
  assumes "\<And>p. remove p" "path \<noteq> []" "tree path = Some (FNode name ts)"
  shows "\<exists>below. namei_ext_remove_tree remove (Some path) tree = below @ [name] \<and>
           (\<forall>p\<in>set below. \<exists>q. p = name @ ''/'' @ q)"
proof -
  let ?below = "concat (map (nftw_order (name @ ''/'')) ts)"
  have "\<exists>q. p = name @ ''/'' @ q" if "p \<in> set ?below" for p
  proof -
    from that obtain t where t: "t \<in> set ts" "p \<in> set (nftw_order (name @ ''/'') t)" by auto
    then show ?thesis using nftw_below [OF t(2)] by (auto split: ftree.splits)
  qed
  moreover have "namei_ext_remove_tree remove (Some path) tree = ?below @ [name]"
  proof -
    have "remove_callback remove = (\<lambda>_. True)" using assms(1) by (simp add: fun_eq_iff remove_callback_def)
    then show ?thesis using assms(2,3) by (simp add: namei_ext_remove_tree_def takeWhile_eq_all_conv [THEN iffD2])
  qed
  ultimately show ?thesis by blast
qed

end
