(* ===== verification/Policies_Agent.thy ===== *)
theory Policies_Agent
  imports Policy_Lib
begin

text \<open>
  The agent-workspace policies: \<open>agent_workspace_view\<close> selects the registered
  workspace for \<open>ws\<close> and whites out \<open>deleted.txt\<close>; \<open>agent_workspace_source_task\<close>
  selects a per-cgroup target for \<open>ws\<close> and hides it where none is configured.
\<close>

subsection \<open>agent\_workspace\_view\<close>

datatype aw_counter =
    AW_COUNTER_TOTAL | AW_COUNTER_LOOKUP | AW_COUNTER_READDIR | AW_COUNTER_SELECT_WS_LOOKUP
  | AW_COUNTER_HIDE_DELETED_LOOKUP | AW_COUNTER_HIDE_DELETED_READDIR | AW_COUNTER_PASS

primrec aw_code :: "aw_counter \<Rightarrow> u32" where
  "aw_code AW_COUNTER_TOTAL = 0"
| "aw_code AW_COUNTER_LOOKUP = 1"
| "aw_code AW_COUNTER_READDIR = 2"
| "aw_code AW_COUNTER_SELECT_WS_LOOKUP = 3"
| "aw_code AW_COUNTER_HIDE_DELETED_LOOKUP = 4"
| "aw_code AW_COUNTER_HIDE_DELETED_READDIR = 5"
| "aw_code AW_COUNTER_PASS = 6"

record aw_maps =
  aw_counters :: "u64 list"

definition aw_count_event :: "aw_counter \<Rightarrow> aw_maps \<Rightarrow> aw_maps" where
  "aw_count_event k m = m\<lparr>aw_counters := count_array (aw_code k) (aw_counters m)\<rparr>"

definition agent_workspace_view_policy :: "aw_maps policy" where
  "agent_workspace_view_policy c m =
     (let m = aw_count_event AW_COUNTER_TOTAL m;
          m = (if c_event c = BPF_NAMEI_EXT_LOOKUP then aw_count_event AW_COUNTER_LOOKUP m else m);
          m = (if c_event c = BPF_NAMEI_EXT_READDIR then aw_count_event AW_COUNTER_READDIR m else m)
      in
      if c_event c = BPF_NAMEI_EXT_LOOKUP \<and> namei_ext_is c ''ws'' then
        (BPF_NAMEI_EXT_SELECT_TARGET, c\<lparr>c_target_id := 1\<rparr>,
         aw_count_event AW_COUNTER_SELECT_WS_LOOKUP m)
      else if (c_event c = BPF_NAMEI_EXT_LOOKUP \<or> c_event c = BPF_NAMEI_EXT_READDIR) \<and>
              namei_ext_is c ''deleted.txt'' then
        (BPF_NAMEI_EXT_HIDE, c,
         if c_event c = BPF_NAMEI_EXT_LOOKUP
         then aw_count_event AW_COUNTER_HIDE_DELETED_LOOKUP m
         else aw_count_event AW_COUNTER_HIDE_DELETED_READDIR m)
      else (BPF_NAMEI_EXT_PASS, c, aw_count_event AW_COUNTER_PASS m))"

interpretation agent_workspace_view: namei_policy agent_workspace_view_policy
  by unfold_locales (simp_all add: agent_workspace_view_policy_def Let_def ctx_wf_def)

interpretation aw_counting: counting_policy agent_workspace_view_policy aw_counters 7 0 "[3, 4, 5, 6]"
  by unfold_locales
     (simp_all add: agent_workspace_view_policy_def aw_count_event_def Let_def verdict_sum_def
       count_array_nth)

interpretation aw_coherent: coherent_policy agent_workspace_view_policy "\<lambda>_. ()"
  by unfold_locales (auto simp: agent_workspace_view_policy_def Let_def dest: namei_ext_is_unique)

subsection \<open>agent\_workspace\_source\_task\<close>

datatype ast_counter =
    AST_COUNTER_TOTAL | AST_COUNTER_LOOKUP | AST_COUNTER_READDIR | AST_COUNTER_SELECT
  | AST_COUNTER_HIDE_LOOKUP | AST_COUNTER_HIDE_READDIR | AST_COUNTER_PASS

primrec ast_code :: "ast_counter \<Rightarrow> u32" where
  "ast_code AST_COUNTER_TOTAL = 0"
| "ast_code AST_COUNTER_LOOKUP = 1"
| "ast_code AST_COUNTER_READDIR = 2"
| "ast_code AST_COUNTER_SELECT = 3"
| "ast_code AST_COUNTER_HIDE_LOOKUP = 4"
| "ast_code AST_COUNTER_HIDE_READDIR = 5"
| "ast_code AST_COUNTER_PASS = 6"

definition AGENT_SOURCE_TASK_TARGET_MAX :: u32 where
  "AGENT_SOURCE_TASK_TARGET_MAX = 5"

record ast_maps =
  ast_views :: "ckey \<rightharpoonup> u32"
  ast_counters :: "u64 list"
  ast_target_hits :: "u64 list"

definition ast_count :: "ast_counter \<Rightarrow> ast_maps \<Rightarrow> ast_maps" where
  "ast_count k m = m\<lparr>ast_counters := count_array (ast_code k) (ast_counters m)\<rparr>"

definition ast_hit :: "u32 \<Rightarrow> ast_maps \<Rightarrow> ast_maps" where
  "ast_hit t m = m\<lparr>ast_target_hits := count_array t (ast_target_hits m)\<rparr>"

definition agent_workspace_source_task_policy :: "ast_maps policy" where
  "agent_workspace_source_task_policy c m =
     (let m = ast_count AST_COUNTER_TOTAL m in
      if c_event c \<noteq> BPF_NAMEI_EXT_LOOKUP \<and> c_event c \<noteq> BPF_NAMEI_EXT_READDIR then
        (BPF_NAMEI_EXT_PASS, c, ast_count AST_COUNTER_PASS m)
      else
        let m = (if c_event c = BPF_NAMEI_EXT_LOOKUP then ast_count AST_COUNTER_LOOKUP m
                 else ast_count AST_COUNTER_READDIR m) in
        if \<not> namei_ext_is c ''ws'' then (BPF_NAMEI_EXT_PASS, c, ast_count AST_COUNTER_PASS m)
        else
          let key = (namei_ext_build_component_key c zero_component_key)\<lparr>k_event := 0\<rparr> in
          case ast_views m key of
            None \<Rightarrow>
              (BPF_NAMEI_EXT_HIDE, c,
               if c_event c = BPF_NAMEI_EXT_LOOKUP then ast_count AST_COUNTER_HIDE_LOOKUP m
               else ast_count AST_COUNTER_HIDE_READDIR m)
          | Some t \<Rightarrow>
              if t = 0 then
                (BPF_NAMEI_EXT_HIDE, c,
                 if c_event c = BPF_NAMEI_EXT_LOOKUP then ast_count AST_COUNTER_HIDE_LOOKUP m
                 else ast_count AST_COUNTER_HIDE_READDIR m)
              else if c_event c = BPF_NAMEI_EXT_READDIR then
                (BPF_NAMEI_EXT_PASS, c, ast_count AST_COUNTER_PASS m)
              else
                (BPF_NAMEI_EXT_SELECT_TARGET, c\<lparr>c_target_id := t\<rparr>,
                 let m = ast_count AST_COUNTER_SELECT m
                 in if t < AGENT_SOURCE_TASK_TARGET_MAX then ast_hit t m else m))"

lemmas ast_defs = agent_workspace_source_task_policy_def ast_count_def ast_hit_def Let_def

interpretation agent_workspace_source_task: namei_policy agent_workspace_source_task_policy
  by unfold_locales (auto simp: ast_defs ctx_wf_def split: option.split)

interpretation ast_counting:
  counting_policy agent_workspace_source_task_policy ast_counters 7 0 "[3, 4, 5, 6]"
  by unfold_locales
     (auto simp: ast_defs verdict_sum_def count_array_nth split: option.split)

interpretation ast_coherent: coherent_policy agent_workspace_source_task_policy ast_views
  by unfold_locales (auto simp: ast_defs split: option.split)

end
