(* ===== verification/Policies_Staging.thy ===== *)
theory Policies_Staging
  imports Policy_Lib
begin

text \<open>
  The policies that select registered targets through an exact component map:
  \<open>build_action_sandboxing\<close>, \<open>toolchain_environment\<close>, \<open>spindle_staging\<close>,
  \<open>semantic_continuation\<close> and \<open>checkpoint_restore_migration\<close>.
\<close>

subsection \<open>build\_action\_sandboxing\<close>

datatype bas_counter =
    BAS_COUNTER_TOTAL | BAS_COUNTER_LOOKUP | BAS_COUNTER_READDIR | BAS_COUNTER_SELECT
  | BAS_COUNTER_ALLOW_LOOKUP | BAS_COUNTER_ALLOW_READDIR | BAS_COUNTER_HIDE_LOOKUP
  | BAS_COUNTER_HIDE_READDIR | BAS_COUNTER_PASS

primrec bas_code :: "bas_counter \<Rightarrow> u32" where
  "bas_code BAS_COUNTER_TOTAL = 0"
| "bas_code BAS_COUNTER_LOOKUP = 1"
| "bas_code BAS_COUNTER_READDIR = 2"
| "bas_code BAS_COUNTER_SELECT = 3"
| "bas_code BAS_COUNTER_ALLOW_LOOKUP = 4"
| "bas_code BAS_COUNTER_ALLOW_READDIR = 5"
| "bas_code BAS_COUNTER_HIDE_LOOKUP = 6"
| "bas_code BAS_COUNTER_HIDE_READDIR = 7"
| "bas_code BAS_COUNTER_PASS = 8"

record bas_maps =
  build_action_views :: "ckey \<rightharpoonup> u32"
  build_action_roots :: "ckey \<rightharpoonup> u32"
  build_action_declared_inputs :: "ckey \<rightharpoonup> u32"
  bas_counters :: "u64 list"

definition bas_count_event :: "bas_counter \<Rightarrow> bas_maps \<Rightarrow> bas_maps" where
  "bas_count_event k m = m\<lparr>bas_counters := count_array (bas_code k) (bas_counters m)\<rparr>"

text \<open>\<^verbatim>\<open>p && *p\<close> for a looked-up \<open>__u32\<close>.\<close>

definition is_set :: "u32 option \<Rightarrow> bool" where
  "is_set v \<longleftrightarrow> (\<exists>t. v = Some t \<and> t \<noteq> 0)"

lemma is_set_code [code]: "is_set v = (case v of None \<Rightarrow> False | Some t \<Rightarrow> t \<noteq> 0)"
  by (auto simp: is_set_def split: option.split)

definition build_action_sandboxing_policy :: "bas_maps policy" where
  "build_action_sandboxing_policy c m =
     (let m = bas_count_event BAS_COUNTER_TOTAL m;
          m = (if c_event c = BPF_NAMEI_EXT_LOOKUP then bas_count_event BAS_COUNTER_LOOKUP m
               else if c_event c = BPF_NAMEI_EXT_READDIR then bas_count_event BAS_COUNTER_READDIR m
               else m);
          key = (namei_ext_build_component_key c zero_component_key)\<lparr>k_event := 0\<rparr>;
          root_key = zero_component_key\<lparr>k_cgroup_id := k_cgroup_id key,
                       k_parent_dev := k_parent_dev key, k_parent_ino := k_parent_ino key\<rparr>
      in
      if is_set (build_action_roots m root_key) then
        (if is_set (build_action_declared_inputs m key) then
           (BPF_NAMEI_EXT_PASS, c,
            if c_event c = BPF_NAMEI_EXT_READDIR then bas_count_event BAS_COUNTER_ALLOW_READDIR m
            else bas_count_event BAS_COUNTER_ALLOW_LOOKUP m)
         else
           (BPF_NAMEI_EXT_HIDE, c,
            if c_event c = BPF_NAMEI_EXT_READDIR then bas_count_event BAS_COUNTER_HIDE_READDIR m
            else bas_count_event BAS_COUNTER_HIDE_LOOKUP m))
      else if is_set (build_action_views m key) \<and> c_event c = BPF_NAMEI_EXT_LOOKUP then
        (BPF_NAMEI_EXT_SELECT_TARGET, c\<lparr>c_target_id := the (build_action_views m key)\<rparr>,
         bas_count_event BAS_COUNTER_SELECT m)
      else (BPF_NAMEI_EXT_PASS, c, bas_count_event BAS_COUNTER_PASS m))"

lemmas bas_defs = build_action_sandboxing_policy_def bas_count_event_def Let_def

interpretation build_action_sandboxing: namei_policy build_action_sandboxing_policy
  by unfold_locales (auto simp: bas_defs ctx_wf_def)

interpretation bas_counting:
  counting_policy build_action_sandboxing_policy bas_counters 9 0 "[3, 4, 5, 6, 7, 8]"
  by unfold_locales (auto simp: bas_defs verdict_sum_def count_array_nth)

interpretation bas_coherent:
  coherent_policy build_action_sandboxing_policy
    "\<lambda>m. (build_action_views m, build_action_roots m, build_action_declared_inputs m)"
  by unfold_locales (auto simp: bas_defs)

subsection \<open>toolchain\_environment\<close>

datatype te_counter = TE_COUNTER_TOTAL | TE_COUNTER_LOOKUP | TE_COUNTER_SELECT | TE_COUNTER_PASS

primrec te_code :: "te_counter \<Rightarrow> u32" where
  "te_code TE_COUNTER_TOTAL = 0"
| "te_code TE_COUNTER_LOOKUP = 1"
| "te_code TE_COUNTER_SELECT = 2"
| "te_code TE_COUNTER_PASS = 3"

record te_maps =
  toolchain_views :: "ckey \<rightharpoonup> u32"
  te_counters :: "u64 list"
  te_target_hits :: "u64 list"

definition te_count :: "te_counter \<Rightarrow> te_maps \<Rightarrow> te_maps" where
  "te_count k m = m\<lparr>te_counters := count_array (te_code k) (te_counters m)\<rparr>"

definition te_hit :: "u32 \<Rightarrow> te_maps \<Rightarrow> te_maps" where
  "te_hit t m = m\<lparr>te_target_hits := count_array t (te_target_hits m)\<rparr>"

definition toolchain_environment_policy :: "te_maps policy" where
  "toolchain_environment_policy c m =
     (let m = te_count TE_COUNTER_TOTAL m in
      if c_event c \<noteq> BPF_NAMEI_EXT_LOOKUP then
        (BPF_NAMEI_EXT_PASS, c, te_count TE_COUNTER_PASS m)
      else
        let m = te_count TE_COUNTER_LOOKUP m;
            key = (namei_ext_build_component_key c zero_component_key)\<lparr>k_event := 0\<rparr>
        in
        case toolchain_views m key of
          None \<Rightarrow> (BPF_NAMEI_EXT_PASS, c, te_count TE_COUNTER_PASS m)
        | Some t \<Rightarrow>
            if t = 0 then (BPF_NAMEI_EXT_PASS, c, te_count TE_COUNTER_PASS m)
            else (BPF_NAMEI_EXT_SELECT_TARGET, c\<lparr>c_target_id := t\<rparr>,
                  te_hit t (te_count TE_COUNTER_SELECT m)))"

lemmas te_defs = toolchain_environment_policy_def te_count_def te_hit_def Let_def

interpretation toolchain_environment: namei_policy toolchain_environment_policy
  by unfold_locales (auto simp: te_defs ctx_wf_def split: option.split)

interpretation te_counting: counting_policy toolchain_environment_policy te_counters 4 0 "[2, 3]"
  by unfold_locales (auto simp: te_defs verdict_sum_def count_array_nth split: option.split)

interpretation te_coherent: coherent_policy toolchain_environment_policy toolchain_views
  by unfold_locales (auto simp: te_defs split: option.split)

subsection \<open>spindle\_staging\<close>

datatype spindle_counter =
    SPINDLE_COUNTER_TOTAL | SPINDLE_COUNTER_LOOKUP | SPINDLE_COUNTER_SELECT
  | SPINDLE_COUNTER_PASS | SPINDLE_COUNTER_READDIR | SPINDLE_COUNTER_HIDE_LOOKUP
  | SPINDLE_COUNTER_HIDE_READDIR

primrec spindle_code :: "spindle_counter \<Rightarrow> u32" where
  "spindle_code SPINDLE_COUNTER_TOTAL = 0"
| "spindle_code SPINDLE_COUNTER_LOOKUP = 1"
| "spindle_code SPINDLE_COUNTER_SELECT = 2"
| "spindle_code SPINDLE_COUNTER_PASS = 3"
| "spindle_code SPINDLE_COUNTER_READDIR = 4"
| "spindle_code SPINDLE_COUNTER_HIDE_LOOKUP = 5"
| "spindle_code SPINDLE_COUNTER_HIDE_READDIR = 6"

definition SPINDLE_TARGET_MAX :: u32 where
  "SPINDLE_TARGET_MAX = 64"

record spindle_maps =
  spindle_rules :: "ckey \<rightharpoonup> u32"
  spindle_counters :: "u64 list"
  spindle_rule_hits :: "u64 list"

definition spindle_count :: "spindle_counter \<Rightarrow> spindle_maps \<Rightarrow> spindle_maps" where
  "spindle_count k m = m\<lparr>spindle_counters := count_array (spindle_code k) (spindle_counters m)\<rparr>"

definition spindle_hit :: "u32 \<Rightarrow> spindle_maps \<Rightarrow> spindle_maps" where
  "spindle_hit t m = m\<lparr>spindle_rule_hits := count_array t (spindle_rule_hits m)\<rparr>"

definition spindle_staging_policy :: "spindle_maps policy" where
  "spindle_staging_policy c m =
     (let m = spindle_count SPINDLE_COUNTER_TOTAL m in
      if c_event c \<noteq> BPF_NAMEI_EXT_LOOKUP \<and> c_event c \<noteq> BPF_NAMEI_EXT_READDIR then
        (BPF_NAMEI_EXT_PASS, c, spindle_count SPINDLE_COUNTER_PASS m)
      else
        let m = (if c_event c = BPF_NAMEI_EXT_LOOKUP then spindle_count SPINDLE_COUNTER_LOOKUP m
                 else spindle_count SPINDLE_COUNTER_READDIR m);
            key = (namei_ext_build_component_key c zero_component_key)\<lparr>k_event := 0\<rparr>
        in
        case spindle_rules m key of
          None \<Rightarrow> (BPF_NAMEI_EXT_PASS, c, spindle_count SPINDLE_COUNTER_PASS m)
        | Some t \<Rightarrow>
            if t = 0 then
              (BPF_NAMEI_EXT_HIDE, c,
               if c_event c = BPF_NAMEI_EXT_READDIR
               then spindle_count SPINDLE_COUNTER_HIDE_READDIR m
               else spindle_count SPINDLE_COUNTER_HIDE_LOOKUP m)
            else if c_event c \<noteq> BPF_NAMEI_EXT_LOOKUP \<or> t \<ge> SPINDLE_TARGET_MAX then
              (BPF_NAMEI_EXT_PASS, c, spindle_count SPINDLE_COUNTER_PASS m)
            else
              (BPF_NAMEI_EXT_SELECT_TARGET, c\<lparr>c_target_id := t\<rparr>,
               spindle_hit t (spindle_count SPINDLE_COUNTER_SELECT m)))"

lemmas spindle_defs = spindle_staging_policy_def spindle_count_def spindle_hit_def Let_def

interpretation spindle_staging: namei_policy spindle_staging_policy
  by unfold_locales (auto simp: spindle_defs ctx_wf_def split: option.split)

interpretation spindle_counting:
  counting_policy spindle_staging_policy spindle_counters 7 0 "[2, 3, 5, 6]"
  by unfold_locales (auto simp: spindle_defs verdict_sum_def count_array_nth split: option.split)

interpretation spindle_coherent: coherent_policy spindle_staging_policy spindle_rules
  by unfold_locales (auto simp: spindle_defs split: option.split)

subsection \<open>semantic\_continuation\<close>

datatype sc_counter =
  SC_COUNTER_TOTAL | SC_COUNTER_LOOKUP | SC_COUNTER_SELECT | SC_COUNTER_PASS | SC_COUNTER_READDIR

primrec sc_code :: "sc_counter \<Rightarrow> u32" where
  "sc_code SC_COUNTER_TOTAL = 0"
| "sc_code SC_COUNTER_LOOKUP = 1"
| "sc_code SC_COUNTER_SELECT = 2"
| "sc_code SC_COUNTER_PASS = 3"
| "sc_code SC_COUNTER_READDIR = 4"

definition SEMANTIC_CONTINUATION_TARGET_MAX :: u32 where
  "SEMANTIC_CONTINUATION_TARGET_MAX = 4"

record sc_maps =
  sc_views :: "ckey \<rightharpoonup> u32"
  sc_counters :: "u64 list"
  sc_target_hits :: "u64 list"

definition sc_count :: "sc_counter \<Rightarrow> sc_maps \<Rightarrow> sc_maps" where
  "sc_count k m = m\<lparr>sc_counters := count_array (sc_code k) (sc_counters m)\<rparr>"

definition sc_hit :: "u32 \<Rightarrow> sc_maps \<Rightarrow> sc_maps" where
  "sc_hit t m = m\<lparr>sc_target_hits := count_array t (sc_target_hits m)\<rparr>"

definition semantic_continuation_policy :: "sc_maps policy" where
  "semantic_continuation_policy c m =
     (let m = sc_count SC_COUNTER_TOTAL m in
      if c_event c = BPF_NAMEI_EXT_READDIR then
        (BPF_NAMEI_EXT_PASS, c, sc_count SC_COUNTER_PASS (sc_count SC_COUNTER_READDIR m))
      else if c_event c \<noteq> BPF_NAMEI_EXT_LOOKUP then
        (BPF_NAMEI_EXT_PASS, c, sc_count SC_COUNTER_PASS m)
      else
        let m = sc_count SC_COUNTER_LOOKUP m;
            key = (namei_ext_build_component_key c zero_component_key)\<lparr>k_event := 0\<rparr>
        in
        case sc_views m key of
          None \<Rightarrow> (BPF_NAMEI_EXT_PASS, c, sc_count SC_COUNTER_PASS m)
        | Some t \<Rightarrow>
            if t = 0 \<or> t \<ge> SEMANTIC_CONTINUATION_TARGET_MAX then
              (BPF_NAMEI_EXT_PASS, c, sc_count SC_COUNTER_PASS m)
            else
              (BPF_NAMEI_EXT_SELECT_TARGET, c\<lparr>c_target_id := t\<rparr>,
               sc_hit t (sc_count SC_COUNTER_SELECT m)))"

lemmas sc_defs = semantic_continuation_policy_def sc_count_def sc_hit_def Let_def

interpretation semantic_continuation: namei_policy semantic_continuation_policy
  by unfold_locales (auto simp: sc_defs ctx_wf_def split: option.split)

interpretation sc_counting: counting_policy semantic_continuation_policy sc_counters 5 0 "[2, 3]"
  by unfold_locales (auto simp: sc_defs verdict_sum_def count_array_nth split: option.split)

interpretation sc_coherent: coherent_policy semantic_continuation_policy sc_views
  by unfold_locales (auto simp: sc_defs split: option.split)

subsection \<open>checkpoint\_restore\_migration\<close>

datatype cr_counter = CR_COUNTER_TOTAL | CR_COUNTER_LOOKUP | CR_COUNTER_SELECT | CR_COUNTER_PASS

primrec cr_code :: "cr_counter \<Rightarrow> u32" where
  "cr_code CR_COUNTER_TOTAL = 0"
| "cr_code CR_COUNTER_LOOKUP = 1"
| "cr_code CR_COUNTER_SELECT = 2"
| "cr_code CR_COUNTER_PASS = 3"

record cr_maps =
  checkpoint_restore_views :: "ckey \<rightharpoonup> u32"
  cr_counters :: "u64 list"

definition cr_count_event :: "cr_counter \<Rightarrow> cr_maps \<Rightarrow> cr_maps" where
  "cr_count_event k m = m\<lparr>cr_counters := count_array (cr_code k) (cr_counters m)\<rparr>"

definition checkpoint_restore_migration_policy :: "cr_maps policy" where
  "checkpoint_restore_migration_policy c m =
     (let m = cr_count_event CR_COUNTER_TOTAL m in
      if c_event c \<noteq> BPF_NAMEI_EXT_LOOKUP then
        (BPF_NAMEI_EXT_PASS, c, cr_count_event CR_COUNTER_PASS m)
      else
        let m = cr_count_event CR_COUNTER_LOOKUP m;
            key = (namei_ext_build_component_key c zero_component_key)\<lparr>k_event := 0\<rparr>
        in
        case checkpoint_restore_views m key of
          None \<Rightarrow> (BPF_NAMEI_EXT_PASS, c, cr_count_event CR_COUNTER_PASS m)
        | Some t \<Rightarrow>
            if t = 0 then (BPF_NAMEI_EXT_PASS, c, cr_count_event CR_COUNTER_PASS m)
            else (BPF_NAMEI_EXT_SELECT_TARGET, c\<lparr>c_target_id := t\<rparr>,
                  cr_count_event CR_COUNTER_SELECT m))"

lemmas cr_defs = checkpoint_restore_migration_policy_def cr_count_event_def Let_def

interpretation checkpoint_restore_migration: namei_policy checkpoint_restore_migration_policy
  by unfold_locales (auto simp: cr_defs ctx_wf_def split: option.split)

interpretation cr_counting:
  counting_policy checkpoint_restore_migration_policy cr_counters 4 0 "[2, 3]"
  by unfold_locales (auto simp: cr_defs verdict_sum_def count_array_nth split: option.split)

interpretation cr_coherent:
  coherent_policy checkpoint_restore_migration_policy checkpoint_restore_views
  by unfold_locales (auto simp: cr_defs split: option.split)

end
