(* ===== verification/Readdir.thy ===== *)
theory Readdir
  imports Walk_Props Policies_Agent Policies_Sharing Policies_Staging
begin

text \<open>
  Enumeration of a directory: \<open>namei_ext_filldir\<close> and \<open>namei_ext_iterate_dir\<close> of
  \<open>fs/namei_ext.c\<close>, and \<open>iterate_dir\<close> of \<open>fs/readdir.c\<close>, which chooses between them and the
  file system's own iterator.

  A file system's \<open>iterate_shared\<close> is outside the sources and is an argument. What it can do
  with a \<open>struct dir_context\<close> is to set the position and to offer an entry to the actor,
  going on according to the actor's answer; so a call of it is a finite tree of such steps,
  and the argument is the tree it runs from each start position.
\<close>

subsection \<open>Contexts, actors and iterators\<close>

record dirent =
  de_name :: bytes
  de_offset :: int
  de_ino :: u64
  de_type :: u32

text \<open>\<open>dc_owner\<close> is the structure the context is embedded in (\<open>container_of\<close>).\<close>

record 'x dir_context =
  dc_pos :: int
  dc_count :: int
  dc_dt_flags_mask :: u32
  dc_owner :: 'x

type_synonym 'x actor = "bytes \<Rightarrow> int \<Rightarrow> u64 \<Rightarrow> u32 \<Rightarrow> 'x dir_context \<Rightarrow> bool \<times> 'x dir_context"

datatype iter_tree =
    Iter_return "errno option"
  | Iter_set_pos int iter_tree
  | Iter_emit dirent iter_tree iter_tree

primrec run_iter :: "iter_tree \<Rightarrow> 'x actor \<Rightarrow> 'x dir_context \<Rightarrow> errno option \<times> 'x dir_context" where
  "run_iter (Iter_return ret) actor ctx = (ret, ctx)"
| "run_iter (Iter_set_pos p t) actor ctx = run_iter t actor (ctx\<lparr>dc_pos := p\<rparr>)"
| "run_iter (Iter_emit e yes no) actor ctx =
     (let (ok, ctx) = actor (de_name e) (de_offset e) (de_ino e) (de_type e) ctx
      in if ok then run_iter yes actor ctx else run_iter no actor ctx)"

record dir_file =
  f_path :: path
  f_inode :: "inode option"
  f_pos :: int

subsection \<open>The filtering actor\<close>

text \<open>
  \<open>struct namei_ext_dir_context\<close> less its embedded context, the file and the cgroup; the
  maps of the programs travel with it.
\<close>

record ('b, 'm) namei_ext_dir_context =
  nc_orig :: "'b dir_context"
  nc_error :: "errno option"
  nc_maps :: 'm

text \<open>
  Handing an entry to the caller's actor: the position, count and mask go out before the
  call and come back after it, unless the actor refuses the entry.
\<close>

definition namei_ext_forward ::
  "'b actor \<Rightarrow> ('b, 'm) namei_ext_dir_context actor" where
  "namei_ext_forward actor name offset ino d_type ctx =
     (let orig = (nc_orig (dc_owner ctx))\<lparr>dc_pos := dc_pos ctx, dc_count := dc_count ctx,
                   dc_dt_flags_mask := dc_dt_flags_mask ctx\<rparr>;
          (ok, orig) = actor name offset ino d_type orig;
          ctx = ctx\<lparr>dc_owner := (dc_owner ctx)\<lparr>nc_orig := orig\<rparr>\<rparr>
      in if \<not> ok then (False, ctx)
         else (True, ctx\<lparr>dc_pos := dc_pos orig, dc_count := dc_count orig,
                         dc_dt_flags_mask := dc_dt_flags_mask orig\<rparr>))"

definition namei_ext_filldir ::
  "'m runner \<Rightarrow> (u64 \<Rightarrow> inode option) \<Rightarrow> (u64 \<Rightarrow> bytes \<Rightarrow> u32 \<Rightarrow> u32) \<Rightarrow> dir_file \<Rightarrow> u64 \<Rightarrow> kstate \<Rightarrow>
     'b actor \<Rightarrow> ('b, 'm) namei_ext_dir_context actor" where
  "namei_ext_filldir run backing fnh file cgrp st actor name offset ino d_type ctx =
     (let namlen = of_nat (length name);
          qname = \<lparr>q_name = name, q_len = namlen, q_hash = fnh (p_dentry (f_path file)) name namlen\<rparr>;
          bpf_ctx = namei_ext_init_ctx backing (Some (f_path file)) (f_inode file) BPF_NAMEI_EXT_READDIR 0 qname;
          (action, bpf_ctx, m) = cgroup_bpf_run_namei_ext_cgroup run cgrp bpf_ctx st (nc_maps (dc_owner ctx));
          ctx = ctx\<lparr>dc_owner := (dc_owner ctx)\<lparr>nc_maps := m\<rparr>\<rparr>;
          fail = (\<lambda>e. (False, ctx\<lparr>dc_owner := (dc_owner ctx)\<lparr>nc_error := Some e\<rparr>\<rparr>))
      in case action of
           Inl e \<Rightarrow> fail e
         | Inr a \<Rightarrow>
             if a = BPF_NAMEI_EXT_PASS then namei_ext_forward actor name offset ino d_type ctx
             else if a = BPF_NAMEI_EXT_REDIRECT then
               (if \<not> namei_ext_redirect_valid bpf_ctx then fail EINVAL
                else namei_ext_forward actor (redirect_text bpf_ctx) offset ino d_type ctx)
             else if a = BPF_NAMEI_EXT_HIDE then (True, ctx)
             else if a = BPF_NAMEI_EXT_SELECT_TARGET then fail EOPNOTSUPP
             else fail EINVAL)"

definition namei_ext_iterate_dir ::
  "'m runner \<Rightarrow> (u64 \<Rightarrow> inode option) \<Rightarrow> (u64 \<Rightarrow> bytes \<Rightarrow> u32 \<Rightarrow> u32) \<Rightarrow> u64 \<Rightarrow> bool \<Rightarrow> dir_file \<Rightarrow> 'b actor \<Rightarrow>
     (int \<Rightarrow> iter_tree) \<Rightarrow> 'b dir_context \<Rightarrow> kstate \<Rightarrow> 'm \<Rightarrow> errno option \<times> 'b dir_context \<times> kstate \<times> 'm" where
  "namei_ext_iterate_dir run backing fnh current tryget file actor iter ctx st m =
     (case cgroup_bpf_get_namei_ext_cgroup current tryget (f_path file) st of
        (None, st) \<Rightarrow> (let (ret, ctx) = run_iter (iter (dc_pos ctx)) actor ctx in (ret, ctx, st, m))
      | (Some cgrp, st) \<Rightarrow>
          let namei_ctx = \<lparr>dc_pos = dc_pos ctx, dc_count = dc_count ctx,
                dc_dt_flags_mask = dc_dt_flags_mask ctx,
                dc_owner = \<lparr>nc_orig = ctx, nc_error = None, nc_maps = m\<rparr>\<rparr>;
              (ret, namei_ctx) = run_iter (iter (dc_pos namei_ctx))
                (namei_ext_filldir run backing fnh file cgrp st actor) namei_ctx;
              own = dc_owner namei_ctx;
              ctx = (nc_orig own)\<lparr>dc_pos := dc_pos namei_ctx, dc_count := dc_count namei_ctx,
                     dc_dt_flags_mask := dc_dt_flags_mask namei_ctx\<rparr>;
              ret = (if ret = None \<and> nc_error own \<noteq> None then nc_error own else ret)
          in (ret, ctx, cgroup_put cgrp (cgroup_bpf_put cgrp st), nc_maps own))"

text \<open>
  The checks before the enumeration, as \<open>iterate_dir\<close> finds them: whether the file system
  has an iterator, what the permission hooks and the lock answer, whether the directory is
  dead.
\<close>

record dir_checks =
  ck_iterate_shared :: bool
  ck_permission :: "errno option"
  ck_fsnotify_perm :: "errno option"
  ck_lock :: "errno option"
  ck_deaddir :: bool

definition iterate_dir ::
  "'m runner \<Rightarrow> (u64 \<Rightarrow> inode option) \<Rightarrow> (u64 \<Rightarrow> bytes \<Rightarrow> u32 \<Rightarrow> u32) \<Rightarrow> hashfn \<Rightarrow> u64 \<Rightarrow> bool \<Rightarrow> dir_checks \<Rightarrow>
     'b actor \<Rightarrow> (int \<Rightarrow> iter_tree) \<Rightarrow> dir_file \<Rightarrow> 'b dir_context \<Rightarrow> kstate \<Rightarrow> 'm \<Rightarrow>
     errno option \<times> dir_file \<times> 'b dir_context \<times> kstate \<times> 'm" where
  "iterate_dir run backing fnh hb current tryget ck actor iter file ctx st m =
     (if \<not> ck_iterate_shared ck then (Some ENOTDIR, file, ctx, st, m)
      else case ck_permission ck of Some e \<Rightarrow> (Some e, file, ctx, st, m) | None \<Rightarrow>
      case ck_fsnotify_perm ck of Some e \<Rightarrow> (Some e, file, ctx, st, m) | None \<Rightarrow>
      case ck_lock ck of Some e \<Rightarrow> (Some e, file, ctx, st, m) | None \<Rightarrow>
      if ck_deaddir ck then (Some ENOENT, file, ctx, st, m)
      else
        let ctx = ctx\<lparr>dc_pos := f_pos file\<rparr>;
            (res, ctx, st, m) =
              (if namei_ext_enabled st \<and> namei_ext_parent_maybe_managed hb (f_path file) st
               then namei_ext_iterate_dir run backing fnh current tryget file actor iter ctx st m
               else let (ret, ctx) = run_iter (iter (dc_pos ctx)) actor ctx in (ret, ctx, st, m))
        in (res, file\<lparr>f_pos := dc_pos ctx\<rparr>, ctx, st, m))"

subsection \<open>References\<close>

lemma get_namei_ext_cgroup_cases:
  assumes "cgroup_bpf_get_namei_ext_cgroup current tryget parent st = (r, st')"
  shows "r = None \<and> st' = st \<or> r = Some current \<and> st' = cgroup_get current (cgroup_bpf_get current st)"
  using assms
  by (auto simp: cgroup_bpf_get_namei_ext_cgroup_def cgroup_ref_defs Let_def
      split: option.splits if_splits intro!: kstate.equality)

lemma iterate_dir_refs:
  assumes "namei_ext_iterate_dir run backing fnh current tryget file actor iter ctx st m = (ret, ctx', st', m')"
  shows "st' = st"
  using assms get_namei_ext_cgroup_cases [of current tryget "f_path file" st]
    put_cgroup_balance [of current st]
  by (auto simp: namei_ext_iterate_dir_def namei_ext_put_cgroup_def Let_def split: prod.splits option.splits)

subsection \<open>What the filtered enumeration is\<close>

text \<open>
  The reference: the policy edits the tree of the file system's own iterator. An entry it
  passes is offered as it is, a redirected one under its new name, a hidden one is taken for
  accepted and a faulty verdict for refused. \<open>edit_maps\<close> and \<open>edit_error\<close> are the maps and
  the pending error after the run; they depend on which entries the caller's actor accepts.
\<close>

definition readdir_verdict ::
  "'m runner \<Rightarrow> (u64 \<Rightarrow> inode option) \<Rightarrow> (u64 \<Rightarrow> bytes \<Rightarrow> u32 \<Rightarrow> u32) \<Rightarrow> dir_file \<Rightarrow> u64 \<Rightarrow> kstate \<Rightarrow>
     dirent \<Rightarrow> 'm \<Rightarrow> (errno + u32) \<times> ctx \<times> 'm" where
  "readdir_verdict run backing fnh file cgrp st e m =
     cgroup_bpf_run_namei_ext_cgroup run cgrp
       (namei_ext_init_ctx backing (Some (f_path file)) (f_inode file) BPF_NAMEI_EXT_READDIR 0
          \<lparr>q_name = de_name e, q_len = of_nat (length (de_name e)),
           q_hash = fnh (p_dentry (f_path file)) (de_name e) (of_nat (length (de_name e)))\<rparr>) st m"

datatype offer = Offer bytes | Skip | Refuse errno

definition offer_of :: "(errno + u32) \<times> ctx \<times> 'm \<Rightarrow> bytes \<Rightarrow> offer" where
  "offer_of v name =
     (case v of (action, c, m) \<Rightarrow>
        case action of
          Inl e \<Rightarrow> Refuse e
        | Inr a \<Rightarrow>
            if a = BPF_NAMEI_EXT_PASS then Offer name
            else if a = BPF_NAMEI_EXT_REDIRECT then
              (if namei_ext_redirect_valid c then Offer (redirect_text c) else Refuse EINVAL)
            else if a = BPF_NAMEI_EXT_HIDE then Skip
            else if a = BPF_NAMEI_EXT_SELECT_TARGET then Refuse EOPNOTSUPP
            else Refuse EINVAL)"

primrec edit_tree :: "(dirent \<Rightarrow> 'm \<Rightarrow> (errno + u32) \<times> ctx \<times> 'm) \<Rightarrow> iter_tree \<Rightarrow> 'm \<Rightarrow> iter_tree" where
  "edit_tree vd (Iter_return ret) m = Iter_return ret"
| "edit_tree vd (Iter_set_pos p t) m = Iter_set_pos p (edit_tree vd t m)"
| "edit_tree vd (Iter_emit e yes no) m =
     (let v = vd e m; m' = snd (snd v)
      in case offer_of v (de_name e) of
           Offer name \<Rightarrow> Iter_emit (e\<lparr>de_name := name\<rparr>) (edit_tree vd yes m') (edit_tree vd no m')
         | Skip \<Rightarrow> edit_tree vd yes m'
         | Refuse error \<Rightarrow> edit_tree vd no m')"

lemma filldir_offer:
  "namei_ext_filldir run backing fnh file cgrp st actor (de_name e) offset ino d_type ctx =
     (let v = readdir_verdict run backing fnh file cgrp st e (nc_maps (dc_owner ctx));
          ctx = ctx\<lparr>dc_owner := (dc_owner ctx)\<lparr>nc_maps := snd (snd v)\<rparr>\<rparr>
      in case offer_of v (de_name e) of
           Offer name \<Rightarrow> namei_ext_forward actor name offset ino d_type ctx
         | Skip \<Rightarrow> (True, ctx)
         | Refuse error \<Rightarrow> (False, ctx\<lparr>dc_owner := (dc_owner ctx)\<lparr>nc_error := Some error\<rparr>\<rparr>))"
  unfolding namei_ext_filldir_def readdir_verdict_def offer_of_def Let_def
  by (simp split: prod.split sum.split del: abi_codes)

text \<open>
  The actors of \<open>getdents\<close> move the count only for an entry they accept; a refused entry
  leaves the position, the count and the mask alone.
\<close>

definition refuses_cleanly :: "'b actor \<Rightarrow> bool" where
  "refuses_cleanly actor \<longleftrightarrow>
     (\<forall>name offset ino ty ctx ctx'. actor name offset ino ty ctx = (False, ctx') \<longrightarrow>
        dc_pos ctx' = dc_pos ctx \<and> dc_count ctx' = dc_count ctx \<and>
        dc_dt_flags_mask ctx' = dc_dt_flags_mask ctx)"

definition unwrap :: "('b, 'm) namei_ext_dir_context dir_context \<Rightarrow> 'b dir_context" where
  "unwrap d = (nc_orig (dc_owner d))\<lparr>dc_pos := dc_pos d, dc_count := dc_count d,
                dc_dt_flags_mask := dc_dt_flags_mask d\<rparr>"

lemma unwrap_pos: "unwrap (d\<lparr>dc_pos := p\<rparr>) = (unwrap d)\<lparr>dc_pos := p\<rparr>"
  by (simp add: unwrap_def)

lemma forward_unwrap:
  assumes "refuses_cleanly actor"
  shows "namei_ext_forward actor name offset ino ty ctx = (ok, ctx') \<Longrightarrow>
           actor name offset ino ty (unwrap ctx) = (ok, unwrap ctx') \<and>
           nc_maps (dc_owner ctx') = nc_maps (dc_owner ctx)"
  using assms
  by (auto simp: namei_ext_forward_def unwrap_def refuses_cleanly_def Let_def split: prod.splits if_splits
      intro!: dir_context.equality)

lemma run_edit_tree:
  fixes ctx :: "('b, 'm) namei_ext_dir_context dir_context"
  assumes "refuses_cleanly actor"
    and "run_iter t (namei_ext_filldir run backing fnh file cgrp st actor) ctx = (ret, ctx')"
  shows "run_iter (edit_tree (readdir_verdict run backing fnh file cgrp st) t (nc_maps (dc_owner ctx)))
           actor (unwrap ctx) = (ret, unwrap ctx')"
  using assms(2)
proof (induction t arbitrary: ctx)
  case (Iter_return r)
  then show ?case by simp
next
  case (Iter_set_pos p t)
  then show ?case using Iter_set_pos.IH [of "ctx\<lparr>dc_pos := p\<rparr>"] by (simp add: unwrap_pos)
next
  case (Iter_emit e yes no)
  let ?v = "readdir_verdict run backing fnh file cgrp st e (nc_maps (dc_owner ctx))"
  let ?c = "ctx\<lparr>dc_owner := (dc_owner ctx)\<lparr>nc_maps := snd (snd ?v)\<rparr>\<rparr>"
  have u: "unwrap ?c = unwrap ctx" by (simp add: unwrap_def)
  show ?case
  proof (cases "offer_of ?v (de_name e)")
    case (Offer name)
    obtain ok c2 where f: "namei_ext_forward actor name (de_offset e) (de_ino e) (de_type e) ?c = (ok, c2)"
      by fastforce
    note fu = forward_unwrap [OF assms(1) f]
    show ?thesis
      using Iter_emit.prems Iter_emit.IH(1) [of c2] Iter_emit.IH(2) [of c2] fu f Offer
      by (auto simp: filldir_offer Let_def u split: if_splits)
  next
    case Skip
    then show ?thesis
      using Iter_emit.prems Iter_emit.IH(1) [of ?c] by (simp add: filldir_offer Let_def u)
  next
    case (Refuse error)
    let ?d = "?c\<lparr>dc_owner := (dc_owner ?c)\<lparr>nc_error := Some error\<rparr>\<rparr>"
    have "unwrap ?d = unwrap ctx" by (simp add: unwrap_def)
    then show ?thesis
      using Refuse Iter_emit.prems Iter_emit.IH(2) [of ?d] by (simp add: filldir_offer Let_def)
  qed
qed


text \<open>
  The whole call: with a policy bound to the directory it runs the edited tree, and without
  one the file system's own.
\<close>

definition takes_cgroup :: "u64 \<Rightarrow> bool \<Rightarrow> path \<Rightarrow> kstate \<Rightarrow> bool" where
  "takes_cgroup current tryget parent st \<longleftrightarrow>
     (case cb_owner (ks_cgroups st current) of
        None \<Rightarrow> False
      | Some owner \<Rightarrow> namei_ext_policy_parent_matches owner parent st) \<and>
     cb_effective (ks_cgroups st current) \<noteq> [] \<and> cb_ref_live (ks_cgroups st current) \<and> tryget"

lemma get_namei_ext_cgroup_takes:
  "cgroup_bpf_get_namei_ext_cgroup current tryget parent st =
     (if takes_cgroup current tryget parent st
      then (Some current, cgroup_get current (cgroup_bpf_get current st)) else (None, st))"
  by (auto simp: cgroup_bpf_get_namei_ext_cgroup_def takes_cgroup_def cgroup_ref_defs Let_def
      split: option.split intro!: kstate.equality)

lemma verdict_refs [simp]:
  "readdir_verdict run backing fnh file cgrp (cgroup_get a (cgroup_bpf_get b st)) =
   readdir_verdict run backing fnh file cgrp st"
  by (simp add: readdir_verdict_def cgroup_bpf_run_namei_ext_cgroup_def fun_eq_iff
      cgroup_bpf_run_namei_ext_locked_def cgroup_ref_defs)

text \<open>A pending error comes from a refusal and is never lost.\<close>

lemma forward_error:
  "namei_ext_forward actor name offset ino ty ctx = (ok, ctx') \<Longrightarrow>
     nc_error (dc_owner ctx') = nc_error (dc_owner ctx)"
  by (auto simp: namei_ext_forward_def Let_def split: prod.splits if_splits)

lemma filldir_error:
  assumes "namei_ext_filldir run backing fnh file cgrp st actor (de_name e) offset ino ty ctx = (ok, ctx')"
  shows "nc_error (dc_owner ctx') =
           (case offer_of (readdir_verdict run backing fnh file cgrp st e (nc_maps (dc_owner ctx))) (de_name e) of
              Refuse error \<Rightarrow> Some error | _ \<Rightarrow> nc_error (dc_owner ctx))"
  using assms by (auto simp: filldir_offer Let_def split: offer.splits dest: forward_error)

lemma run_error_kept:
  "run_iter t (namei_ext_filldir run backing fnh file cgrp st actor) ctx = (ret, ctx') \<Longrightarrow>
     nc_error (dc_owner ctx) \<noteq> None \<Longrightarrow> nc_error (dc_owner ctx') \<noteq> None"
proof (induction t arbitrary: ctx)
  case (Iter_emit e yes no)
  obtain ok c where f: "namei_ext_filldir run backing fnh file cgrp st actor (de_name e) (de_offset e)
      (de_ino e) (de_type e) ctx = (ok, c)" by fastforce
  have "nc_error (dc_owner c) \<noteq> None"
    using filldir_error [OF f] Iter_emit.prems(2) by (simp split: offer.split)
  then show ?case
    using Iter_emit.prems(1) f Iter_emit.IH by (simp split: if_splits)
next
  case (Iter_set_pos p t)
  then show ?case using Iter_set_pos.IH [of "ctx\<lparr>dc_pos := p\<rparr>"] by simp
qed simp

lemma run_no_refusal:
  assumes "\<And>e m err. offer_of (readdir_verdict run backing fnh file cgrp st e m) (de_name e) \<noteq> Refuse err"
  shows "run_iter t (namei_ext_filldir run backing fnh file cgrp st actor) ctx = (ret, ctx') \<Longrightarrow>
     nc_error (dc_owner ctx') = nc_error (dc_owner ctx)"
proof (induction t arbitrary: ctx)
  case (Iter_emit e yes no)
  obtain ok c where f: "namei_ext_filldir run backing fnh file cgrp st actor (de_name e) (de_offset e)
      (de_ino e) (de_type e) ctx = (ok, c)" by fastforce
  have "nc_error (dc_owner c) = nc_error (dc_owner ctx)"
    using filldir_error [OF f] assms by (simp split: offer.splits)
  then show ?case
    using Iter_emit.prems(1) f Iter_emit.IH by (simp split: if_splits)
next
  case (Iter_set_pos p t)
  then show ?case using Iter_set_pos.IH [of "ctx\<lparr>dc_pos := p\<rparr>"] by simp
qed simp

lemma iterate_dir_edits:
  assumes "refuses_cleanly actor" "takes_cgroup current tryget (f_path file) st"
    and "namei_ext_iterate_dir run backing fnh current tryget file actor iter ctx st m = (ret, ctx', st', m')"
  shows "snd (run_iter (edit_tree (readdir_verdict run backing fnh file current st) (iter (dc_pos ctx)) m) actor ctx) = ctx'"
    and "fst (run_iter (edit_tree (readdir_verdict run backing fnh file current st) (iter (dc_pos ctx)) m) actor ctx) = Some e
           \<Longrightarrow> ret = Some e"
    and "(\<And>e m err. offer_of (readdir_verdict run backing fnh file current st e m) (de_name e) \<noteq> Refuse err) \<Longrightarrow>
         fst (run_iter (edit_tree (readdir_verdict run backing fnh file current st) (iter (dc_pos ctx)) m) actor ctx) = ret"
proof -
  let ?st = "cgroup_get current (cgroup_bpf_get current st)"
  let ?d = "\<lparr>dc_pos = dc_pos ctx, dc_count = dc_count ctx, dc_dt_flags_mask = dc_dt_flags_mask ctx,
      dc_owner = \<lparr>nc_orig = ctx, nc_error = None, nc_maps = m\<rparr>\<rparr>"
  obtain r d' where r: "run_iter (iter (dc_pos ctx)) (namei_ext_filldir run backing fnh file current ?st actor) ?d = (r, d')"
    by fastforce
  have u: "unwrap ?d = ctx" by (simp add: unwrap_def)
  have e: "run_iter (edit_tree (readdir_verdict run backing fnh file current st) (iter (dc_pos ctx)) m) actor ctx = (r, unwrap d')"
    using run_edit_tree [OF assms(1) r] u by simp
  have res: "ctx' = unwrap d'" "ret = (if r = None \<and> nc_error (dc_owner d') \<noteq> None then nc_error (dc_owner d') else r)"
    using assms(2,3) r by (simp_all add: namei_ext_iterate_dir_def get_namei_ext_cgroup_takes Let_def unwrap_def)
  show "snd (run_iter (edit_tree (readdir_verdict run backing fnh file current st) (iter (dc_pos ctx)) m) actor ctx) = ctx'"
    using e res by simp
  show "ret = Some e" if "fst (run_iter (edit_tree (readdir_verdict run backing fnh file current st) (iter (dc_pos ctx)) m) actor ctx) = Some e"
    using e res that by simp
  show "fst (run_iter (edit_tree (readdir_verdict run backing fnh file current st) (iter (dc_pos ctx)) m) actor ctx) = ret"
    if no: "\<And>e m err. offer_of (readdir_verdict run backing fnh file current st e m) (de_name e) \<noteq> Refuse err"
    using run_no_refusal [OF _ r] no e res by simp
qed

subsection \<open>Listing and lookup agree\<close>

text \<open>A program that only passes or hides entries of an enumeration.\<close>

locale listing_policy = coherent_policy run rules
  for run :: "'m policy" and rules :: "'m \<Rightarrow> 'r" +
  assumes readdir_plain:
    "fst (run (as_readdir c) m) = BPF_NAMEI_EXT_PASS \<or> fst (run (as_readdir c) m) = BPF_NAMEI_EXT_HIDE"


text \<open>
  The plainest iterator and the plainest actor: the entries of a directory in order, and a
  buffer that takes every name.
\<close>

fun listing :: "dirent list \<Rightarrow> iter_tree" where
  "listing [] = Iter_return None"
| "listing (e # es) = Iter_emit e (Iter_set_pos (de_offset e + 1) (listing es)) (Iter_return None)"

definition collect :: "bytes list actor" where
  "collect name offset ino d_type ctx = (True, ctx\<lparr>dc_owner := dc_owner ctx @ [name]\<rparr>)"

lemma collect_clean [simp]: "refuses_cleanly collect"
  by (simp add: refuses_cleanly_def collect_def)

definition entry_qstr :: "bytes \<Rightarrow> bytes \<Rightarrow> u32 \<Rightarrow> qstr" where
  "entry_qstr name rest h = \<lparr>q_name = name @ rest, q_len = of_nat (length name), q_hash = h\<rparr>"

lemma init_ctx_entry:
  "namei_ext_init_ctx b p i ev fl (entry_qstr name rest h) =
     (namei_ext_init_ctx b p i 0 0 (entry_qstr name [] 0))\<lparr>c_event := ev, c_flags := fl, c_name_hash := h\<rparr>"
proof -
  have "unat (of_nat (length name) :: u32) \<le> length name"
    by (simp add: unat_of_nat take_bit_nat_less_eq_self)
  then have "min (unat (of_nat (length name) :: u32)) 64 \<le> length name" by simp
  then show ?thesis
    by (simp add: namei_ext_init_ctx_def entry_qstr_def Let_def)
qed

text \<open>Whether a lookup of the entry in this directory is answered that it does not exist.\<close>

definition lookup_hides ::
  "'m runner \<Rightarrow> (u64 \<Rightarrow> inode option) \<Rightarrow> (u64 \<Rightarrow> bytes \<Rightarrow> u32 \<Rightarrow> u32) \<Rightarrow> lookup_masks \<Rightarrow> u64 \<Rightarrow> dir_file \<Rightarrow>
     u32 \<Rightarrow> bytes \<Rightarrow> u32 \<Rightarrow> kstate \<Rightarrow> 'm \<Rightarrow> namei_ext_redirect \<Rightarrow> bytes \<Rightarrow> bool" where
  "lookup_hides run backing fnh lm current file flags rest h st m rd name \<longleftrightarrow>
     fst (namei_ext_lookup run backing fnh lm current (f_path file) (f_inode file) (entry_qstr name rest h)
            BPF_NAMEI_EXT_LOOKUP flags rd st m) = Some ENOENT"

lemma verdict_bound:
  assumes "bound_to st current (f_path file) p"
  shows "readdir_verdict run backing fnh file current st e m =
           (let (r, c', m') = run p ((namei_ext_init_ctx backing (Some (f_path file)) (f_inode file)
                  BPF_NAMEI_EXT_READDIR 0 (entry_qstr (de_name e) [] (fnh (p_dentry (f_path file)) (de_name e)
                    (of_nat (length (de_name e))))))\<lparr>c_cgroup_id := current\<rparr>) m
            in (if r > BPF_NAMEI_EXT_SELECT_TARGET then Inl EINVAL else Inr r, c', m'))"
proof -
  let ?c = "(namei_ext_init_ctx backing (Some (f_path file)) (f_inode file)
     BPF_NAMEI_EXT_READDIR 0 (entry_qstr (de_name e) [] (fnh (p_dentry (f_path file)) (de_name e)
                    (of_nat (length (de_name e))))))\<lparr>c_cgroup_id := current\<rparr>"
  obtain r c' m' where "run p ?c m = (r, c', m')" by (metis prod_cases3)
  then show ?thesis
    using assms
    by (auto simp: readdir_verdict_def bound_to_def cgroup_bpf_run_namei_ext_cgroup_def entry_qstr_def
        cgroup_bpf_run_namei_ext_locked_def Let_def)
qed

lemma lookup_hides_bound:
  assumes "bound_to st current (f_path file) p"
    and "fst (run p ((namei_ext_init_ctx backing (Some (f_path file)) (f_inode file)
                  BPF_NAMEI_EXT_LOOKUP flags (entry_qstr name rest h))\<lparr>c_cgroup_id := current\<rparr>) m) \<le> BPF_NAMEI_EXT_SELECT_TARGET"
  shows "lookup_hides run backing fnh lm current file flags rest h st m rd name \<longleftrightarrow>
           fst (run p ((namei_ext_init_ctx backing (Some (f_path file)) (f_inode file)
                  BPF_NAMEI_EXT_LOOKUP flags (entry_qstr name rest h))\<lparr>c_cgroup_id := current\<rparr>) m) = BPF_NAMEI_EXT_HIDE"
  using assms(2)
  by (auto simp: lookup_hides_def namei_ext_lookup_def dispatch_bound [OF assms(1)] Let_def
      split: prod.splits if_splits)

context coherent_policy
begin

text \<open>Enumeration skips an entry exactly when its lookup says it is not there.\<close>

lemma skip_iff_lookup_hides:
  assumes "bound_to st current (f_path file) p" "rules m = rules m'"
  shows "offer_of (readdir_verdict (\<lambda>_. run) backing fnh file current st e m) (de_name e) = Skip \<longleftrightarrow>
           lookup_hides (\<lambda>_. run) backing fnh lm current file flags rest h st m' rd (de_name e)"
proof -
  let ?b = "(namei_ext_init_ctx backing (Some (f_path file)) (f_inode file) 0 0 (entry_qstr (de_name e) [] 0))\<lparr>c_cgroup_id := current\<rparr>"
  let ?h = "fnh (p_dentry (f_path file)) (de_name e) (of_nat (length (de_name e)))"
  let ?r = "(namei_ext_init_ctx backing (Some (f_path file)) (f_inode file) BPF_NAMEI_EXT_READDIR 0
      (entry_qstr (de_name e) [] ?h))\<lparr>c_cgroup_id := current\<rparr>"
  let ?l = "(namei_ext_init_ctx backing (Some (f_path file)) (f_inode file) BPF_NAMEI_EXT_LOOKUP flags
      (entry_qstr (de_name e) rest h))\<lparr>c_cgroup_id := current\<rparr>"
  have "?r = (as_readdir ?b)\<lparr>c_flags := 0, c_name_hash := ?h\<rparr>"
    "?l = (as_lookup ?b)\<lparr>c_flags := flags, c_name_hash := h\<rparr>"
    by (subst init_ctx_entry, simp)+
  then have "fst (run ?r m) = fst (run (as_readdir ?b) m)" "fst (run ?l m') = fst (run (as_lookup ?b) m')"
    by (simp_all only: ignores_flags)
  then have eq: "fst (run ?r m) = BPF_NAMEI_EXT_HIDE \<longleftrightarrow> fst (run ?l m') = BPF_NAMEI_EXT_HIDE"
    using readdir_hidden_iff_lookup_hidden [OF assms(2), of ?b] by simp
  obtain a c2 m2 where ra: "run ?r m = (a, c2, m2)" by (metis prod_cases3)
  have "offer_of (readdir_verdict (\<lambda>_. run) backing fnh file current st e m) (de_name e) = Skip \<longleftrightarrow>
      fst (run ?r m) = BPF_NAMEI_EXT_HIDE"
    using action_range [of ?r m] ra
    by (auto simp: verdict_bound [OF assms(1)] offer_of_def Let_def)
  moreover note lookup_hides_bound [OF assms(1), of "\<lambda>_. run" backing flags "de_name e" rest h m' fnh lm rd,
      OF action_range]
  ultimately show ?thesis using eq by simp
qed

end

context listing_policy
begin

lemma offer_plain:
  assumes "bound_to st current (f_path file) p"
  shows "offer_of (readdir_verdict (\<lambda>_. run) backing fnh file current st e m) (de_name e) = Skip \<or>
         offer_of (readdir_verdict (\<lambda>_. run) backing fnh file current st e m) (de_name e) = Offer (de_name e)"
proof -
  let ?h = "fnh (p_dentry (f_path file)) (de_name e) (of_nat (length (de_name e)))"
  let ?r = "(namei_ext_init_ctx backing (Some (f_path file)) (f_inode file) BPF_NAMEI_EXT_READDIR 0
      (entry_qstr (de_name e) [] ?h))\<lparr>c_cgroup_id := current\<rparr>"
  have "as_readdir ?r = ?r" by simp
  then have "fst (run ?r m) = BPF_NAMEI_EXT_PASS \<or> fst (run ?r m) = BPF_NAMEI_EXT_HIDE"
    using readdir_plain [of ?r m] by (simp only:)
  moreover obtain a c2 m2 where "run ?r m = (a, c2, m2)" by (metis prod_cases3)
  ultimately show ?thesis
    by (auto simp: verdict_bound [OF assms] offer_of_def Let_def)
qed

lemma verdict_rules:
  assumes "bound_to st current (f_path file) p"
  shows "rules (snd (snd (readdir_verdict (\<lambda>_. run) backing fnh file current st e m))) = rules m"
  using rules_kept by (simp add: verdict_bound [OF assms] Let_def split: prod.split) (metis snd_conv)

text \<open>
  A whole enumeration lists, in order, the entries whose lookup does not say \<open>ENOENT\<close>,
  under their own names.
\<close>

lemma edit_listing:
  assumes b: "bound_to st current (f_path file) p" and "rules m0 = rules m"
  shows "run_iter (edit_tree (readdir_verdict (\<lambda>_. run) backing fnh file current st) (listing es) m) collect ctx =
           (None, snd (run_iter (edit_tree (readdir_verdict (\<lambda>_. run) backing fnh file current st) (listing es) m) collect ctx)) \<and>
         dc_owner (snd (run_iter (edit_tree (readdir_verdict (\<lambda>_. run) backing fnh file current st) (listing es) m) collect ctx)) =
           dc_owner ctx @ map de_name (filter (\<lambda>e. \<not> lookup_hides (\<lambda>_. run) backing fnh lm current file flags rest h st m0 rd (de_name e)) es)"
  using assms(2)
proof (induction es arbitrary: m ctx)
  case Nil
  then show ?case by simp
next
  case (Cons e es)
  let ?v = "readdir_verdict (\<lambda>_. run) backing fnh file current st e m"
  have r: "rules m0 = rules (snd (snd ?v))" using Cons.prems verdict_rules [OF b] by simp
  note hides = skip_iff_lookup_hides [OF b Cons.prems [symmetric], of backing fnh e lm flags rest h rd]
  show ?case
    using offer_plain [OF b, of backing fnh e m]
  proof
    assume s: "offer_of ?v (de_name e) = Skip"
    then show ?thesis
      using Cons.IH [OF r, of "ctx\<lparr>dc_pos := de_offset e + 1\<rparr>"] hides by (simp add: Let_def)
  next
    assume o: "offer_of ?v (de_name e) = Offer (de_name e)"
    then show ?thesis
      using Cons.IH [OF r, of "ctx\<lparr>dc_owner := dc_owner ctx @ [de_name e], dc_pos := de_offset e + 1\<rparr>"] hides
      by (simp add: Let_def collect_def)
  qed
qed

lemma listing_is_lookup:
  assumes b: "bound_to st current (f_path file) p" and t: "takes_cgroup current tryget (f_path file) st"
    and r: "namei_ext_iterate_dir (\<lambda>_. run) backing fnh current tryget file collect (\<lambda>_. listing es) ctx st m = (ret, ctx', st', m')"
  shows "ret = None" "st' = st"
    "dc_owner ctx' = dc_owner ctx @
       map de_name (filter (\<lambda>e. \<not> lookup_hides (\<lambda>_. run) backing fnh lm current file flags rest h st m rd (de_name e)) es)"
proof -
  have no: "offer_of (readdir_verdict (\<lambda>_. run) backing fnh file current st e m) (de_name e) \<noteq> Refuse err" for e m err
    using offer_plain [OF b, of backing fnh e m] by auto
  note ed = edit_listing [OF b refl, of backing fnh es m ctx lm flags rest h rd]
  note it = iterate_dir_edits [OF collect_clean t r]
  show "ret = None" using it(3) [OF no] ed by (metis fst_conv)
  show "st' = st" by (rule iterate_dir_refs [OF r])
  show "dc_owner ctx' = dc_owner ctx @
       map de_name (filter (\<lambda>e. \<not> lookup_hides (\<lambda>_. run) backing fnh lm current file flags rest h st m rd (de_name e)) es)"
    using ed it(1) by simp
qed

end

interpretation aw_listing: listing_policy agent_workspace_view_policy "\<lambda>_. ()"
  by unfold_locales (auto simp: agent_workspace_view_policy_def Let_def)

interpretation ast_listing: listing_policy agent_workspace_source_task_policy ast_views
  by unfold_locales (auto simp: ast_defs split: option.split)

interpretation afs_listing:
  listing_policy application_file_sharing_policy "\<lambda>m. (sharing_scopes m, sharing_grants m)"
  by unfold_locales (auto simp: afs_defs)

interpretation configmap_listing:
  listing_policy kubernetes_configmap_publication_policy
    "\<lambda>m. (configmap_v0_views m, configmap_v1_views m, configmap_generations m)"
  by unfold_locales (auto simp: configmap_defs split: option.split)

interpretation scr_listing:
  listing_policy service_config_rotation_policy "\<lambda>m. (service_config_views m, scr_cgroups m)"
  by unfold_locales (auto simp: scr_defs split: option.split)

interpretation bas_listing:
  listing_policy build_action_sandboxing_policy
    "\<lambda>m. (build_action_views m, build_action_roots m, build_action_declared_inputs m)"
  by unfold_locales (auto simp: bas_defs)

interpretation te_listing: listing_policy toolchain_environment_policy toolchain_views
  by unfold_locales (auto simp: te_defs split: option.split)

interpretation spindle_listing: listing_policy spindle_staging_policy spindle_rules
  by unfold_locales (auto simp: spindle_defs split: option.split)

interpretation sc_listing: listing_policy semantic_continuation_policy sc_views
  by unfold_locales (auto simp: sc_defs split: option.split)

interpretation cr_listing: listing_policy checkpoint_restore_migration_policy checkpoint_restore_views
  by unfold_locales (auto simp: cr_defs split: option.split)

subsection \<open>The prefilter changes nothing here either\<close>

lemma iterate_dir_unmanaged:
  assumes "kernel_inv hb st" "live st current" "\<not> namei_ext_parent_maybe_managed hb (f_path file) st"
  shows "namei_ext_iterate_dir run backing fnh current tryget file actor iter ctx st m =
           (let (ret, ctx) = run_iter (iter (dc_pos ctx)) actor ctx in (ret, ctx, st, m))"
proof -
  have "\<not> takes_cgroup current tryget (f_path file) st"
    using assms reachable_no_false_negative [OF assms(1,2), of _ "f_path file"]
    by (auto simp: takes_cgroup_def split: option.splits)
  then show ?thesis
    by (simp add: namei_ext_iterate_dir_def get_namei_ext_cgroup_takes)
qed

end
