(* ===== verification/Retirement.thy ===== *)
theory Retirement
  imports Reach
begin

text \<open>
  The lifetime of a target under RCU. \<open>namei_ext_register_target\<close> and
  \<open>namei_ext_clear_targets\<close> unlink nodes under the table's mutex, wait for a grace period and
  only then drop the nodes' path references. Here the two halves are separate steps, in any
  interleaving with readers that borrow a target inside a read-side section
  (\<open>namei_ext_find_target_rcu\<close> in RCU walk). \<open>synchronize_rcu\<close> is what it promises: it returns
  when every reader that was inside when it was called has left.
\<close>

subsection \<open>The two halves of an update\<close>

definition register_publish ::
  "hashfn \<Rightarrow> bool \<Rightarrow> u64 \<Rightarrow> u32 \<Rightarrow> path \<Rightarrow> kstate \<Rightarrow> (errno + namei_ext_target option) \<times> kstate" where
  "register_publish hb alloc cgrp target_id path st =
     (if target_id = 0 \<or> p_mnt path = 0 \<or> p_dentry path = 0 then (Inl EINVAL, st)
      else if \<not> alloc then (Inl ENOMEM, st)
      else
        let new_target = \<lparr> t_cg_id = cgrp, t_target_id = target_id, t_path = path \<rparr>;
            b = hb (namei_ext_target_key cgrp target_id)
        in
        if cgroup_is_dead cgrp st then (Inl ENODEV, st)
        else
          case hlist_replace_first (target_is cgrp target_id) new_target (namei_ext_targets st b) of
            (Some old_target, ts) \<Rightarrow>
              (Inr (Some old_target), st\<lparr>namei_ext_targets := (namei_ext_targets st)(b := ts)\<rparr>)
          | (None, ts) \<Rightarrow>
              (Inr None, st\<lparr>namei_ext_targets :=
                 (namei_ext_targets st)(b := new_target # namei_ext_targets st b)\<rparr>))"

definition clear_publish :: "u64 \<Rightarrow> kstate \<Rightarrow> namei_ext_target list \<times> kstate" where
  "clear_publish cg st =
     (let (tbl, retired) = fold (clear_bucket cg) all_buckets (namei_ext_targets st, [])
      in (retired, st\<lparr>namei_ext_targets := tbl\<rparr>))"

definition retire_targets :: "namei_ext_target list \<Rightarrow> kstate \<Rightarrow> kstate" where
  "retire_targets ts st = path_put_list (map t_path ts) st"

text \<open>With nothing in between, the halves are the operations of the registry.\<close>

lemma register_halves:
  "namei_ext_register_target hb alloc cgrp tid p st =
     (case register_publish hb alloc cgrp tid p st of
        (Inl e, st) \<Rightarrow> (Some e, st)
      | (Inr None, st) \<Rightarrow> (None, st)
      | (Inr (Some old), st) \<Rightarrow> (None, retire_targets [old] st))"
  by (auto simp: namei_ext_register_target_def register_publish_def retire_targets_def path_put_list_def Let_def
      split: prod.split option.split)

lemma clear_halves:
  "namei_ext_clear_targets cg st =
     (case clear_publish cg st of (ts, st) \<Rightarrow> if ts = [] then st else retire_targets ts st)"
  by (simp add: namei_ext_clear_targets_def clear_publish_def retire_targets_def Let_def split: prod.split)

subsection \<open>Interleavings with readers\<close>

text \<open>
  \<open>rs_readers r\<close>: outside (\<open>None\<close>), inside without a target, or inside with a borrowed one.
  \<open>rs_retired\<close> are the batches of unlinked nodes that still wait for their grace period, each
  with the readers that were inside when it began and have not left since.
\<close>

record rcu_sys =
  rs_st :: kstate
  rs_readers :: "nat \<Rightarrow> namei_ext_target option option"
  rs_retired :: "(namei_ext_target list \<times> nat set) list"

definition inside :: "rcu_sys \<Rightarrow> nat set" where
  "inside s = {r. rs_readers s r \<noteq> None}"

inductive rcu_step :: "hashfn \<Rightarrow> rcu_sys \<Rightarrow> rcu_sys \<Rightarrow> bool" for hb where
  read_lock: "rs_readers s r = None \<Longrightarrow>
     rcu_step hb s (s\<lparr>rs_readers := (rs_readers s)(r := Some None)\<rparr>)"
| borrow: "rs_readers s r \<noteq> None \<Longrightarrow> namei_ext_find_target_rcu hb cg tid (rs_st s) = Some t \<Longrightarrow>
     rcu_step hb s (s\<lparr>rs_readers := (rs_readers s)(r := Some (Some t))\<rparr>)"
| read_unlock: "rs_readers s r \<noteq> None \<Longrightarrow>
     rcu_step hb s (s\<lparr>rs_readers := (rs_readers s)(r := None),
       rs_retired := map (\<lambda>(ts, W). (ts, W - {r})) (rs_retired s)\<rparr>)"
| register: "register_publish hb alloc cg tid p (path_get p (rs_st s)) = (Inr old, st') \<Longrightarrow>
     rcu_step hb s (s\<lparr>rs_st := st', rs_retired :=
       (case old of None \<Rightarrow> rs_retired s | Some t \<Rightarrow> ([t], inside s) # rs_retired s)\<rparr>)"
| register_refused: "register_publish hb alloc cg tid p (path_get p (rs_st s)) = (Inl e, st') \<Longrightarrow>
     rcu_step hb s (s\<lparr>rs_st := path_put p st'\<rparr>)"
| clear: "clear_publish cg (rs_st s) = (ts, st') \<Longrightarrow>
     rcu_step hb s (s\<lparr>rs_st := st', rs_retired := (ts, inside s) # rs_retired s\<rparr>)"
| retire: "rs_retired s = xs @ (ts, {}) # ys \<Longrightarrow>
     rcu_step hb s (s\<lparr>rs_st := retire_targets ts (rs_st s), rs_retired := xs @ ys\<rparr>)"

inductive_cases rcu_stepE: "rcu_step hb s s'"

inductive rcu_steps :: "hashfn \<Rightarrow> rcu_sys \<Rightarrow> rcu_sys \<Rightarrow> bool" for hb where
  start: "rcu_steps hb s s"
| step: "rcu_steps hb s s' \<Longrightarrow> rcu_step hb s' s'' \<Longrightarrow> rcu_steps hb s s''"

text \<open>A start state: no reader inside and nothing waiting.\<close>

definition rcu_start :: "kstate \<Rightarrow> rcu_sys" where
  "rcu_start st = \<lparr>rs_st = st, rs_readers = (\<lambda>_. None), rs_retired = []\<rparr>"

subsection \<open>A borrowed target stays\<close>

definition in_table :: "kstate \<Rightarrow> namei_ext_target \<Rightarrow> bool" where
  "in_table st t \<longleftrightarrow> (\<exists>b. t \<in> set (namei_ext_targets st b))"

definition borrowed_safe :: "rcu_sys \<Rightarrow> bool" where
  "borrowed_safe s \<longleftrightarrow>
     (\<forall>r t. rs_readers s r = Some (Some t) \<longrightarrow>
        in_table (rs_st s) t \<or> (\<exists>(ts, W)\<in>set (rs_retired s). t \<in> set ts \<and> r \<in> W))"

definition retired_holds :: "(namei_ext_target list \<times> nat set) list \<Rightarrow> path \<Rightarrow> int" where
  "retired_holds rt p = (\<Sum>(ts, W)\<leftarrow>rt. int (count_list (map t_path ts) p))"

text \<open>References that belong neither to the table nor to a waiting batch.\<close>

definition others_refs :: "rcu_sys \<Rightarrow> path \<Rightarrow> int" where
  "others_refs s p = outside_refs (rs_st s) p - retired_holds (rs_retired s) p"

lemma retired_holds_simps [simp]:
  "retired_holds [] p = 0"
  "retired_holds ((ts, W) # rt) p = int (count_list (map t_path ts) p) + retired_holds rt p"
  "retired_holds (xs @ ys) p = retired_holds xs p + retired_holds ys p"
  by (simp_all add: retired_holds_def)

lemma retired_holds_leave [simp]:
  "retired_holds (map (\<lambda>(ts, W). (ts, W - {r})) rt) p = retired_holds rt p"
  by (induction rt) auto

lemma path_refs_tables [simp]:
  "namei_ext_targets (path_get p st) = namei_ext_targets st"
  "namei_ext_targets (path_put p st) = namei_ext_targets st"
  "namei_ext_targets (path_put_list ps st) = namei_ext_targets st"
  by (simp_all add: refs_eq)

lemma register_publish_cases:
  assumes "register_publish hb alloc cg tid p st = (r, st')"
  obtains (refused) e where "r = Inl e" "st' = st"
  | (added) "r = Inr None" "\<And>t. in_table st t \<Longrightarrow> in_table st' t"
  | (replaced) old where "r = Inr (Some old)" "\<And>t. in_table st t \<Longrightarrow> t \<noteq> old \<Longrightarrow> in_table st' t"
proof (cases r)
  case (Inl e)
  then have "st' = st"
    using assms by (auto simp: register_publish_def Let_def split: if_splits prod.splits option.splits)
  then show thesis using Inl refused by blast
next
  case (Inr old)
  let ?b = "hb (namei_ext_target_key cg tid)"
  let ?new = "\<lparr> t_cg_id = cg, t_target_id = tid, t_path = p \<rparr>"
  show thesis
  proof (cases old)
    case None
    then have "st' = st\<lparr>namei_ext_targets := (namei_ext_targets st)(?b := ?new # namei_ext_targets st ?b)\<rparr>"
      using assms Inr by (auto simp: register_publish_def Let_def split: if_splits prod.splits option.splits)
    then have "in_table st' t" if "in_table st t" for t
      using that by (auto simp: in_table_def) (metis list.set_intros(2))
    then show thesis using Inr None added by blast
  next
    case (Some o')
    then obtain ts where ts: "hlist_replace_first (target_is cg tid) ?new (namei_ext_targets st ?b) = (Some o', ts)"
      "st' = st\<lparr>namei_ext_targets := (namei_ext_targets st)(?b := ts)\<rparr>"
      using assms Inr by (auto simp: register_publish_def Let_def split: if_splits prod.splits option.splits)
    obtain xs ys where xy: "namei_ext_targets st ?b = xs @ o' # ys" "ts = xs @ ?new # ys"
      using replace_first_Some [OF ts(1)] by blast
    have "in_table st' t" if tab: "in_table st t" and ne: "t \<noteq> o'" for t
    proof -
      obtain b where b: "t \<in> set (namei_ext_targets st b)" using tab by (auto simp: in_table_def)
      then have "t \<in> set (namei_ext_targets st' b)" using ne ts(2) xy by auto
      then show ?thesis by (auto simp: in_table_def)
    qed
    then show thesis using Inr Some replaced by blast
  qed
qed

lemma clear_publish_table:
  assumes "clear_publish cg st = (ts, st')" "in_table st t"
  shows "in_table st' t \<or> t \<in> set ts"
proof -
  have f: "fold (clear_bucket cg) all_buckets (namei_ext_targets st, []) = (namei_ext_targets st', ts)"
    using assms(1) by (auto simp: clear_publish_def Let_def split: prod.splits)
  show ?thesis
    using assms(2) f fold_clear_bucket [OF distinct_all_buckets, of cg "namei_ext_targets st" "[]"]
    by (auto simp: in_table_def all_buckets_UNIV)
qed

lemma in_table_refs [simp]:
  "in_table (path_get p st) t = in_table st t"
  "in_table (path_put p st) t = in_table st t"
  "in_table (retire_targets ts st) t = in_table st t"
  by (simp_all add: in_table_def retire_targets_def)

lemma find_in_table: "namei_ext_find_target_rcu hb cg tid st = Some t \<Longrightarrow> in_table st t"
  by (auto simp: namei_ext_find_target_rcu_def in_table_def find_Some_iff intro: nth_mem)

lemma borrowed_safeI:
  assumes "\<And>r t. rs_readers s r = Some (Some t) \<Longrightarrow>
     in_table (rs_st s) t \<or> (\<exists>(ts, W)\<in>set (rs_retired s). t \<in> set ts \<and> r \<in> W)"
  shows "borrowed_safe s"
  using assms by (auto simp: borrowed_safe_def)

lemma borrowed_safeD:
  "borrowed_safe s \<Longrightarrow> rs_readers s r = Some (Some t) \<Longrightarrow>
     in_table (rs_st s) t \<or> (\<exists>ts W. (ts, W) \<in> set (rs_retired s) \<and> t \<in> set ts \<and> r \<in> W)"
  by (auto simp: borrowed_safe_def)

lemma rcu_step_safe:
  assumes "rcu_step hb s s'" "borrowed_safe s"
  shows "borrowed_safe s'"
  using assms(1)
proof cases
  case (read_lock r)
  show ?thesis
    unfolding read_lock by (rule borrowed_safeI) (use borrowed_safeD [OF assms(2)] in \<open>auto split: if_splits\<close>)
next
  case (borrow r cg tid t)
  show ?thesis
    unfolding borrow
    by (rule borrowed_safeI)
       (use borrowed_safeD [OF assms(2)] find_in_table [OF borrow(3)] in \<open>auto split: if_splits\<close>)
next
  case (read_unlock r)
  show ?thesis
    unfolding read_unlock
    by (rule borrowed_safeI) (use borrowed_safeD [OF assms(2)] in \<open>fastforce split: if_splits\<close>)
next
  case (register alloc cg tid p old st')
  show ?thesis
  proof (cases rule: register_publish_cases [OF register(2)])
    case (3 t)
    show ?thesis
      unfolding register
    proof (rule borrowed_safeI)
      fix r u
      let ?s = "s\<lparr>rs_st := st', rs_retired := (case old of None \<Rightarrow> rs_retired s | Some t \<Rightarrow> ([t], inside s) # rs_retired s)\<rparr>"
      assume "rs_readers ?s r = Some (Some u)"
      then have r: "rs_readers s r = Some (Some u)" by simp
      show "in_table (rs_st ?s) u \<or> (\<exists>(ts, W)\<in>set (rs_retired ?s). u \<in> set ts \<and> r \<in> W)"
        using borrowed_safeD [OF assms(2) r] 3 r by (cases "u = t") (auto simp: inside_def)
    qed
  next
    case 2
    then have "old = None" by simp
    then show ?thesis
      unfolding register
      by (intro borrowed_safeI) (use borrowed_safeD [OF assms(2)] 2 in fastforce)
  qed simp
next
  case (register_refused alloc cg tid p e st')
  have "st' = path_get p (rs_st s)"
    using register_refused(2) by (cases rule: register_publish_cases) auto
  then show ?thesis
    unfolding register_refused by (intro borrowed_safeI) (use borrowed_safeD [OF assms(2)] in auto)
next
  case (clear cg ts st')
  show ?thesis
    unfolding clear
  proof (rule borrowed_safeI)
    fix r u
    let ?s = "s\<lparr>rs_st := st', rs_retired := (ts, inside s) # rs_retired s\<rparr>"
    assume "rs_readers ?s r = Some (Some u)"
    then have r: "rs_readers s r = Some (Some u)" by simp
    show "in_table (rs_st ?s) u \<or> (\<exists>(ts, W)\<in>set (rs_retired ?s). u \<in> set ts \<and> r \<in> W)"
      using borrowed_safeD [OF assms(2) r] clear_publish_table [OF clear(2), of u] r
      by (auto simp: inside_def)
  qed
next
  case (retire xs ts ys)
  show ?thesis
    unfolding retire(1)
  proof (rule borrowed_safeI)
    fix r u
    let ?s = "s\<lparr>rs_st := retire_targets ts (rs_st s), rs_retired := xs @ ys\<rparr>"
    assume "rs_readers ?s r = Some (Some u)"
    then have r: "rs_readers s r = Some (Some u)" by simp
    show "in_table (rs_st ?s) u \<or> (\<exists>(ts, W)\<in>set (rs_retired ?s). u \<in> set ts \<and> r \<in> W)"
      using borrowed_safeD [OF assms(2) r] retire(2) by auto
  qed
qed

subsection \<open>References\<close>

lemma outside_refs_put_list:
  "outside_refs (path_put_list ps st) q = outside_refs st q - int (count_list ps q)"
  by (simp add: outside_refs_def path_put_list_eq)

lemma outside_refs_get: "outside_refs (path_get p st) q = outside_refs st q + of_bool (q = p)"
  by (simp add: outside_refs_def path_get_eq)

lemma outside_refs_put: "outside_refs (path_put p st) q = outside_refs st q - of_bool (q = p)"
  by (simp add: outside_refs_def path_put_eq)

lemma register_publish_outside:
  assumes "register_publish hb alloc cg tid p st = (Inr old, st')"
  shows "outside_refs st' q = outside_refs st q - of_bool (q = p) +
           (case old of None \<Rightarrow> 0 | Some t \<Rightarrow> of_bool (q = t_path t))"
  using register_target_outside [of hb alloc cg tid p st q] assms
  by (auto simp: register_halves retire_targets_def outside_refs_put_list split: option.splits)

lemma clear_publish_outside:
  assumes "clear_publish cg st = (ts, st')"
  shows "outside_refs st' q = outside_refs st q + int (count_list (map t_path ts) q)"
  using clear_targets_outside [of cg st] assms
  by (auto simp: clear_halves retire_targets_def fun_eq_iff outside_refs_put_list split: if_splits)
     (metis add.commute diff_add_cancel)

lemma rcu_step_refs:
  assumes "rcu_step hb s s'"
  shows "others_refs s' = others_refs s"
proof
  fix q
  show "others_refs s' q = others_refs s q"
    using assms
  proof cases
    case (register alloc cg tid p old st')
    then show ?thesis
      using register_publish_outside [OF register(2), of q]
      by (auto simp: others_refs_def outside_refs_get split: option.splits)
  next
    case (register_refused alloc cg tid p e st')
    have "st' = path_get p (rs_st s)"
      using register_refused(2) by (cases rule: register_publish_cases) auto
    then show ?thesis
      unfolding register_refused by (simp add: others_refs_def outside_refs_put outside_refs_get)
  next
    case (clear cg ts st')
    then show ?thesis
      using clear_publish_outside [OF clear(2), of q] by (simp add: others_refs_def)
  next
    case (retire xs ts ys)
    then show ?thesis
      by (simp add: others_refs_def retire_targets_def outside_refs_put_list)
  qed (simp_all add: others_refs_def)
qed

lemma in_table_holds:
  assumes "in_table st t"
  shows "target_holds st (t_path t) \<ge> 1"
proof -
  obtain b where b: "t \<in> set (namei_ext_targets st b)" using assms by (auto simp: in_table_def)
  have "1 \<le> int (count_list (map t_path (namei_ext_targets st b)) (t_path t))"
    using b count_list_0_iff [of "map t_path (namei_ext_targets st b)" "t_path t"] by fastforce
  also have "\<dots> \<le> target_holds st (t_path t)"
    unfolding target_holds_def by (rule member_le_sum) auto
  finally show ?thesis .
qed

lemma retired_holds_nonneg: "retired_holds rt p \<ge> 0"
  by (induction rt) auto

lemma retired_holds_member:
  assumes "(ts, W) \<in> set rt" "t \<in> set ts"
  shows "retired_holds rt (t_path t) \<ge> 1"
  using assms(1)
proof (induction rt)
  case (Cons x rt)
  obtain xs V where x: "x = (xs, V)" by (cases x)
  have "1 \<le> int (count_list (map t_path ts) (t_path t))"
    using assms(2) count_list_0_iff [of "map t_path ts" "t_path t"] by fastforce
  then show ?case
    using Cons x retired_holds_nonneg [of rt "t_path t"] by auto
qed simp

lemma target_holds_nonneg: "target_holds st p \<ge> 0"
  unfolding target_holds_def by (rule sum_nonneg) simp

lemma rcu_steps_safe:
  assumes "rcu_steps hb s s'" "borrowed_safe s"
  shows "borrowed_safe s' \<and> others_refs s' = others_refs s"
  using assms by (induction rule: rcu_steps.induct) (auto simp: rcu_step_refs intro: rcu_step_safe)

text \<open>Whatever runs beside it, a reader's borrowed path keeps a reference of the registry.\<close>

lemma borrowed_pinned:
  assumes "rcu_steps hb (rcu_start st) s" "rs_readers s r = Some (Some t)"
  shows "ks_path_refs (rs_st s) (t_path t) \<ge> outside_refs st (t_path t) + 1"
proof -
  have start: "borrowed_safe (rcu_start st)" "others_refs (rcu_start st) = outside_refs st"
    by (simp_all add: borrowed_safe_def rcu_start_def others_refs_def fun_eq_iff)
  have safe: "borrowed_safe s" and refs: "others_refs s = outside_refs st"
    using rcu_steps_safe [OF assms(1) start(1)] start(2) by auto
  have "target_holds (rs_st s) (t_path t) + retired_holds (rs_retired s) (t_path t) \<ge> 1"
    using borrowed_safeD [OF safe assms(2)]
  proof
    assume "in_table (rs_st s) t"
    then show ?thesis
      using in_table_holds [of "rs_st s" t] retired_holds_nonneg [of "rs_retired s" "t_path t"] by simp
  next
    assume "\<exists>ts W. (ts, W) \<in> set (rs_retired s) \<and> t \<in> set ts \<and> r \<in> W"
    then show ?thesis
      using retired_holds_member [of _ _ "rs_retired s" t] target_holds_nonneg [of "rs_st s" "t_path t"]
      by fastforce
  qed
  moreover have "ks_path_refs (rs_st s) (t_path t) =
      outside_refs st (t_path t) + target_holds (rs_st s) (t_path t) + retired_holds (rs_retired s) (t_path t)"
    using fun_cong [OF refs, of "t_path t"] by (simp add: others_refs_def outside_refs_def)
  ultimately show ?thesis by simp
qed

end
