(* ===== verification/Scope_Seq.thy ===== *)
theory Scope_Seq
  imports Reach
begin

text \<open>
  The lock-free reader of the scope tables. Every change of the tables happens between
  \<open>write_seqcount_begin\<close> and \<open>write_seqcount_end\<close> of \<open>namei_ext_scope_seq\<close> under its spinlock;
  \<open>namei_ext_parent_maybe_managed\<close> reads the sequence, the counters and the bucket at
  different moments and retries when the sequence has moved. A run of the system is a
  function from moments to states; the reader is given the moments of its reads. The
  sequence count is unbounded here: the reader is assumed not to sleep through \<open>2 ^ 31\<close>
  updates between two reads.
\<close>

subsection \<open>The writer side\<close>

record seq_sys =
  sq_seq :: nat
  sq_st :: kstate

inductive seq_step :: "seq_sys \<Rightarrow> seq_sys \<Rightarrow> bool" where
  idle: "seq_step s s"
| write_begin: "even (sq_seq s) \<Longrightarrow> seq_step s (s\<lparr>sq_seq := Suc (sq_seq s)\<rparr>)"
| write_tables: "odd (sq_seq s) \<Longrightarrow> seq_step s (s\<lparr>sq_st := st'\<rparr>)"
| write_end: "odd (sq_seq s) \<Longrightarrow> seq_step s (s\<lparr>sq_seq := Suc (sq_seq s)\<rparr>)"

inductive_cases seq_stepE: "seq_step s s'"

definition seq_run :: "(nat \<Rightarrow> seq_sys) \<Rightarrow> bool" where
  "seq_run \<sigma> \<longleftrightarrow> (\<forall>n. seq_step (\<sigma> n) (\<sigma> (Suc n)))"

lemma seq_run_mono:
  assumes "seq_run \<sigma>" "i \<le> j"
  shows "sq_seq (\<sigma> i) \<le> sq_seq (\<sigma> j)"
  using assms(2)
proof (induction j rule: dec_induct)
  case (step n)
  have "seq_step (\<sigma> n) (\<sigma> (Suc n))" using assms(1) by (simp add: seq_run_def)
  then have "sq_seq (\<sigma> n) \<le> sq_seq (\<sigma> (Suc n))" by cases auto
  then show ?case using step by simp
qed simp

text \<open>While an even sequence number stays, so do the tables.\<close>

lemma seq_run_stable:
  assumes "seq_run \<sigma>" "even (sq_seq (\<sigma> i))" "i \<le> k" "k \<le> j" "sq_seq (\<sigma> j) = sq_seq (\<sigma> i)"
  shows "sq_st (\<sigma> k) = sq_st (\<sigma> i)"
  using assms(3,4)
proof (induction k rule: dec_induct)
  case (step n)
  have "sq_seq (\<sigma> n) = sq_seq (\<sigma> i)"
    using seq_run_mono [OF assms(1), of i n] seq_run_mono [OF assms(1), of n j] step assms(5) by simp
  moreover have "seq_step (\<sigma> n) (\<sigma> (Suc n))" using assms(1) by (simp add: seq_run_def)
  ultimately have "sq_st (\<sigma> (Suc n)) = sq_st (\<sigma> n)"
    using assms(2) by (elim seq_stepE) auto
  then show ?case using step by simp
qed simp

subsection \<open>The reader\<close>

text \<open>
  One round of the loop: the moments of \<open>read_seqcount_begin\<close> (which waits for an even
  number), of the read of the global counter, of the bucket and of \<open>read_seqcount_retry\<close>.
\<close>

type_synonym moments = "nat \<times> nat \<times> nat \<times> nat"

definition round_ok :: "(nat \<Rightarrow> seq_sys) \<Rightarrow> moments \<Rightarrow> bool" where
  "round_ok \<sigma> m = (case m of (a, b, c, d) \<Rightarrow> even (sq_seq (\<sigma> a)) \<and> a \<le> b \<and> b \<le> c \<and> c \<le> d)"

definition bucket_has :: "hashfn \<Rightarrow> path \<Rightarrow> kstate \<Rightarrow> bool" where
  "bucket_has hb parent st =
     list_ex (\<lambda>e. path_equal (snd e) parent) (namei_ext_scope_index st (hb (namei_ext_scope_key parent)))"

fun managed_loop :: "hashfn \<Rightarrow> path \<Rightarrow> (nat \<Rightarrow> seq_sys) \<Rightarrow> moments list \<Rightarrow> bool option" where
  "managed_loop hb parent \<sigma> [] = None"
| "managed_loop hb parent \<sigma> ((a, b, c, d) # rounds) =
     (let found = namei_ext_global_scope_users (sq_st (\<sigma> b)) \<noteq> 0;
          found = (if found then True else bucket_has hb parent (sq_st (\<sigma> c)))
      in if sq_seq (\<sigma> d) \<noteq> sq_seq (\<sigma> a) then managed_loop hb parent \<sigma> rounds else Some found)"

definition parent_maybe_managed_seq ::
  "hashfn \<Rightarrow> path \<Rightarrow> (nat \<Rightarrow> seq_sys) \<Rightarrow> moments \<Rightarrow> moments list \<Rightarrow> bool option" where
  "parent_maybe_managed_seq hb parent \<sigma> first rounds =
     (case first of (a, b, c, d) \<Rightarrow>
        if namei_ext_global_scope_users (sq_st (\<sigma> b)) = 0 \<and>
           namei_ext_exact_scope_users (sq_st (\<sigma> c)) = 0 \<and> sq_seq (\<sigma> d) = sq_seq (\<sigma> a)
        then Some False
        else managed_loop hb parent \<sigma> rounds)"

subsection \<open>Linearisation\<close>

text \<open>
  The loop answers what the sequential definition answers, except that it looks into the
  bucket also when both counters are zero; with the index counted, that finds nothing.
\<close>

lemma index_counted:
  assumes "scopes_inv hb st" "namei_ext_exact_scope_users st = 0"
  shows "\<not> bucket_has hb parent st"
proof -
  have "counts (namei_ext_exact_scope_users st) (card (index_nodes st))"
    using assms(1) unfolding scopes_inv_def index_ok_def by blast
  then have "card (index_nodes st) = 0" using assms(2) by (simp add: counts_def)
  then have "index_nodes st = {}" by simp
  then show ?thesis by (auto simp: bucket_has_def index_nodes_def list_ex_iff)
qed

lemma managed_bucket:
  assumes "scopes_inv hb st"
  shows "namei_ext_parent_maybe_managed hb parent st \<longleftrightarrow>
           namei_ext_global_scope_users st \<noteq> 0 \<or> bucket_has hb parent st"
  using index_counted [OF assms, of parent]
  by (auto simp: namei_ext_parent_maybe_managed_def bucket_has_def)

definition quiescent_inv :: "hashfn \<Rightarrow> (nat \<Rightarrow> seq_sys) \<Rightarrow> bool" where
  "quiescent_inv hb \<sigma> \<longleftrightarrow> (\<forall>n. even (sq_seq (\<sigma> n)) \<longrightarrow> scopes_inv hb (sq_st (\<sigma> n)))"

lemma round_answers:
  assumes "seq_run \<sigma>" "round_ok \<sigma> (a, b, c, d)" "sq_seq (\<sigma> d) = sq_seq (\<sigma> a)"
  shows "sq_st (\<sigma> b) = sq_st (\<sigma> a)" "sq_st (\<sigma> c) = sq_st (\<sigma> a)"
  using assms seq_run_stable [OF assms(1), of a b d] seq_run_stable [OF assms(1), of a c d]
  by (simp_all add: round_ok_def)

lemma managed_loop_linear:
  assumes "seq_run \<sigma>" "quiescent_inv hb \<sigma>" "\<forall>m\<in>set rounds. round_ok \<sigma> m"
    and "managed_loop hb parent \<sigma> rounds = Some r"
  shows "\<exists>k\<in>fst ` set rounds. even (sq_seq (\<sigma> k)) \<and> r = namei_ext_parent_maybe_managed hb parent (sq_st (\<sigma> k))"
  using assms(3,4)
proof (induction rounds)
  case (Cons m rounds)
  obtain a b c d where m: "m = (a, b, c, d)" by (cases m)
  show ?case
  proof (cases "sq_seq (\<sigma> d) = sq_seq (\<sigma> a)")
    case True
    have ok: "round_ok \<sigma> (a, b, c, d)" using Cons.prems m by simp
    then have ev: "even (sq_seq (\<sigma> a))" by (simp add: round_ok_def)
    then have inv: "scopes_inv hb (sq_st (\<sigma> a))" using assms(2) by (simp add: quiescent_inv_def)
    have "r = namei_ext_parent_maybe_managed hb parent (sq_st (\<sigma> a))"
      using Cons.prems(2) m True round_answers [OF assms(1) ok True]
      by (simp add: Let_def managed_bucket [OF inv] split: if_splits)
    then show ?thesis using m ev by simp
  next
    case False
    then show ?thesis using Cons m by simp
  qed
qed simp

lemma reader_linear:
  assumes "seq_run \<sigma>" "quiescent_inv hb \<sigma>" "round_ok \<sigma> first" "\<forall>m\<in>set rounds. round_ok \<sigma> m"
    and "parent_maybe_managed_seq hb parent \<sigma> first rounds = Some r"
  shows "\<exists>k\<in>fst ` set (first # rounds). even (sq_seq (\<sigma> k)) \<and>
           r = namei_ext_parent_maybe_managed hb parent (sq_st (\<sigma> k))"
proof -
  obtain a b c d where f: "first = (a, b, c, d)" by (cases first)
  show ?thesis
  proof (cases "namei_ext_global_scope_users (sq_st (\<sigma> b)) = 0 \<and>
      namei_ext_exact_scope_users (sq_st (\<sigma> c)) = 0 \<and> sq_seq (\<sigma> d) = sq_seq (\<sigma> a)")
    case True
    have ok: "round_ok \<sigma> (a, b, c, d)" using assms(3) f by simp
    have "namei_ext_parent_maybe_managed hb parent (sq_st (\<sigma> a)) = False"
      using True round_answers [OF assms(1) ok] by (simp add: namei_ext_parent_maybe_managed_def)
    then show ?thesis
      using assms(5) True f ok by (simp add: parent_maybe_managed_seq_def round_ok_def)
  next
    case False
    then have "managed_loop hb parent \<sigma> rounds = Some r"
      using assms(5) f by (auto simp: parent_maybe_managed_seq_def split: if_splits)
    from managed_loop_linear [OF assms(1,2,4) this] show ?thesis by auto
  qed
qed

text \<open>One round without a writer in it is enough for an answer.\<close>

lemma managed_loop_ends:
  assumes "(a, b, c, d) \<in> set rounds" "sq_seq (\<sigma> d) = sq_seq (\<sigma> a)"
  shows "managed_loop hb parent \<sigma> rounds \<noteq> None"
  using assms(1)
proof (induction rounds)
  case (Cons m rounds)
  then show ?case using assms(2) by (cases m) (auto simp: Let_def)
qed simp

lemma reader_ends:
  assumes "(a, b, c, d) \<in> set rounds" "sq_seq (\<sigma> d) = sq_seq (\<sigma> a)"
  shows "\<exists>r. parent_maybe_managed_seq hb parent \<sigma> first rounds = Some r"
  using managed_loop_ends [OF assms, of hb parent]
  by (cases first) (auto simp: parent_maybe_managed_seq_def)

text \<open>
  A parent that is in scope at every quiescent moment of the call is never reported as
  unmanaged, however the updates of other scopes fall.
\<close>

lemma reader_no_false_negative:
  assumes "seq_run \<sigma>" "quiescent_inv hb \<sigma>" "round_ok \<sigma> first" "\<forall>m\<in>set rounds. round_ok \<sigma> m"
    and "\<And>k. k \<in> fst ` set (first # rounds) \<Longrightarrow> even (sq_seq (\<sigma> k)) \<Longrightarrow>
           scope_counted (sq_st (\<sigma> k)) cg \<and> namei_ext_policy_parent_matches cg parent (sq_st (\<sigma> k))"
    and "parent_maybe_managed_seq hb parent \<sigma> first rounds = Some r"
  shows "r"
proof -
  obtain k where k: "k \<in> fst ` set (first # rounds)" "even (sq_seq (\<sigma> k))"
    "r = namei_ext_parent_maybe_managed hb parent (sq_st (\<sigma> k))"
    using reader_linear [OF assms(1-4,6)] by blast
  moreover have "scopes_inv hb (sq_st (\<sigma> k))" using assms(2) k(2) by (simp add: quiescent_inv_def)
  ultimately show ?thesis
    using matches_maybe_managed assms(5) [OF k(1,2)] by blast
qed

end
