(* ===== verification/Policies_View.thy ===== *)
theory Policies_View
  imports Policy_Lib
begin

text \<open>
  The three view families that redirect by a fixed alias table and then by rules of
  the session's epoch: \<open>checkpoint_restore_view\<close>, \<open>build_graph_view\<close> and
  \<open>sandbox_fixture_view\<close>.
\<close>

text \<open>
  The chains of \<^verbatim>\<open>if (apply_rule(ctx, CLASS) == REDIRECT) return REDIRECT;\<close>: the first
  class whose rule redirects wins, any other answer of a class is dropped, and the last
  call decides.
\<close>

fun first_redirect :: "(ctx \<Rightarrow> u32 \<Rightarrow> u32 \<times> ctx) \<Rightarrow> u32 list \<Rightarrow> (ctx \<Rightarrow> u32 \<times> ctx) \<Rightarrow> ctx \<Rightarrow> u32 \<times> ctx" where
  "first_redirect ap [] final c = final c"
| "first_redirect ap (k # ks) final c =
     (let (action, c') = ap c k
      in if action = BPF_NAMEI_EXT_REDIRECT then (BPF_NAMEI_EXT_REDIRECT, c')
         else first_redirect ap ks final c')"

lemma first_redirect_ok:
  assumes "\<And>c k. decision_ok c (ap c k)" "\<And>c. decision_ok c (final c)"
  shows "decision_ok c (first_redirect ap ks final c)"
proof (induction ks arbitrary: c)
  case Nil
  then show ?case using assms(2) by simp
next
  case (Cons k ks)
  have "decision_ok c (first_redirect ap ks final (snd (ap c k)))"
    using assms(1) Cons.IH by (rule decision_ok_trans)
  moreover have "decision_ok c (BPF_NAMEI_EXT_REDIRECT, snd (ap c k))"
    using assms(1) [of c k] by (simp add: decision_ok_def)
  ultimately show ?case by (simp add: split_beta)
qed

text \<open>An alias table tried in order.\<close>

fun alias_chain :: "(bytes \<times> bytes) list \<Rightarrow> (ctx \<Rightarrow> u32 \<times> ctx) \<Rightarrow> ctx \<Rightarrow> u32 \<times> ctx" where
  "alias_chain [] rest c = rest c"
| "alias_chain ((from, to) # al) rest c =
     (if namei_ext_is c from then (BPF_NAMEI_EXT_REDIRECT, namei_ext_redirect_literal c to)
      else alias_chain al rest c)"

lemma alias_chain_ok:
  "(\<And>c. decision_ok c (rest c)) \<Longrightarrow> decision_ok c (alias_chain al rest c)"
  by (induction al) auto

lemma alias_chain_hit:
  assumes "ctx_named c s" "map_of al s = Some t" "\<forall>x\<in>fst ` set al. length x \<le> 64"
  shows "alias_chain al rest c = (BPF_NAMEI_EXT_REDIRECT, namei_ext_redirect_literal c t)"
  using assms(2,3)
proof (induction al)
  case (Cons p al)
  then show ?case
    using assms(1) by (cases p) (auto simp: namei_ext_is_named split: if_splits)
qed simp

lemma alias_chain_miss:
  assumes "ctx_named c s" "map_of al s = None" "\<forall>x\<in>fst ` set al. length x \<le> 64"
  shows "alias_chain al rest c = rest c"
  using assms(2,3)
proof (induction al)
  case (Cons p al)
  then show ?case
    using assms(1) by (cases p) (auto simp: namei_ext_is_named split: if_splits)
qed simp

text \<open>
  The lookup table of a family read backwards is its readdir table, so a name that
  lookup maps to a lower entry is the name under which readdir shows that entry.
\<close>

definition swap_aliases :: "(bytes \<times> bytes) list \<Rightarrow> (bytes \<times> bytes) list" where
  "swap_aliases al = map (\<lambda>(a, b). (b, a)) al"

subsection \<open>checkpoint\_restore\_view\<close>

definition CHECKPOINT_CLASS_STATE :: u32 where "CHECKPOINT_CLASS_STATE = 1"
definition CHECKPOINT_CLASS_CONFIG :: u32 where "CHECKPOINT_CLASS_CONFIG = 2"
definition CHECKPOINT_CLASS_CACHE :: u32 where "CHECKPOINT_CLASS_CACHE = 3"
definition CHECKPOINT_CLASS_RUNTIME :: u32 where "CHECKPOINT_CLASS_RUNTIME = 4"
definition CHECKPOINT_CLASS_MIXED_EPOCH :: u32 where "CHECKPOINT_CLASS_MIXED_EPOCH = 5"

record checkpoint_session =
  cks_restore_id :: u32
  cks_checkpoint_epoch :: u32
  cks_active :: u32
  cks_reserved :: u32

record checkpoint_rule_key =
  ckk_component :: ckey
  ckk_path_class :: u32
  ckk_checkpoint_epoch :: u32

record checkpoint_rule =
  ckr_redirect :: rrule

record checkpoint_maps =
  checkpoint_sessions :: "u64 \<rightharpoonup> checkpoint_session"
  checkpoint_rules :: "checkpoint_rule_key \<rightharpoonup> checkpoint_rule"

definition checkpoint_epoch :: "checkpoint_maps \<Rightarrow> ctx \<Rightarrow> u32" where
  "checkpoint_epoch m c =
     (case checkpoint_sessions m (c_cgroup_id c) of
        None \<Rightarrow> 1
      | Some session \<Rightarrow> if cks_active session = 0 then 1 else cks_checkpoint_epoch session)"

definition apply_checkpoint_rule :: "checkpoint_maps \<Rightarrow> ctx \<Rightarrow> u32 \<Rightarrow> u32 \<times> ctx" where
  "apply_checkpoint_rule m c path_class =
     (let key = \<lparr> ckk_component = namei_ext_build_component_key c zero_component_key,
                  ckk_path_class = path_class, ckk_checkpoint_epoch = checkpoint_epoch m c \<rparr>
      in case checkpoint_rules m key of
           None \<Rightarrow> (BPF_NAMEI_EXT_PASS, c)
         | Some rule \<Rightarrow> namei_ext_apply_rule c (Some (ckr_redirect rule)))"

definition checkpoint_aliases :: "(bytes \<times> bytes) list" where
  "checkpoint_aliases =
     [(''dump.rdb'', ''dump.ckpt''), (''appendonly.aof'', ''aof.ckpt''),
      (''nginx.conf'', ''nginx.ckpt''), (''cache.db'', ''cache.ckpt''),
      (''redis.sock'', ''redis.sock.new''), (''nginx.pid'', ''nginx.pid.new''),
      (''epoch.bad'', ''poison.epoch'')]"

definition checkpoint_lookup :: "checkpoint_maps \<Rightarrow> ctx \<Rightarrow> u32 \<times> ctx" where
  "checkpoint_lookup m =
     alias_chain checkpoint_aliases
       (first_redirect (apply_checkpoint_rule m)
          [CHECKPOINT_CLASS_STATE, CHECKPOINT_CLASS_CONFIG, CHECKPOINT_CLASS_CACHE,
           CHECKPOINT_CLASS_RUNTIME]
          (\<lambda>c. apply_checkpoint_rule m c CHECKPOINT_CLASS_MIXED_EPOCH))"

definition checkpoint_readdir_aliases :: "(bytes \<times> bytes) list" where
  "checkpoint_readdir_aliases =
     [(''dump.ckpt'', ''dump.rdb''), (''aof.ckpt'', ''appendonly.aof''),
      (''nginx.ckpt'', ''nginx.conf''), (''cache.ckpt'', ''cache.db''),
      (''redis.sock.new'', ''redis.sock''), (''nginx.pid.new'', ''nginx.pid''),
      (''poison.epoch'', ''epoch.bad'')]"

definition checkpoint_readdir :: "checkpoint_maps \<Rightarrow> ctx \<Rightarrow> u32 \<times> ctx" where
  "checkpoint_readdir m =
     alias_chain checkpoint_readdir_aliases
       (\<lambda>c. apply_checkpoint_rule m c CHECKPOINT_CLASS_STATE)"

definition checkpoint_restore_view_policy :: "checkpoint_maps policy" where
  "checkpoint_restore_view_policy c m =
     (if c_event c = BPF_NAMEI_EXT_LOOKUP then
        (let (action, c') = checkpoint_lookup m c in (action, c', m))
      else if c_event c = BPF_NAMEI_EXT_READDIR then
        (let (action, c') = checkpoint_readdir m c in (action, c', m))
      else (BPF_NAMEI_EXT_PASS, c, m))"

lemma apply_checkpoint_rule_ok: "decision_ok c (apply_checkpoint_rule m c k)"
  by (simp add: apply_checkpoint_rule_def Let_def split: option.split)

lemma checkpoint_lookup_ok: "decision_ok c (checkpoint_lookup m c)"
  unfolding checkpoint_lookup_def
  by (intro alias_chain_ok first_redirect_ok apply_checkpoint_rule_ok)

lemma checkpoint_readdir_ok: "decision_ok c (checkpoint_readdir m c)"
  unfolding checkpoint_readdir_def by (intro alias_chain_ok apply_checkpoint_rule_ok)

interpretation checkpoint_restore_view: namei_policy checkpoint_restore_view_policy
proof (rule namei_policyI)
  fix c m
  show "\<exists>r. decision_ok c r \<and> checkpoint_restore_view_policy c m = (fst r, snd r, m)"
    using checkpoint_lookup_ok [of c m] checkpoint_readdir_ok [of c m]
      decision_ok_keep [of BPF_NAMEI_EXT_PASS c]
    by (auto simp: checkpoint_restore_view_policy_def split_beta intro: exI [of _ "(0, c)"])
qed

subsection \<open>build\_graph\_view\<close>

definition BUILD_BRANCH_GENERATED :: u32 where "BUILD_BRANCH_GENERATED = 1"
definition BUILD_BRANCH_SOURCE_FALLBACK :: u32 where "BUILD_BRANCH_SOURCE_FALLBACK = 2"
definition BUILD_BRANCH_TOOLCHAIN :: u32 where "BUILD_BRANCH_TOOLCHAIN = 3"
definition BUILD_BRANCH_EXTERNAL_DEP :: u32 where "BUILD_BRANCH_EXTERNAL_DEP = 4"
definition BUILD_BRANCH_UNDECLARED_POISON :: u32 where "BUILD_BRANCH_UNDECLARED_POISON = 5"

record build_graph_rule =
  bgr_redirect :: rrule

record build_graph_session =
  bgs_build_epoch :: u32
  bgs_active :: u32
  bgs_reserved :: "u32 list"

record build_graph_epoch_rule_key =
  bgk_component :: ckey
  bgk_branch_class :: u32
  bgk_build_epoch :: u32

record build_graph_epoch_rule =
  bge_redirect :: rrule
  bge_branch_class :: u32
  bge_reserved :: u32

record build_graph_maps =
  build_graph_rules :: "ckey \<rightharpoonup> build_graph_rule"
  build_graph_sessions :: "u64 \<rightharpoonup> build_graph_session"
  build_graph_epoch_rules :: "build_graph_epoch_rule_key \<rightharpoonup> build_graph_epoch_rule"

definition build_epoch :: "build_graph_maps \<Rightarrow> ctx \<Rightarrow> u32" where
  "build_epoch m c =
     (case build_graph_sessions m (c_cgroup_id c) of
        None \<Rightarrow> 1
      | Some session \<Rightarrow> if bgs_active session = 0 then 1 else bgs_build_epoch session)"

definition apply_build_rule :: "build_graph_maps \<Rightarrow> ctx \<Rightarrow> u32 \<times> ctx" where
  "apply_build_rule m c =
     (case build_graph_rules m (namei_ext_build_component_key c zero_component_key) of
        None \<Rightarrow> (BPF_NAMEI_EXT_PASS, c)
      | Some rule \<Rightarrow> namei_ext_apply_rule c (Some (bgr_redirect rule)))"

definition apply_build_epoch_rule :: "build_graph_maps \<Rightarrow> ctx \<Rightarrow> u32 \<Rightarrow> u32 \<times> ctx" where
  "apply_build_epoch_rule m c branch_class =
     (let key = \<lparr> bgk_component = namei_ext_build_component_key c zero_component_key,
                  bgk_branch_class = branch_class, bgk_build_epoch = build_epoch m c \<rparr>
      in case build_graph_epoch_rules m key of
           None \<Rightarrow> (BPF_NAMEI_EXT_PASS, c)
         | Some rule \<Rightarrow> namei_ext_apply_rule c (Some (bge_redirect rule)))"

definition apply_dynamic_build_rules :: "build_graph_maps \<Rightarrow> ctx \<Rightarrow> u32 \<times> ctx" where
  "apply_dynamic_build_rules m =
     first_redirect (apply_build_epoch_rule m)
       [BUILD_BRANCH_GENERATED, BUILD_BRANCH_SOURCE_FALLBACK, BUILD_BRANCH_TOOLCHAIN,
        BUILD_BRANCH_EXTERNAL_DEP, BUILD_BRANCH_UNDECLARED_POISON]
       (apply_build_rule m)"

definition build_aliases :: "(bytes \<times> bytes) list" where
  "build_aliases =
     [(''config.h'', ''config.gen.h''), (''version.h'', ''version.src.h''),
      (''cc'', ''cc.real''), (''libssl.so'', ''libssl.dep''), (''private.h'', ''poison.dep'')]"

definition build_lookup :: "build_graph_maps \<Rightarrow> ctx \<Rightarrow> u32 \<times> ctx" where
  "build_lookup m =
     alias_chain build_aliases
       (\<lambda>c. if namei_ext_is c ''missing.h'' then (BPF_NAMEI_EXT_PASS, c)
            else apply_dynamic_build_rules m c)"

definition build_readdir_aliases :: "(bytes \<times> bytes) list" where
  "build_readdir_aliases =
     [(''config.gen.h'', ''config.h''), (''version.src.h'', ''version.h''),
      (''cc.real'', ''cc''), (''libssl.dep'', ''libssl.so''), (''poison.dep'', ''private.h'')]"

definition build_readdir :: "build_graph_maps \<Rightarrow> ctx \<Rightarrow> u32 \<times> ctx" where
  "build_readdir m = alias_chain build_readdir_aliases (apply_dynamic_build_rules m)"

definition build_graph_view_policy :: "build_graph_maps policy" where
  "build_graph_view_policy c m =
     (if c_event c = BPF_NAMEI_EXT_LOOKUP then
        (let (action, c') = build_lookup m c in (action, c', m))
      else if c_event c = BPF_NAMEI_EXT_READDIR then
        (let (action, c') = build_readdir m c in (action, c', m))
      else (BPF_NAMEI_EXT_PASS, c, m))"

lemma apply_dynamic_build_rules_ok: "decision_ok c (apply_dynamic_build_rules m c)"
  unfolding apply_dynamic_build_rules_def
  by (intro first_redirect_ok)
     (simp_all add: apply_build_epoch_rule_def apply_build_rule_def Let_def split: option.split)

lemma build_lookup_ok: "decision_ok c (build_lookup m c)"
  unfolding build_lookup_def
  by (intro alias_chain_ok) (simp add: apply_dynamic_build_rules_ok)

lemma build_readdir_ok: "decision_ok c (build_readdir m c)"
  unfolding build_readdir_def by (intro alias_chain_ok apply_dynamic_build_rules_ok)

interpretation build_graph_view: namei_policy build_graph_view_policy
proof (rule namei_policyI)
  fix c m
  show "\<exists>r. decision_ok c r \<and> build_graph_view_policy c m = (fst r, snd r, m)"
    using build_lookup_ok [of c m] build_readdir_ok [of c m]
      decision_ok_keep [of BPF_NAMEI_EXT_PASS c]
    by (auto simp: build_graph_view_policy_def split_beta intro: exI [of _ "(0, c)"])
qed

subsection \<open>sandbox\_fixture\_view\<close>

definition FIXTURE_BRANCH_CONFIG :: u32 where "FIXTURE_BRANCH_CONFIG = 1"
definition FIXTURE_BRANCH_SECRET :: u32 where "FIXTURE_BRANCH_SECRET = 2"
definition FIXTURE_BRANCH_CERT :: u32 where "FIXTURE_BRANCH_CERT = 3"
definition FIXTURE_BRANCH_ENDPOINT :: u32 where "FIXTURE_BRANCH_ENDPOINT = 4"
definition FIXTURE_BRANCH_POISON :: u32 where "FIXTURE_BRANCH_POISON = 5"

record sandbox_fixture_rule =
  sfr_redirect :: rrule
  sfr_path_class :: u32

record sandbox_fixture_session =
  sfs_fixture_epoch :: u32
  sfs_active :: u32
  sfs_reserved :: "u32 list"

record sandbox_fixture_epoch_rule_key =
  sfk_component :: ckey
  sfk_path_class :: u32
  sfk_fixture_epoch :: u32

record sandbox_fixture_epoch_rule =
  sfe_redirect :: rrule
  sfe_path_class :: u32
  sfe_reserved :: u32

record fixture_maps =
  fixture_rules :: "ckey \<rightharpoonup> sandbox_fixture_rule"
  fixture_sessions :: "u64 \<rightharpoonup> sandbox_fixture_session"
  fixture_epoch_rules :: "sandbox_fixture_epoch_rule_key \<rightharpoonup> sandbox_fixture_epoch_rule"

definition fixture_epoch :: "fixture_maps \<Rightarrow> ctx \<Rightarrow> u32" where
  "fixture_epoch m c =
     (case fixture_sessions m (c_cgroup_id c) of
        None \<Rightarrow> 1
      | Some session \<Rightarrow> if sfs_active session = 0 then 1 else sfs_fixture_epoch session)"

definition apply_fixture_rule :: "fixture_maps \<Rightarrow> ctx \<Rightarrow> u32 \<times> ctx" where
  "apply_fixture_rule m c =
     (case fixture_rules m (namei_ext_build_component_key c zero_component_key) of
        None \<Rightarrow> (BPF_NAMEI_EXT_PASS, c)
      | Some rule \<Rightarrow> namei_ext_apply_rule c (Some (sfr_redirect rule)))"

definition apply_fixture_epoch_rule :: "fixture_maps \<Rightarrow> ctx \<Rightarrow> u32 \<Rightarrow> u32 \<times> ctx" where
  "apply_fixture_epoch_rule m c path_class =
     (let key = \<lparr> sfk_component = namei_ext_build_component_key c zero_component_key,
                  sfk_path_class = path_class, sfk_fixture_epoch = fixture_epoch m c \<rparr>
      in case fixture_epoch_rules m key of
           None \<Rightarrow> (BPF_NAMEI_EXT_PASS, c)
         | Some rule \<Rightarrow> namei_ext_apply_rule c (Some (sfe_redirect rule)))"

definition apply_dynamic_fixture_rules :: "fixture_maps \<Rightarrow> ctx \<Rightarrow> u32 \<times> ctx" where
  "apply_dynamic_fixture_rules m =
     first_redirect (apply_fixture_epoch_rule m)
       [FIXTURE_BRANCH_CONFIG, FIXTURE_BRANCH_SECRET, FIXTURE_BRANCH_CERT,
        FIXTURE_BRANCH_ENDPOINT, FIXTURE_BRANCH_POISON]
       (apply_fixture_rule m)"

definition fixture_aliases :: "(bytes \<times> bytes) list" where
  "fixture_aliases =
     [(''nginx.conf'', ''nginx.test.conf''), (''postgresql.conf'', ''postgres.test.conf''),
      (''db.password'', ''db.fake.pass''), (''server.crt'', ''server.fake.crt''),
      (''upstream.sock'', ''upstream.local''), (''prod.token'', ''poison.secret'')]"

definition fixture_lookup :: "fixture_maps \<Rightarrow> ctx \<Rightarrow> u32 \<times> ctx" where
  "fixture_lookup m = alias_chain fixture_aliases (apply_dynamic_fixture_rules m)"

definition fixture_readdir_aliases :: "(bytes \<times> bytes) list" where
  "fixture_readdir_aliases =
     [(''nginx.test.conf'', ''nginx.conf''), (''postgres.test.conf'', ''postgresql.conf''),
      (''db.fake.pass'', ''db.password''), (''server.fake.crt'', ''server.crt''),
      (''upstream.local'', ''upstream.sock''), (''poison.secret'', ''prod.token'')]"

definition fixture_readdir :: "fixture_maps \<Rightarrow> ctx \<Rightarrow> u32 \<times> ctx" where
  "fixture_readdir m = alias_chain fixture_readdir_aliases (apply_dynamic_fixture_rules m)"

definition sandbox_fixture_view_policy :: "fixture_maps policy" where
  "sandbox_fixture_view_policy c m =
     (if c_event c = BPF_NAMEI_EXT_LOOKUP then
        (let (action, c') = fixture_lookup m c in (action, c', m))
      else if c_event c = BPF_NAMEI_EXT_READDIR then
        (let (action, c') = fixture_readdir m c in (action, c', m))
      else (BPF_NAMEI_EXT_PASS, c, m))"

lemma apply_dynamic_fixture_rules_ok: "decision_ok c (apply_dynamic_fixture_rules m c)"
  unfolding apply_dynamic_fixture_rules_def
  by (intro first_redirect_ok)
     (simp_all add: apply_fixture_epoch_rule_def apply_fixture_rule_def Let_def split: option.split)

lemma fixture_lookup_ok: "decision_ok c (fixture_lookup m c)"
  unfolding fixture_lookup_def by (intro alias_chain_ok apply_dynamic_fixture_rules_ok)

lemma fixture_readdir_ok: "decision_ok c (fixture_readdir m c)"
  unfolding fixture_readdir_def by (intro alias_chain_ok apply_dynamic_fixture_rules_ok)

interpretation sandbox_fixture_view: namei_policy sandbox_fixture_view_policy
proof (rule namei_policyI)
  fix c m
  show "\<exists>r. decision_ok c r \<and> sandbox_fixture_view_policy c m = (fst r, snd r, m)"
    using fixture_lookup_ok [of c m] fixture_readdir_ok [of c m]
      decision_ok_keep [of BPF_NAMEI_EXT_PASS c]
    by (auto simp: sandbox_fixture_view_policy_def split_beta intro: exI [of _ "(0, c)"])
qed

subsection \<open>Lookup and enumeration agree on the aliases\<close>

lemma readdir_aliases_swapped:
  "checkpoint_readdir_aliases = swap_aliases checkpoint_aliases"
  "build_readdir_aliases = swap_aliases build_aliases"
  "fixture_readdir_aliases = swap_aliases fixture_aliases"
  by (simp_all add: checkpoint_readdir_aliases_def checkpoint_aliases_def
      build_readdir_aliases_def build_aliases_def fixture_readdir_aliases_def fixture_aliases_def
      swap_aliases_def)

lemmas alias_tables =
  checkpoint_aliases_def build_aliases_def fixture_aliases_def
  checkpoint_readdir_aliases_def build_readdir_aliases_def fixture_readdir_aliases_def

end
