(* ===== verification/Policy_Cache.thy ===== *)
theory Policy_Cache
  imports Policies_View
begin

text \<open>
  \<open>cache_locality_view\<close>: redirects a cache object to its local copy only when the rule
  says the copy is verified and the hash witnesses agree, sends stale and missing
  objects to the canonical copy and corrupt ones to the reject entry.
\<close>

subsection \<open>Structures\<close>

definition CACHE_STATE_VERIFIED_HIT :: u32 where "CACHE_STATE_VERIFIED_HIT = 1"
definition CACHE_STATE_MISS :: u32 where "CACHE_STATE_MISS = 2"
definition CACHE_STATE_STALE :: u32 where "CACHE_STATE_STALE = 3"
definition CACHE_STATE_CORRUPT :: u32 where "CACHE_STATE_CORRUPT = 4"
definition CACHE_STATE_PASSTHROUGH :: u32 where "CACHE_STATE_PASSTHROUGH = 5"

lemmas cache_states [simp] =
  CACHE_STATE_VERIFIED_HIT_def CACHE_STATE_MISS_def CACHE_STATE_STALE_def
  CACHE_STATE_CORRUPT_def CACHE_STATE_PASSTHROUGH_def

definition CACHE_LOCAL_SUFFIX_LEN :: u32 where "CACHE_LOCAL_SUFFIX_LEN = 6"
definition CACHE_CCACHE_OBJECT_LEN :: u32 where "CACHE_CCACHE_OBJECT_LEN = 32"
definition CACHE_PARENT_NAME_WITNESSES :: u32 where "CACHE_PARENT_NAME_WITNESSES = 4"
definition CACHE_NAME_HASH_OFFSET :: u64 where "CACHE_NAME_HASH_OFFSET = 1469598103934665603"
definition CACHE_NAME_HASH_PRIME :: u64 where "CACHE_NAME_HASH_PRIME = 1099511628211"

lemmas cache_consts [simp] =
  CACHE_LOCAL_SUFFIX_LEN_def CACHE_CCACHE_OBJECT_LEN_def CACHE_PARENT_NAME_WITNESSES_def

record cache_rule =
  cr_verified_hit :: rrule
  cr_canonical :: rrule
  cr_reject :: rrule
  cr_expected_hash :: "u64 list"
  cr_observed_hash :: "u64 list"
  cr_state :: u32
  cr_witness_count :: u32

record cache_epoch_session =
  ces_cache_epoch :: u32
  ces_active :: u32
  ces_reserved :: "u32 list"

record cache_epoch_rule_key =
  cek_component :: ckey
  cek_cache_epoch :: u32

record cache_epoch_rule =
  cer_redirect :: rrule
  cer_state :: u32
  cer_reserved :: u32

record cache_maps =
  cache_rules :: "ckey \<rightharpoonup> cache_rule"
  cache_epoch_sessions :: "u64 \<rightharpoonup> cache_epoch_session"
  cache_epoch_rules :: "cache_epoch_rule_key \<rightharpoonup> cache_epoch_rule"

subsection \<open>Tests on names and witnesses\<close>

definition cache_build_parent_component_key :: "ctx \<Rightarrow> ckey \<Rightarrow> ckey" where
  "cache_build_parent_component_key c key =
     key\<lparr> k_event := c_event c, k_name_len := 0, k_cgroup_id := c_cgroup_id c,
          k_parent_dev := c_parent_dev c, k_parent_ino := c_parent_ino c \<rparr>"

definition cache_hash_witness_ok :: "cache_rule \<Rightarrow> bool" where
  "cache_hash_witness_ok rule =
     (if cr_witness_count rule > 0 \<and> cr_expected_hash rule ! 0 \<noteq> cr_observed_hash rule ! 0
        then False
      else if cr_witness_count rule > 1 \<and> cr_expected_hash rule ! 1 \<noteq> cr_observed_hash rule ! 1
        then False
      else if cr_witness_count rule > 2 \<and> cr_expected_hash rule ! 2 \<noteq> cr_observed_hash rule ! 2
        then False
      else if cr_witness_count rule > 3 \<and> cr_expected_hash rule ! 3 \<noteq> cr_observed_hash rule ! 3
        then False
      else True)"

definition cache_component_name_hash :: "ctx \<Rightarrow> u64" where
  "cache_component_name_hash c =
     fold (\<lambda>i hash. if i < unat (c_name_len c)
                    then (hash XOR of_char (c_name c ! i)) * CACHE_NAME_HASH_PRIME else hash)
       [0..<BPF_NAMEI_EXT_NAME_MAX] CACHE_NAME_HASH_OFFSET"

definition cache_parent_name_witness_ok :: "ctx \<Rightarrow> cache_rule \<Rightarrow> bool" where
  "cache_parent_name_witness_ok c rule =
     (if cr_witness_count rule = 0 \<or> cr_witness_count rule > CACHE_PARENT_NAME_WITNESSES
        then False
      else let hash = cache_component_name_hash c in
        if cr_witness_count rule > 0 \<and> cr_expected_hash rule ! 0 = hash then True
        else if cr_witness_count rule > 1 \<and> cr_expected_hash rule ! 1 = hash then True
        else if cr_witness_count rule > 2 \<and> cr_expected_hash rule ! 2 = hash then True
        else if cr_witness_count rule > 3 \<and> cr_expected_hash rule ! 3 = hash then True
        else False)"

definition cache_name_is_stats :: "ctx \<Rightarrow> bool" where
  "cache_name_is_stats c =
     (if c_name_len c \<noteq> 5 then False
      else c_name c ! 0 = CHR ''s'' \<and> c_name c ! 1 = CHR ''t'' \<and> c_name c ! 2 = CHR ''a'' \<and>
           c_name c ! 3 = CHR ''t'' \<and> c_name c ! 4 = CHR ''s'')"

definition cache_char_is_lower_alnum :: "char \<Rightarrow> bool" where
  "cache_char_is_lower_alnum c \<longleftrightarrow>
     ((of_char c :: nat) \<ge> of_char (CHR ''0'') \<and> (of_char c :: nat) \<le> of_char (CHR ''9'')) \<or>
     ((of_char c :: nat) \<ge> of_char (CHR ''a'') \<and> (of_char c :: nat) \<le> of_char (CHR ''z''))"

definition cache_name_is_ccache_object :: "ctx \<Rightarrow> bool" where
  "cache_name_is_ccache_object c =
     (if c_name_len c \<noteq> CACHE_CCACHE_OBJECT_LEN then False
      else if \<not> scan_loop (\<lambda>i. cache_char_is_lower_alnum (c_name c ! i)) 0
                  (unat CACHE_CCACHE_OBJECT_LEN - 1) then False
      else if c_name c ! (unat CACHE_CCACHE_OBJECT_LEN - 1) \<noteq> CHR ''M'' \<and>
              c_name c ! (unat CACHE_CCACHE_OBJECT_LEN - 1) \<noteq> CHR ''R'' then False
      else True)"

definition cache_name_has_local_suffix :: "ctx \<Rightarrow> bool" where
  "cache_name_has_local_suffix c =
     (if c_name_len c \<le> CACHE_LOCAL_SUFFIX_LEN then False
      else \<not> scan_loop
             (\<lambda>i. \<not> (c_name_len c = of_nat i + CACHE_LOCAL_SUFFIX_LEN \<and>
                     c_name c ! i = CHR ''.'' \<and> c_name c ! (i + 1) = CHR ''l'' \<and>
                     c_name c ! (i + 2) = CHR ''o'' \<and> c_name c ! (i + 3) = CHR ''c'' \<and>
                     c_name c ! (i + 4) = CHR ''a'' \<and> c_name c ! (i + 5) = CHR ''l''))
             0 (BPF_NAMEI_EXT_NAME_MAX - unat CACHE_LOCAL_SUFFIX_LEN))"

definition cache_local_suffix :: "nat \<Rightarrow> char" where
  "cache_local_suffix idx =
     (if idx = 0 then CHR ''.'' else if idx = 1 then CHR ''l'' else if idx = 2 then CHR ''o''
      else if idx = 3 then CHR ''c'' else if idx = 4 then CHR ''a'' else if idx = 5 then CHR ''l''
      else NUL)"

subsection \<open>Rules\<close>

definition cache_lookup_parent_rule :: "ctx \<Rightarrow> cache_rule \<Rightarrow> u32 \<times> ctx" where
  "cache_lookup_parent_rule c rule =
     (if cr_state rule \<noteq> CACHE_STATE_VERIFIED_HIT then (BPF_NAMEI_EXT_PASS, c)
      else if unat (c_name_len c) > BPF_NAMEI_EXT_NAME_MAX - unat CACHE_LOCAL_SUFFIX_LEN
        then (BPF_NAMEI_EXT_PASS, c)
      else if cache_name_is_stats c then (BPF_NAMEI_EXT_PASS, c)
      else if \<not> cache_name_is_ccache_object c then (BPF_NAMEI_EXT_PASS, c)
      else if cache_name_has_local_suffix c then (BPF_NAMEI_EXT_PASS, c)
      else if \<not> cache_parent_name_witness_ok c rule then (BPF_NAMEI_EXT_PASS, c)
      else
        (BPF_NAMEI_EXT_REDIRECT,
         c\<lparr> c_redirect_name_len := c_name_len c + CACHE_LOCAL_SUFFIX_LEN,
            c_redirect_name :=
              store_loop BPF_NAMEI_EXT_NAME_MAX
                (\<lambda>i. i < unat (c_name_len c) \<or> i < unat (c_name_len c + CACHE_LOCAL_SUFFIX_LEN))
                (\<lambda>i. if i < unat (c_name_len c) then c_name c ! i
                     else cache_local_suffix (i - unat (c_name_len c)))
                (c_redirect_name c) \<rparr>))"

definition apply_cache_parent_rule :: "cache_maps \<Rightarrow> ctx \<Rightarrow> u32 \<times> ctx" where
  "apply_cache_parent_rule m c =
     (case cache_rules m (cache_build_parent_component_key c zero_component_key) of
        None \<Rightarrow> (BPF_NAMEI_EXT_PASS, c)
      | Some rule \<Rightarrow>
          if c_event c = BPF_NAMEI_EXT_LOOKUP then cache_lookup_parent_rule c rule
          else (BPF_NAMEI_EXT_PASS, c))"

definition apply_cache_epoch_rule :: "cache_maps \<Rightarrow> ctx \<Rightarrow> u32 \<times> ctx" where
  "apply_cache_epoch_rule m c =
     (case cache_epoch_sessions m (c_cgroup_id c) of
        None \<Rightarrow> (BPF_NAMEI_EXT_PASS, c)
      | Some session \<Rightarrow>
          if ces_active session = 0 then (BPF_NAMEI_EXT_PASS, c)
          else
            (let key = \<lparr> cek_component = namei_ext_build_component_key c zero_component_key,
                         cek_cache_epoch = ces_cache_epoch session \<rparr>
             in case cache_epoch_rules m key of
                  None \<Rightarrow> (BPF_NAMEI_EXT_PASS, c)
                | Some rule \<Rightarrow> namei_ext_apply_rule c (Some (cer_redirect rule))))"

definition apply_cache_rule :: "cache_maps \<Rightarrow> ctx \<Rightarrow> u32 \<times> ctx" where
  "apply_cache_rule m c =
     (let (ret, c) = apply_cache_epoch_rule m c in
      if ret \<noteq> BPF_NAMEI_EXT_PASS then (ret, c)
      else
        case cache_rules m (namei_ext_build_component_key c zero_component_key) of
          None \<Rightarrow> apply_cache_parent_rule m c
        | Some rule \<Rightarrow>
            if cr_state rule = CACHE_STATE_VERIFIED_HIT \<and> cache_hash_witness_ok rule
              then namei_ext_apply_rule c (Some (cr_verified_hit rule))
            else if cr_state rule = CACHE_STATE_STALE \<or> cr_state rule = CACHE_STATE_MISS
              then namei_ext_apply_rule c (Some (cr_canonical rule))
            else if cr_state rule = CACHE_STATE_CORRUPT \<or> \<not> cache_hash_witness_ok rule
              then namei_ext_apply_rule c (Some (cr_reject rule))
            else
              (let (ret, c) = apply_cache_parent_rule m c in
               if ret \<noteq> BPF_NAMEI_EXT_PASS then (ret, c) else (BPF_NAMEI_EXT_PASS, c)))"

definition cache_aliases :: "(bytes \<times> bytes) list" where
  "cache_aliases =
     [(''object.o'', ''object.local''), (''pkg.mod'', ''pkg.canon''),
      (''stale.o'', ''stale.canon''), (''corrupt.o'', ''corrupt.reject'')]"

definition cache_readdir_aliases :: "(bytes \<times> bytes) list" where
  "cache_readdir_aliases =
     [(''object.local'', ''object.o''), (''pkg.canon'', ''pkg.mod''),
      (''stale.canon'', ''stale.o''), (''corrupt.reject'', ''corrupt.o'')]"

definition cache_lookup :: "cache_maps \<Rightarrow> ctx \<Rightarrow> u32 \<times> ctx" where
  "cache_lookup m c =
     (let (ret, c) = apply_cache_rule m c in
      if ret \<noteq> BPF_NAMEI_EXT_PASS then (ret, c)
      else alias_chain cache_aliases (\<lambda>c. (BPF_NAMEI_EXT_PASS, c)) c)"

definition cache_readdir :: "cache_maps \<Rightarrow> ctx \<Rightarrow> u32 \<times> ctx" where
  "cache_readdir m c =
     (let (ret, c) = apply_cache_rule m c in
      if ret \<noteq> BPF_NAMEI_EXT_PASS then (ret, c)
      else alias_chain cache_readdir_aliases (\<lambda>c. (BPF_NAMEI_EXT_PASS, c)) c)"

definition cache_locality_view_policy :: "cache_maps policy" where
  "cache_locality_view_policy c m =
     (if c_event c = BPF_NAMEI_EXT_LOOKUP then
        (let (action, c') = cache_lookup m c in (action, c', m))
      else if c_event c = BPF_NAMEI_EXT_READDIR then
        (let (action, c') = cache_readdir m c in (action, c', m))
      else (BPF_NAMEI_EXT_PASS, c, m))"

subsection \<open>Contract\<close>

lemma cache_lookup_parent_rule_ok: "decision_ok c (cache_lookup_parent_rule c rule)"
  by (simp add: cache_lookup_parent_rule_def) (simp add: decision_ok_def ctx_wf_def)

lemma apply_cache_parent_rule_ok: "decision_ok c (apply_cache_parent_rule m c)"
  by (simp add: apply_cache_parent_rule_def cache_lookup_parent_rule_ok split: option.split)

lemma apply_cache_epoch_rule_ok: "decision_ok c (apply_cache_epoch_rule m c)"
  by (simp add: apply_cache_epoch_rule_def Let_def split: option.split)

lemma apply_cache_rule_ok: "decision_ok c (apply_cache_rule m c)"
proof -
  let ?r = "apply_cache_epoch_rule m c"
  have e: "decision_ok c ?r" by (rule apply_cache_epoch_rule_ok)
  have p: "decision_ok (snd ?r) (apply_cache_parent_rule m (snd ?r))"
    by (rule apply_cache_parent_rule_ok)
  show ?thesis
    using e decision_ok_trans [OF e p] decision_ok_trans [OF e decision_ok_apply_rule]
    by (auto simp: apply_cache_rule_def split_beta Let_def decision_ok_def
        split: option.split if_splits)
qed

lemma cache_lookup_ok: "decision_ok c (cache_lookup m c)"
  using apply_cache_rule_ok [of c m]
    decision_ok_trans [OF apply_cache_rule_ok alias_chain_ok]
  by (auto simp: cache_lookup_def split_beta)

lemma cache_readdir_ok: "decision_ok c (cache_readdir m c)"
  using apply_cache_rule_ok [of c m]
    decision_ok_trans [OF apply_cache_rule_ok alias_chain_ok]
  by (auto simp: cache_readdir_def split_beta)

interpretation cache_locality_view: namei_policy cache_locality_view_policy
proof (rule namei_policyI)
  fix c m
  show "\<exists>r. decision_ok c r \<and> cache_locality_view_policy c m = (fst r, snd r, m)"
    using cache_lookup_ok [of c m] cache_readdir_ok [of c m]
      decision_ok_keep [of BPF_NAMEI_EXT_PASS c]
    by (auto simp: cache_locality_view_policy_def split_beta intro: exI [of _ "(0, c)"])
qed

subsection \<open>What a redirect to a local copy means\<close>

lemma local_suffix_list: "map cache_local_suffix [0..<6] = ''.local''"
  by (simp add: upt_rec cache_local_suffix_def)

lemma ccache_object_no_local_suffix:
  assumes "cache_name_is_ccache_object c"
  shows "\<not> cache_name_has_local_suffix c"
proof
  assume "cache_name_has_local_suffix c"
  then obtain i where i: "i < 58" "c_name_len c = of_nat i + 6" "c_name c ! (i + 5) = CHR ''l''"
    by (auto simp: cache_name_has_local_suffix_def scan_loop_0 split: if_splits)
  from assms have len: "c_name_len c = 32"
    and last: "c_name c ! 31 = CHR ''M'' \<or> c_name c ! 31 = CHR ''R''"
    by (auto simp: cache_name_is_ccache_object_def split: if_splits)
  have "unat (of_nat i + 6 :: u32) = i + 6"
    using i(1) by (simp add: unat_word_ariths unat_of_nat take_bit_nat_eq_self)
  moreover have "unat (of_nat i + 6 :: u32) = 32"
    using i(2) len by simp
  ultimately have "i = 26" by simp
  with i(3) last show False by simp
qed

lemma parent_redirect_text:
  assumes "ctx_named c s" "cache_lookup_parent_rule c rule = (BPF_NAMEI_EXT_REDIRECT, c')"
  shows "redirect_text c' = s @ ''.local''" "length s = 32"
    "cr_state rule = CACHE_STATE_VERIFIED_HIT" "cache_parent_name_witness_ok c rule"
    "unat (c_redirect_name_len c') = 38" "cache_name_is_ccache_object c"
proof -
  from assms(2) have *: "cr_state rule = CACHE_STATE_VERIFIED_HIT"
      "cache_name_is_ccache_object c" "cache_parent_name_witness_ok c rule"
    and c': "c' = c\<lparr> c_redirect_name_len := c_name_len c + CACHE_LOCAL_SUFFIX_LEN,
            c_redirect_name :=
              store_loop BPF_NAMEI_EXT_NAME_MAX
                (\<lambda>i. i < unat (c_name_len c) \<or> i < unat (c_name_len c + CACHE_LOCAL_SUFFIX_LEN))
                (\<lambda>i. if i < unat (c_name_len c) then c_name c ! i
                     else cache_local_suffix (i - unat (c_name_len c)))
                (c_redirect_name c) \<rparr>"
    by (auto simp: cache_lookup_parent_rule_def split: if_splits)
  show "cr_state rule = CACHE_STATE_VERIFIED_HIT" "cache_parent_name_witness_ok c rule"
    "cache_name_is_ccache_object c"
    using * by simp_all
  from *(2) have len: "c_name_len c = 32"
    by (simp add: cache_name_is_ccache_object_def split: if_splits)
  note nm = ctx_namedD [OF assms(1)]
  from nm(3) len show l32: "length s = 32" by simp
  show "unat (c_redirect_name_len c') = 38"
    using c' len by simp
  have l64: "length (c_redirect_name c) = 64" "length (c_name c) = 64"
    using nm(1) by (simp_all add: ctx_wf_def)
  show "redirect_text c' = s @ ''.local''"
  proof (rule nth_equalityI)
    show "length (redirect_text c') = length (s @ ''.local'')"
      using c' len l64 l32 by (simp add: redirect_text_def)
  next
    fix i assume "i < length (redirect_text c')"
    then have i: "i < 38" using c' len l64 by (simp add: redirect_text_def)
    have "s ! i = c_name c ! i" if "i < 32"
      using nm(4) l32 that nth_take [of i 32 "c_name c"] by simp
    moreover have "cache_local_suffix (i - 32) = ''.local'' ! (i - 32)" if "\<not> i < 32"
    proof -
      have "cache_local_suffix (i - 32) = map cache_local_suffix [0..<6] ! (i - 32)"
        using i that by simp
      then show ?thesis by (simp only: local_suffix_list)
    qed
    ultimately show "redirect_text c' ! i = (s @ ''.local'') ! i"
      using i c' len l64 l32 by (simp add: redirect_text_def nth_store_loop nth_append)
  qed
qed

end
