(* ===== verification/Litmus.thy ===== *)
theory Litmus
  imports Policy_Lib Effective
begin

text \<open>
  The retirement litmus (\<open>experiments/namei_ext_target_lifetime/retirement_litmus.bpf.c\<close> and
  the case driver in \<open>namei_ext_target_lifetime.c\<close>): BPF probes that hold a reader between
  borrowing a target and leaving its read-side section until the writer that retires the
  target has entered its grace period, and record the order of the events.

  Each probe is a step on the shared record; the one probe that blocks, the return probe of
  the resolution, is three: up to the loop, one round of the loop, and after it. Time, thread
  and processor of a probe are part of its event.
\<close>

subsection \<open>The shared record\<close>

record retirement_litmus_state =
  l_cookie :: u64
  l_state :: u64
  l_mode :: u64
  l_expected_cgroup_id :: u64
  l_observed_cgroup_id :: u64
  l_observed_mount :: u64
  l_observed_dentry :: u64
  l_deadline_ns :: u64
  l_event_seq :: u64
  l_hold_seq :: u64
  l_update_entry_seq :: u64
  l_clear_entry_seq :: u64
  l_grace_entry_seq :: u64
  l_reader_release_seq :: u64
  l_clear_exit_seq :: u64
  l_update_exit_seq :: u64
  l_hold_ns :: u64
  l_update_entry_ns :: u64
  l_clear_entry_ns :: u64
  l_grace_entry_ns :: u64
  l_reader_release_ns :: u64
  l_clear_exit_ns :: u64
  l_update_exit_ns :: u64
  l_hold_cookie :: u64
  l_update_cookie :: u64
  l_grace_cookie :: u64
  l_release_cookie :: u64
  l_exit_cookie :: u64
  l_resolve_attempts :: u64
  l_resolve_matches :: u64
  l_update_entries :: u64
  l_clear_entries :: u64
  l_grace_entries :: u64
  l_clear_exits :: u64
  l_update_exits :: u64
  l_error_flags :: u64
  l_version :: u32
  l_reader_tid :: u32
  l_writer_tid :: u32
  l_expected_target_id :: u32
  l_observed_target_id :: u32
  l_observed_reader_tid :: u32
  l_observed_writer_tid :: u32
  l_observed_reader_cpu :: u32
  l_observed_writer_cpu :: u32
  l_timeout_reason :: u32
  l_reserved :: u32
  l_resolve_redirect :: u64
  l_resolve_rcu_walk :: u32
  l_reserved2 :: u32

type_synonym litmus = retirement_litmus_state

definition NAMEI_EXT_LITMUS_VERSION :: u32 where "NAMEI_EXT_LITMUS_VERSION = 2"
definition LITMUS_IDLE :: u64 where "LITMUS_IDLE = 0"
definition LITMUS_ARMED :: u64 where "LITMUS_ARMED = 1"
definition LITMUS_HELD :: u64 where "LITMUS_HELD = 2"
definition LITMUS_RELEASED :: u64 where "LITMUS_RELEASED = 3"
definition LITMUS_DONE :: u64 where "LITMUS_DONE = 4"
definition LITMUS_TIMEOUT :: u64 where "LITMUS_TIMEOUT = 5"
definition LITMUS_REPLACE :: u64 where "LITMUS_REPLACE = 1"
definition LITMUS_CLEAR :: u64 where "LITMUS_CLEAR = 2"
definition LITMUS_TIMEOUT_DEADLINE :: u32 where "LITMUS_TIMEOUT_DEADLINE = 1"
definition LITMUS_TIMEOUT_LOOP_LIMIT :: u32 where "LITMUS_TIMEOUT_LOOP_LIMIT = 2"
definition ERROR_RESOLVE_RESULT :: u64 where "ERROR_RESOLVE_RESULT = 1"
definition ERROR_NOT_RCU :: u64 where "ERROR_NOT_RCU = 2"
definition ERROR_REDIRECT_STATE :: u64 where "ERROR_REDIRECT_STATE = 4"
definition ERROR_TARGET_IDENTITY :: u64 where "ERROR_TARGET_IDENTITY = 8"
definition ERROR_DUPLICATE_EVENT :: u64 where "ERROR_DUPLICATE_EVENT = 16"
definition ERROR_UPDATE_CLASS :: u64 where "ERROR_UPDATE_CLASS = 32"

lemmas litmus_codes [simp] =
  LITMUS_IDLE_def LITMUS_ARMED_def LITMUS_HELD_def LITMUS_RELEASED_def LITMUS_DONE_def
  LITMUS_TIMEOUT_def LITMUS_REPLACE_def LITMUS_CLEAR_def

definition zero_litmus :: litmus where
  "zero_litmus =
     \<lparr> l_cookie = 0, l_state = 0,
       l_mode = 0, l_expected_cgroup_id = 0, l_observed_cgroup_id = 0, l_observed_mount = 0,
       l_observed_dentry = 0, l_deadline_ns = 0, l_event_seq = 0, l_hold_seq = 0, l_update_entry_seq
       = 0, l_clear_entry_seq = 0, l_grace_entry_seq = 0, l_reader_release_seq = 0, l_clear_exit_seq
       = 0, l_update_exit_seq = 0, l_hold_ns = 0, l_update_entry_ns = 0, l_clear_entry_ns = 0,
       l_grace_entry_ns = 0, l_reader_release_ns = 0, l_clear_exit_ns = 0, l_update_exit_ns = 0,
       l_hold_cookie = 0, l_update_cookie = 0, l_grace_cookie = 0, l_release_cookie = 0,
       l_exit_cookie = 0, l_resolve_attempts = 0, l_resolve_matches = 0, l_update_entries = 0,
       l_clear_entries = 0, l_grace_entries = 0, l_clear_exits = 0, l_update_exits = 0,
       l_error_flags = 0, l_version = 0, l_reader_tid = 0, l_writer_tid = 0, l_expected_target_id =
       0, l_observed_target_id = 0, l_observed_reader_tid = 0, l_observed_writer_tid = 0,
       l_observed_reader_cpu = 0, l_observed_writer_cpu = 0, l_timeout_reason = 0, l_reserved = 0,
       l_resolve_redirect = 0, l_resolve_rcu_walk = 0, l_reserved2 = 0 \<rparr>"

text \<open>The driver clears the record, fills in the case and arms it.\<close>

record litmus_case =
  lc_cookie :: u64
  lc_mode :: u64
  lc_cgroup_id :: u64
  lc_deadline_ns :: u64
  lc_reader_tid :: u32
  lc_writer_tid :: u32
  lc_target_id :: u32

definition arm_litmus :: "litmus_case \<Rightarrow> litmus" where
  "arm_litmus cs =
     zero_litmus\<lparr>l_cookie := lc_cookie cs, l_mode := lc_mode cs,
       l_expected_cgroup_id := lc_cgroup_id cs, l_deadline_ns := lc_deadline_ns cs,
       l_version := NAMEI_EXT_LITMUS_VERSION, l_reader_tid := lc_reader_tid cs,
       l_writer_tid := lc_writer_tid cs, l_expected_target_id := lc_target_id cs,
       l_state := LITMUS_ARMED\<rparr>"

subsection \<open>The probes\<close>

definition next_event :: "litmus \<Rightarrow> u64 \<times> litmus" where
  "next_event s = (l_event_seq s + 1, s\<lparr>l_event_seq := l_event_seq s + 1\<rparr>)"

definition set_error :: "u64 \<Rightarrow> litmus \<Rightarrow> litmus" where
  "set_error e s = s\<lparr>l_error_flags := l_error_flags s OR e\<rparr>"

text \<open>One round of the waiting loop: whether to stop, and the record.\<close>

definition wait_for_writer :: "u64 \<Rightarrow> litmus \<Rightarrow> bool \<times> litmus" where
  "wait_for_writer now s =
     (if l_state s = LITMUS_RELEASED then (True, s)
      else if now < l_deadline_ns s then (False, s)
      else
        let s = s\<lparr>l_timeout_reason := LITMUS_TIMEOUT_DEADLINE\<rparr>
        in (True, if l_state s = LITMUS_HELD then s\<lparr>l_state := LITMUS_TIMEOUT\<rparr> else s))"

definition capture_borrow_args :: "u32 \<Rightarrow> u64 \<Rightarrow> u64 \<Rightarrow> litmus \<Rightarrow> litmus" where
  "capture_borrow_args tid di si s =
     (if tid \<noteq> l_reader_tid s \<or> l_state s \<noteq> LITMUS_ARMED then s
      else
        let attempts = l_resolve_attempts s;
            s = s\<lparr>l_resolve_attempts := attempts + 1\<rparr>
        in if attempts \<noteq> 0 then set_error ERROR_DUPLICATE_EVENT s
           else s\<lparr>l_resolve_redirect := di, l_resolve_rcu_walk := ucast si\<rparr>)"

text \<open>What the return probe reads of \<open>struct namei_ext_redirect\<close>.\<close>

record litmus_redirect =
  lr_target_pending :: bool
  lr_target_active :: bool
  lr_target_borrowed :: bool
  lr_target_id :: u32
  lr_target_cgroup_id :: u64
  lr_mnt :: u64
  lr_dentry :: u64

text \<open>The return probe up to the loop; the flag says whether the loop is entered.\<close>

definition hold_enter ::
  "u32 \<Rightarrow> u32 \<Rightarrow> u64 \<Rightarrow> bool \<Rightarrow> litmus_redirect option \<Rightarrow> litmus \<Rightarrow> bool \<times> litmus" where
  "hold_enter tid cpu now failed redirect s =
     (if tid \<noteq> l_reader_tid s \<or> l_state s \<noteq> LITMUS_ARMED then (False, s)
      else if l_resolve_attempts s \<noteq> 1 \<or> l_resolve_redirect s = 0 then (False, set_error ERROR_DUPLICATE_EVENT s)
      else if failed then (False, set_error ERROR_RESOLVE_RESULT s)
      else if l_resolve_rcu_walk s = 0 then (False, set_error ERROR_NOT_RCU s)
      else case redirect of
        None \<Rightarrow> (False, set_error ERROR_REDIRECT_STATE s)
      | Some r \<Rightarrow>
          if \<not> lr_target_active r \<or> lr_target_pending r \<or> \<not> lr_target_borrowed r \<or> lr_mnt r = 0 \<or> lr_dentry r = 0
          then (False, set_error ERROR_REDIRECT_STATE s)
          else if lr_target_cgroup_id r \<noteq> l_expected_cgroup_id s \<or> lr_target_id r \<noteq> l_expected_target_id s
          then (False, set_error ERROR_TARGET_IDENTITY s)
          else
            let s = s\<lparr>l_observed_cgroup_id := lr_target_cgroup_id r, l_observed_target_id := lr_target_id r,
                      l_observed_reader_tid := tid, l_observed_reader_cpu := cpu,
                      l_observed_mount := lr_mnt r, l_observed_dentry := lr_dentry r,
                      l_hold_cookie := l_cookie s, l_hold_ns := now\<rparr>;
                (seq, s) = next_event s;
                s = s\<lparr>l_hold_seq := seq\<rparr>
            in if l_state s \<noteq> LITMUS_ARMED then (False, set_error ERROR_DUPLICATE_EVENT s)
               else (True, s\<lparr>l_state := LITMUS_HELD, l_resolve_matches := l_resolve_matches s + 1\<rparr>))"

definition hold_leave :: "u64 \<Rightarrow> litmus \<Rightarrow> litmus" where
  "hold_leave now s =
     (if l_state s = LITMUS_RELEASED then
        let s = s\<lparr>l_release_cookie := l_cookie s, l_reader_release_ns := now\<rparr>;
            (seq, s) = next_event s
        in s\<lparr>l_reader_release_seq := seq, l_state := LITMUS_DONE\<rparr>
      else if l_state s = LITMUS_HELD then
        s\<lparr>l_timeout_reason := LITMUS_TIMEOUT_LOOP_LIMIT, l_state := LITMUS_TIMEOUT\<rparr>
      else s)"

definition mark_update_entry :: "u32 \<Rightarrow> u32 \<Rightarrow> u64 \<Rightarrow> litmus \<Rightarrow> litmus" where
  "mark_update_entry tid cpu now s =
     (if tid \<noteq> l_writer_tid s \<or> l_state s \<noteq> LITMUS_HELD then s
      else if l_update_entries s \<noteq> 0 then set_error ERROR_DUPLICATE_EVENT s
      else
        let s = s\<lparr>l_update_cookie := l_cookie s, l_observed_writer_tid := tid,
                  l_observed_writer_cpu := cpu, l_update_entry_ns := now\<rparr>;
            (seq, s) = next_event s
        in s\<lparr>l_update_entry_seq := seq, l_update_entries := 1\<rparr>)"

definition mark_clear_entry :: "u32 \<Rightarrow> u64 \<Rightarrow> litmus \<Rightarrow> litmus" where
  "mark_clear_entry tid now s =
     (if tid \<noteq> l_writer_tid s \<or> l_state s \<noteq> LITMUS_HELD then s
      else if l_mode s \<noteq> LITMUS_CLEAR \<or> l_update_entry_seq s = 0 then set_error ERROR_UPDATE_CLASS s
      else if l_clear_entries s \<noteq> 0 then set_error ERROR_DUPLICATE_EVENT s
      else
        let s = s\<lparr>l_clear_entry_ns := now\<rparr>;
            (seq, s) = next_event s
        in s\<lparr>l_clear_entry_seq := seq, l_clear_entries := 1\<rparr>)"

definition release_reader_at_grace_entry :: "u32 \<Rightarrow> u64 \<Rightarrow> litmus \<Rightarrow> litmus" where
  "release_reader_at_grace_entry tid now s =
     (if tid \<noteq> l_writer_tid s \<or> l_state s \<noteq> LITMUS_HELD \<or> l_update_entry_seq s = 0 then s
      else if l_mode s = LITMUS_CLEAR \<and> l_clear_entry_seq s = 0 \<or>
              l_mode s = LITMUS_REPLACE \<and> l_clear_entry_seq s \<noteq> 0 \<or>
              l_mode s \<noteq> LITMUS_CLEAR \<and> l_mode s \<noteq> LITMUS_REPLACE
      then set_error ERROR_UPDATE_CLASS s
      else if l_grace_entries s \<noteq> 0 then set_error ERROR_DUPLICATE_EVENT s
      else
        let s = s\<lparr>l_grace_cookie := l_cookie s, l_grace_entry_ns := now\<rparr>;
            (seq, s) = next_event s;
            s = s\<lparr>l_grace_entry_seq := seq, l_grace_entries := 1\<rparr>
        in if l_state s \<noteq> LITMUS_HELD then set_error ERROR_DUPLICATE_EVENT s
           else s\<lparr>l_state := LITMUS_RELEASED\<rparr>)"

definition mark_clear_exit :: "u32 \<Rightarrow> u64 \<Rightarrow> litmus \<Rightarrow> litmus" where
  "mark_clear_exit tid now s =
     (if tid \<noteq> l_writer_tid s \<or> l_state s \<noteq> LITMUS_DONE \<or> l_mode s \<noteq> LITMUS_CLEAR \<or>
         l_clear_entry_seq s = 0 then s
      else if l_clear_exits s \<noteq> 0 then set_error ERROR_DUPLICATE_EVENT s
      else
        let s = s\<lparr>l_clear_exit_ns := now\<rparr>;
            (seq, s) = next_event s
        in s\<lparr>l_clear_exit_seq := seq, l_clear_exits := 1\<rparr>)"

definition mark_update_exit :: "u32 \<Rightarrow> u64 \<Rightarrow> litmus \<Rightarrow> litmus" where
  "mark_update_exit tid now s =
     (if tid \<noteq> l_writer_tid s \<or> l_state s \<noteq> LITMUS_DONE \<or> l_update_entry_seq s = 0 then s
      else if l_update_exits s \<noteq> 0 then set_error ERROR_DUPLICATE_EVENT s
      else
        let s = s\<lparr>l_exit_cookie := l_cookie s, l_update_exit_ns := now\<rparr>;
            (seq, s) = next_event s
        in s\<lparr>l_update_exit_seq := seq, l_update_exits := 1\<rparr>)"

subsection \<open>Interleavings\<close>

datatype reader_pc = R_outside | R_polling | R_leaving | R_left

datatype litmus_event =
    Ev_capture u32 u64 u64
  | Ev_hold u32 u32 u64 bool "litmus_redirect option"
  | Ev_poll u64
  | Ev_loop_limit
  | Ev_leave u64
  | Ev_update_entry u32 u32 u64
  | Ev_clear_entry u32 u64
  | Ev_grace u32 u64
  | Ev_clear_exit u32 u64
  | Ev_update_exit u32 u64

text \<open>
  An event that the reader's own position does not allow (a poll outside the loop, say)
  does not happen.
\<close>

fun litmus_step :: "litmus_event \<Rightarrow> reader_pc \<times> litmus \<Rightarrow> reader_pc \<times> litmus" where
  "litmus_step (Ev_capture tid di si) (pc, s) = (pc, capture_borrow_args tid di si s)"
| "litmus_step (Ev_hold tid cpu now failed r) (pc, s) =
     (if pc = R_polling \<or> pc = R_leaving then (pc, s)
      else let (entered, s) = hold_enter tid cpu now failed r s in (if entered then R_polling else pc, s))"
| "litmus_step (Ev_poll now) (pc, s) =
     (if pc \<noteq> R_polling then (pc, s)
      else let (stop, s) = wait_for_writer now s in (if stop then R_leaving else R_polling, s))"
| "litmus_step Ev_loop_limit (pc, s) = (if pc = R_polling then R_leaving else pc, s)"
| "litmus_step (Ev_leave now) (pc, s) = (if pc = R_leaving then (R_left, hold_leave now s) else (pc, s))"
| "litmus_step (Ev_update_entry tid cpu now) (pc, s) = (pc, mark_update_entry tid cpu now s)"
| "litmus_step (Ev_clear_entry tid now) (pc, s) = (pc, mark_clear_entry tid now s)"
| "litmus_step (Ev_grace tid now) (pc, s) = (pc, release_reader_at_grace_entry tid now s)"
| "litmus_step (Ev_clear_exit tid now) (pc, s) = (pc, mark_clear_exit tid now s)"
| "litmus_step (Ev_update_exit tid now) (pc, s) = (pc, mark_update_exit tid now s)"

definition litmus_run :: "litmus_event list \<Rightarrow> reader_pc \<times> litmus \<Rightarrow> reader_pc \<times> litmus" where
  "litmus_run evs = fold litmus_step evs"

subsection \<open>The driver's verdict\<close>

text \<open>What the driver compares of the two opens, besides the record.\<close>

record litmus_outcome =
  lo_update_result :: "errno option"
  lo_open_result :: "errno option"
  lo_validation_result :: "errno option"
  lo_observed :: "u64 \<times> u64"
  lo_fresh_result :: "errno option"
  lo_fresh :: "u64 \<times> u64"
  lo_old_target :: "u64 \<times> u64"
  lo_new_target :: "(u64 \<times> u64) option"
  lo_writer_cpu :: u32
  lo_reader_cpu :: u32

definition retirement_snapshot_passes :: "litmus \<Rightarrow> litmus_case \<Rightarrow> litmus_outcome \<Rightarrow> bool" where
  "retirement_snapshot_passes s cs r =
     (let common =
        l_version s = NAMEI_EXT_LITMUS_VERSION \<and> l_cookie s = lc_cookie cs \<and>
        l_state s = LITMUS_DONE \<and> l_mode s = lc_mode cs \<and>
        l_reader_tid s = lc_reader_tid cs \<and> l_writer_tid s = lc_writer_tid cs \<and>
        l_observed_reader_tid s = lc_reader_tid cs \<and> l_observed_writer_tid s = lc_writer_tid cs \<and>
        l_observed_reader_cpu s = lo_reader_cpu r \<and> l_observed_writer_cpu s = lo_writer_cpu r \<and>
        lc_reader_tid cs \<noteq> lc_writer_tid cs \<and>
        l_expected_cgroup_id s = lc_cgroup_id cs \<and> l_observed_cgroup_id s = lc_cgroup_id cs \<and>
        l_expected_target_id s = lc_target_id cs \<and> l_observed_target_id s = lc_target_id cs \<and>
        l_observed_mount s \<noteq> 0 \<and> l_observed_dentry s \<noteq> 0 \<and>
        l_resolve_redirect s \<noteq> 0 \<and> l_resolve_rcu_walk s = 1 \<and>
        l_resolve_attempts s = 1 \<and> l_resolve_matches s = 1 \<and>
        l_update_entries s = 1 \<and> l_grace_entries s = 1 \<and> l_update_exits s = 1 \<and>
        l_error_flags s = 0 \<and> l_timeout_reason s = 0 \<and>
        l_hold_cookie s = lc_cookie cs \<and> l_update_cookie s = lc_cookie cs \<and>
        l_grace_cookie s = lc_cookie cs \<and> l_release_cookie s = lc_cookie cs \<and>
        l_exit_cookie s = lc_cookie cs \<and>
        l_hold_seq s < l_update_entry_seq s \<and> l_update_entry_seq s < l_grace_entry_seq s \<and>
        l_grace_entry_seq s < l_reader_release_seq s \<and> l_reader_release_seq s < l_update_exit_seq s \<and>
        l_hold_ns s \<noteq> 0 \<and> l_update_entry_ns s \<noteq> 0 \<and> l_grace_entry_ns s \<noteq> 0 \<and>
        l_reader_release_ns s \<noteq> 0 \<and> l_update_exit_ns s \<noteq> 0 \<and> lo_update_result r = None \<and>
        lo_open_result r = None \<and> lo_validation_result r = None \<and>
        lo_observed r = lo_old_target r \<and> lo_writer_cpu r \<noteq> lo_reader_cpu r
      in
      if \<not> common then False
      else if lc_mode cs = LITMUS_REPLACE then
        l_clear_entries s = 0 \<and> l_clear_exits s = 0 \<and> l_clear_entry_seq s = 0 \<and> l_clear_exit_seq s = 0 \<and>
        lo_fresh_result r = None \<and>
        (case lo_new_target r of None \<Rightarrow> False | Some t \<Rightarrow> t \<noteq> lo_old_target r \<and> lo_fresh r = t)
      else
        lc_mode cs = LITMUS_CLEAR \<and> l_clear_entries s = 1 \<and> l_clear_exits s = 1 \<and>
        l_update_entry_seq s < l_clear_entry_seq s \<and> l_clear_entry_seq s < l_grace_entry_seq s \<and>
        l_reader_release_seq s < l_clear_exit_seq s \<and> l_clear_exit_seq s < l_update_exit_seq s \<and>
        lo_fresh_result r = Some ENOENT)"

subsection \<open>The order the probes enforce\<close>

text \<open>
  The part of the record that carries the order. Sequence numbers are compared as numbers:
  at most seven events are ever counted, so the 64-bit counter does not wrap.
\<close>

abbreviation sq :: "u64 \<Rightarrow> nat" where "sq x \<equiv> unat x"

definition recorded :: "litmus \<Rightarrow> nat" where
  "recorded s =
     of_bool (l_hold_seq s \<noteq> 0) + of_bool (l_update_entry_seq s \<noteq> 0) + of_bool (l_clear_entry_seq s \<noteq> 0) +
     of_bool (l_grace_entry_seq s \<noteq> 0) + of_bool (l_reader_release_seq s \<noteq> 0) +
     of_bool (l_clear_exit_seq s \<noteq> 0) + of_bool (l_update_exit_seq s \<noteq> 0)"

definition counted :: "litmus \<Rightarrow> bool" where
  "counted s \<longleftrightarrow>
     sq (l_event_seq s) = recorded s \<and>
     (\<forall>x\<in>{l_hold_seq s, l_update_entry_seq s, l_clear_entry_seq s, l_grace_entry_seq s,
          l_reader_release_seq s, l_clear_exit_seq s, l_update_exit_seq s}. sq x \<le> sq (l_event_seq s)) \<and>
     (l_update_entries s = 0 \<longleftrightarrow> l_update_entry_seq s = 0) \<and>
     (l_clear_entries s = 0 \<longleftrightarrow> l_clear_entry_seq s = 0) \<and>
     (l_grace_entries s = 0 \<longleftrightarrow> l_grace_entry_seq s = 0) \<and>
     (l_clear_exits s = 0 \<longleftrightarrow> l_clear_exit_seq s = 0) \<and>
     (l_update_exits s = 0 \<longleftrightarrow> l_update_exit_seq s = 0)"

definition ordered :: "litmus \<Rightarrow> bool" where
  "ordered s \<longleftrightarrow>
     (l_update_entry_seq s \<noteq> 0 \<longrightarrow> l_hold_seq s \<noteq> 0 \<and> sq (l_hold_seq s) < sq (l_update_entry_seq s)) \<and>
     (l_clear_entry_seq s \<noteq> 0 \<longrightarrow> l_update_entry_seq s \<noteq> 0 \<and>
        sq (l_update_entry_seq s) < sq (l_clear_entry_seq s) \<and> l_mode s = LITMUS_CLEAR) \<and>
     (l_grace_entry_seq s \<noteq> 0 \<longrightarrow> l_update_entry_seq s \<noteq> 0 \<and>
        sq (l_update_entry_seq s) < sq (l_grace_entry_seq s) \<and>
        (l_mode s = LITMUS_CLEAR \<and> l_clear_entry_seq s \<noteq> 0 \<and> sq (l_clear_entry_seq s) < sq (l_grace_entry_seq s) \<or>
         l_mode s = LITMUS_REPLACE \<and> l_clear_entry_seq s = 0)) \<and>
     (l_reader_release_seq s \<noteq> 0 \<longrightarrow> l_grace_entry_seq s \<noteq> 0 \<and>
        sq (l_grace_entry_seq s) < sq (l_reader_release_seq s)) \<and>
     (l_clear_exit_seq s \<noteq> 0 \<longrightarrow> l_reader_release_seq s \<noteq> 0 \<and> l_clear_entry_seq s \<noteq> 0 \<and>
        sq (l_reader_release_seq s) < sq (l_clear_exit_seq s)) \<and>
     (l_update_exit_seq s \<noteq> 0 \<longrightarrow> l_reader_release_seq s \<noteq> 0 \<and>
        sq (l_reader_release_seq s) < sq (l_update_exit_seq s))"

definition phased :: "litmus \<Rightarrow> bool" where
  "phased s \<longleftrightarrow>
     (l_state s = LITMUS_ARMED \<and> l_hold_seq s = 0 \<and> l_grace_entry_seq s = 0 \<or>
      l_state s = LITMUS_HELD \<and> l_hold_seq s \<noteq> 0 \<and> l_grace_entry_seq s = 0 \<or>
      l_state s = LITMUS_RELEASED \<and> l_grace_entry_seq s \<noteq> 0 \<and> l_reader_release_seq s = 0 \<or>
      l_state s = LITMUS_DONE \<and> l_reader_release_seq s \<noteq> 0 \<or>
      l_state s = LITMUS_TIMEOUT \<and> l_hold_seq s \<noteq> 0 \<and> l_grace_entry_seq s = 0)"

definition litmus_inv :: "litmus \<Rightarrow> bool" where
  "litmus_inv s \<longleftrightarrow> counted s \<and> ordered s \<and> phased s"

lemmas litmus_inv_defs = litmus_inv_def counted_def ordered_def phased_def recorded_def

lemma recorded_le: "recorded s \<le> 7"
  by (simp add: recorded_def of_bool_def)

lemma next_seq:
  assumes "counted s"
  shows "unat (l_event_seq s + 1) = unat (l_event_seq s) + 1" "l_event_seq s + 1 \<noteq> 0"
proof -
  have "unat (l_event_seq s) \<le> 7" using assms recorded_le [of s] by (simp add: counted_def)
  then show "unat (l_event_seq s + 1) = unat (l_event_seq s) + 1" by (simp add: unat_word_ariths)
  then show "l_event_seq s + 1 \<noteq> 0" by (metis add_is_0 unat_0 zero_neq_one)
qed

lemma arm_inv: "litmus_inv (arm_litmus cs)"
  by (simp add: litmus_inv_defs arm_litmus_def zero_litmus_def)

lemma set_error_inv [simp]: "litmus_inv (set_error e s) = litmus_inv s"
  by (simp add: litmus_inv_defs set_error_def)

lemma capture_inv: "litmus_inv s \<Longrightarrow> litmus_inv (capture_borrow_args tid di si s)"
  by (auto simp: capture_borrow_args_def Let_def) (auto simp: litmus_inv_defs)

lemma wait_inv: "litmus_inv s \<Longrightarrow> litmus_inv (snd (wait_for_writer now s))"
  by (auto simp: wait_for_writer_def Let_def) (auto simp: litmus_inv_defs)

lemma hold_enter_inv:
  assumes "litmus_inv s"
  shows "litmus_inv (snd (hold_enter tid cpu now failed r s))"
proof -
  note n = next_seq [of s]
  show ?thesis
    using assms n
    by (auto simp: hold_enter_def next_event_def Let_def split: option.split)
       (auto simp: litmus_inv_defs)
qed

lemma hold_leave_inv:
  assumes "litmus_inv s"
  shows "litmus_inv (hold_leave now s)"
  using assms next_seq [of s]
  by (auto simp: hold_leave_def next_event_def Let_def) (auto simp: litmus_inv_defs)

lemma update_entry_inv:
  assumes "litmus_inv s"
  shows "litmus_inv (mark_update_entry tid cpu now s)"
  using assms next_seq [of s]
  by (auto simp: mark_update_entry_def next_event_def Let_def) (auto simp: litmus_inv_defs)

lemma clear_entry_inv:
  assumes "litmus_inv s"
  shows "litmus_inv (mark_clear_entry tid now s)"
  using assms next_seq [of s]
  by (auto simp: mark_clear_entry_def next_event_def Let_def) (auto simp: litmus_inv_defs)

lemma grace_inv:
  assumes "litmus_inv s"
  shows "litmus_inv (release_reader_at_grace_entry tid now s)"
  using assms next_seq [of s]
  by (auto simp: release_reader_at_grace_entry_def next_event_def Let_def) (auto simp: litmus_inv_defs)

lemma clear_exit_inv:
  assumes "litmus_inv s"
  shows "litmus_inv (mark_clear_exit tid now s)"
  using assms next_seq [of s]
  by (auto simp: mark_clear_exit_def next_event_def Let_def) (auto simp: litmus_inv_defs)

lemma update_exit_inv:
  assumes "litmus_inv s"
  shows "litmus_inv (mark_update_exit tid now s)"
  using assms next_seq [of s]
  by (auto simp: mark_update_exit_def next_event_def Let_def) (auto simp: litmus_inv_defs)

lemma litmus_step_inv: "litmus_inv s \<Longrightarrow> litmus_inv (snd (litmus_step ev (pc, s)))"
proof (cases ev)
  case (Ev_hold tid cpu now failed r)
  then show "litmus_inv s \<Longrightarrow> ?thesis"
    using hold_enter_inv [of s tid cpu now failed r] by (auto split: prod.split)
next
  case (Ev_poll now)
  then show "litmus_inv s \<Longrightarrow> ?thesis" using wait_inv [of s now] by (auto split: prod.split)
qed (simp_all add: capture_inv hold_leave_inv update_entry_inv clear_entry_inv grace_inv clear_exit_inv
      update_exit_inv)

lemma litmus_run_inv: "litmus_inv (snd ps) \<Longrightarrow> litmus_inv (snd (litmus_run evs ps))"
proof (induction evs arbitrary: ps)
  case Nil
  then show ?case by (simp add: litmus_run_def)
next
  case (Cons ev evs)
  then show ?case
    using litmus_step_inv [of "snd ps" ev "fst ps"] by (simp add: litmus_run_def)
qed

lemma litmus_done_order:
  assumes "litmus_inv s" "l_state s = LITMUS_DONE"
  shows "l_hold_seq s < l_update_entry_seq s" "l_update_entry_seq s < l_grace_entry_seq s"
    "l_grace_entry_seq s < l_reader_release_seq s"
    "l_update_exit_seq s \<noteq> 0 \<longrightarrow> l_reader_release_seq s < l_update_exit_seq s"
    "l_clear_exit_seq s \<noteq> 0 \<longrightarrow> l_reader_release_seq s < l_clear_exit_seq s"
  using assms by (auto simp: litmus_inv_defs word_less_nat_alt)

end
