(* ===== verification/Example_System.thy ===== *)
theory Example_System
  imports Path_Open Harness_Load Readdir Retirement Scope_Seq Policy_Cache Litmus
begin

text \<open>
  A small concrete system: one cgroup with one program attached, reached from boot by the
  attach operation itself, and one target registered by a write to the control file. The
  closed instances of the properties are evaluated on it.
\<close>

definition example_hash :: hashfn where
  "example_hash x = ucast x"

definition example_parent :: path where
  "example_parent = \<lparr>p_mnt = 1, p_dentry = 10\<rparr>"

definition example_target :: path where
  "example_target = \<lparr>p_mnt = 2, p_dentry = 20\<rparr>"

definition example_attach_env :: attach_env where
  "example_attach_env =
     \<lparr>ae_storage = True, ae_node = True, ae_array = (\<lambda>_. True),
      ae_anchor_link = (\<lambda>_ _. Inl EINVAL), ae_anchor_prog = (\<lambda>_ _. Inl EINVAL)\<rparr>"

definition example_attach_args :: attach_args where
  "example_attach_args =
     \<lparr>at_prog = Some 100, at_link = None, at_replace_prog = None, at_flags = 0, at_id_or_fd = 0,
      at_revision = 0\<rparr>"

definition example_attached :: kstate where
  "example_attached = snd (cgroup_bpf_attach example_attach_env 1 example_attach_args (kernel_boot 1))"

text \<open>A write of \<^verbatim>\<open>1 3\<close>, where descriptor 3 is open on the target.\<close>

definition example_write_env :: write_env where
  "example_write_env =
     \<lparr>we_current = 1, we_tryget = True, we_alloc = True, we_copy = (\<lambda>_. Some ''1 3''),
      we_streq = (=), we_scan_uu = (\<lambda>s. if s = ''1 3'' then Some (1, 3) else None),
      we_scan_suc = (\<lambda>_. ([], 0, 0)), we_fd = (\<lambda>fd. if fd = 3 then Some example_target else None),
      we_can_lookup = (\<lambda>_. True)\<rparr>"

definition example_state :: kstate where
  "example_state = snd (namei_ext_register_target_write example_hash example_write_env 3 example_attached)"

lemma example_attach: "fst (cgroup_bpf_attach example_attach_env 1 example_attach_args (kernel_boot 1)) = None"
  by code_simp

lemma example_register:
  "fst (namei_ext_register_target_write example_hash example_write_env 3 example_attached) = Inr 3"
  by code_simp

lemma example_reachable: "reachable example_hash (kernel_boot 1) example_state"
  unfolding example_state_def example_attached_def
  by (rule reachable.step [OF reachable.step [OF reachable.init kstep.attach] kstep.register])

lemma example_inv: "kernel_inv example_hash example_state"
  by (rule reachable_inv [OF example_reachable kernel_boot_inv])

lemma example_facts:
  "live example_state 1" "cb_owner (ks_cgroups example_state 1) = Some 1"
  "cb_effective (ks_cgroups example_state 1) = [Some 100]"
  "namei_ext_enabled example_state"
  "cb_scopes (ks_cgroups example_state 1) = None"
  "cb_ref_live (ks_cgroups example_state 1)"
  by code_simp+

lemma example_target_path: "target_path example_hash example_state 1 1 = Some example_target"
  by code_simp

lemma example_matches: "namei_ext_policy_parent_matches 1 parent example_state"
  by (simp add: namei_ext_policy_parent_matches_def example_facts)

lemma example_bound: "bound_to example_state 1 parent 100"
  by (simp add: bound_to_def example_facts example_matches)

lemma example_takes: "takes_cgroup 1 True parent example_state"
  by (simp add: takes_cgroup_def example_facts example_matches)

text \<open>One write section around the attach and the registration.\<close>

definition example_history :: "nat \<Rightarrow> seq_sys" where
  "example_history n =
     \<lparr>sq_seq = (if n = 0 then 0 else if n < 3 then 1 else 2),
      sq_st = (if n < 2 then kernel_boot 1 else example_state)\<rparr>"

lemma example_history_run: "seq_run example_history"
proof -
  have "seq_step (example_history n) (example_history (Suc n))" for n
  proof -
    consider "n = 0" | "n = 1" | "n = 2" | "n > 2" by linarith
    then show ?thesis
    proof cases
      case 1
      then show ?thesis
        using seq_step.write_begin [of "example_history 0"] by (simp add: example_history_def)
    next
      case 2
      then show ?thesis
        using seq_step.write_tables [of "example_history 1" example_state] by (simp add: example_history_def)
    next
      case 3
      then show ?thesis
        using seq_step.write_end [of "example_history 2"] by (simp add: example_history_def numeral_2_eq_2)
    next
      case 4
      then show ?thesis
        using seq_step.idle [of "example_history n"] by (simp add: example_history_def)
    qed
  qed
  then show ?thesis by (simp add: seq_run_def)
qed

lemma example_history_inv: "quiescent_inv example_hash example_history"
  using example_inv kernel_boot_inv [of example_hash 1]
  by (simp add: quiescent_inv_def example_history_def kernel_inv_def)

subsection \<open>A walk in the example system\<close>

definition example_hook :: "'m policy \<Rightarrow> 'm hook" where
  "example_hook policy =
     \<lparr>hk_run = (\<lambda>_. policy), hk_backing = (\<lambda>_. None), hk_fnh = (\<lambda>_ _ _. 0),
      hk_masks = \<lparr>lm_create = 0x20000, lm_open = 0x10000, lm_directory = 2, lm_rcu = 0x100,
        lm_is_scoped = 0x18000000, lm_no_xdev = 0x1000000\<rparr>,
      hk_current = 1, hk_hash = example_hash, hk_follow = 1,
      hk_excl = 0x40000, hk_o_creat = 0x40, hk_o_excl = 0x80, hk_o_write = 0x203, hk_rounds = 2,
      hk_beyond = NUL\<rparr>"

text \<open>A file system in which every name of a directory leads to dentry 30.\<close>

definition example_vfs :: vfs where
  "example_vfs =
     \<lparr>vf_lookup_fast = (\<lambda>nd st. (Inr (Some 30), nd, st)), vf_lookup_slow = (\<lambda>q d fl st. (Inr 30, st)),
      vf_put_link = (\<lambda>nd st. (nd, st)),
      vf_step_into = (\<lambda>nd fl d st. (Walk_done, nd\<lparr>nd_path := (nd_path nd)\<lparr>p_dentry := d\<rparr>\<rparr>, st)),
      vf_try_to_unlazy = (\<lambda>nd st. (True, nd, st)),
      vf_handle_dots = (\<lambda>nd t st. (Walk_done, nd, st)), vf_d_hash = (\<lambda>d q. (None, q)),
      vf_op_hash = (\<lambda>_. False), vf_d_can_lookup = (\<lambda>_. True), vf_d_inode = (\<lambda>_. None),
      vf_d_seq = (\<lambda>_. 0), vf_mnt_want_write = (\<lambda>_ st. (True, st)), vf_mnt_drop_write = (\<lambda>_ st. st),
      vf_lookup_open = (\<lambda>nd fl w st. (Open_found 30, nd, st)), vf_break_deleg_wait = (\<lambda>st. (None, st)),
      vf_d_positive = (\<lambda>_. True), vf_dput = (\<lambda>_ st. st)\<rparr>"

definition example_nd :: "bytes \<Rightarrow> nameidata" where
  "example_nd name =
     \<lparr>nd_path = example_parent, nd_last = \<lparr>q_name = name, q_len = of_nat (length name), q_hash = 0\<rparr>,
      nd_root = \<lparr>p_mnt = 1, p_dentry = 1\<rparr>, nd_inode = None, nd_flags = 0, nd_root_preset = False,
      nd_root_grabbed = False, nd_jumped = False, nd_seq = 0, nd_next_seq = 0, nd_m_seq = 0, nd_r_seq = 0,
      nd_last_type = LAST_NORM, nd_depth = 0, nd_total_link_count = 0, nd_stack = [], nd_stack_big = False,
      nd_pathname = [], nd_root_seq = 0, nd_dfd = -100, nd_dir = None\<rparr>"

definition example_rd :: namei_ext_redirect where
  "example_rd =
     \<lparr>rd_active = False, rd_target_pending = False, rd_target_active = False, rd_target_borrowed = False,
      rd_len = 0, rd_hash = 0, rd_target_id = 0, rd_target_cgroup_id = 0, rd_name = replicate 64 NUL,
      rd_target = \<lparr>p_mnt = 0, p_dentry = 0\<rparr>\<rparr>"

lemma example_vfs_keeps_last: "keeps_last example_vfs"
  by (simp add: keeps_last_def example_vfs_def)

lemma example_not_rcu: "\<not> rcu_walk (example_hook policy) (example_nd name)"
  by (simp add: rcu_walk_def example_hook_def example_nd_def has_flag_def)

lemma example_select:
  "hook_lookup (example_hook select_portal_policy) (example_nd ''portal'') example_rd example_state () =
     (None, example_rd\<lparr>rd_target_cgroup_id := 1, rd_target_id := 1, rd_target_pending := True\<rparr>, ())"
  by code_simp

lemma example_alias:
  "hook_lookup (example_hook redirect_alias_policy) (example_nd ''tool'') example_rd example_state () =
     (None, example_rd\<lparr>rd_active := True, rd_len := 9, rd_name := ''tool.real'' @ replicate 55 NUL\<rparr>, ())"
  by code_simp

subsection \<open>A tree with a symbolic link\<close>

text \<open>
  Below the root \<^verbatim>\<open>1\<close> the directory \<^verbatim>\<open>d\<close> is dentry 10 and \<^verbatim>\<open>l\<close> (dentry 11) is a link to it; every other
  name leads to the directory 12. Nothing changes during the walk.
\<close>

definition example_inode :: "u64 \<Rightarrow> inode option" where
  "example_inode d = Some \<lparr>i_sb_dev = Some 1, i_ino = d, i_generation = 0\<rparr>"

definition example_dcache :: dcache_ops where
  "example_dcache =
     (let child = (\<lambda>q. if qstr_text q = ''d'' then 10 else if qstr_text q = ''l'' then 11 else 12) in
      \<lparr>do_seq_begin = (\<lambda>_ _. 0), do_seq_retry = (\<lambda>_ _ _. False),
       do_d_lookup_rcu = (\<lambda>_ q _. Some (child q, 0)), do_d_lookup = (\<lambda>_ q st. (Some (child q), st)),
       do_lookup_slow = (\<lambda>_ _ _ st. (Inl ENOENT, st)), do_op_revalidate = (\<lambda>_. False),
       do_d_revalidate = (\<lambda>_ _ _ _ st. (Reval_ok, st)), do_op_weak_revalidate = (\<lambda>_. False),
       do_d_weak_revalidate = (\<lambda>_ _ st. (Reval_ok, st)), do_d_invalidate = (\<lambda>_ st. st),
       do_lockref_get = (\<lambda>_ st. (True, st)), do_dget = (\<lambda>_ st. st), do_dput = (\<lambda>_ st. st),
       do_d_inode = example_inode, do_d_parent = (\<lambda>_ _. 1), do_is_subdir = (\<lambda>_ _ _. True),
       do_d_managed = (\<lambda>_ _. False), do_d_is_symlink = (\<lambda>d _. d = 11), do_d_can_lookup = (\<lambda>d. d \<noteq> 11),
       do_d_positive = (\<lambda>_. True), do_d_seq = (\<lambda>_. 0), do_op_hash = (\<lambda>_. False), do_d_hash = (\<lambda>_ q. (None, q))\<rparr>)"

definition example_mounts :: mount_ops where
  "example_mounts =
     \<lparr>mo_mount_begin = (\<lambda>_. 0), mo_mount_retry = (\<lambda>_ _. False), mo_rename_begin = (\<lambda>_. 0),
      mo_rename_retry = (\<lambda>_ _. False), mo_legitimize_mnt = (\<lambda>_ _ st. (0, st)), mo_mntget = (\<lambda>_ st. st),
      mo_mntput = (\<lambda>_ st. st), mo_mnt_root = (\<lambda>_. 1), mo_sb_root = (\<lambda>_. 1), mo_nosymfollow = (\<lambda>_. False),
      mo_follow_mount_rcu = (\<lambda>p _ _ s _. (True, p, False, s)),
      mo_traverse_mounts = (\<lambda>p _ _ st. ((None, p, False, 0), st)),
      mo_choose_mountpoint_rcu = (\<lambda>_ _ _. None), mo_choose_mountpoint = (\<lambda>_ _ st. (None, st)),
      mo_path_is_under = (\<lambda>_ _ _. True), mo_fs_root = (\<lambda>_. \<lparr>p_mnt = 1, p_dentry = 1\<rparr>),
      mo_fs_pwd = (\<lambda>_. \<lparr>p_mnt = 1, p_dentry = 1\<rparr>), mo_fd = (\<lambda>_. None)\<rparr>"

definition example_link_ops :: link_ops where
  "example_link_ops =
     \<lparr>lo_alloc_stack = (\<lambda>st. (True, st)), lo_may_exec = (\<lambda>_ _ _ st. (None, st)),
      lo_may_follow_link = (\<lambda>_ _ st. (None, st)), lo_atime_needs_update = (\<lambda>_ _ _. False),
      lo_touch_atime = (\<lambda>_ st. st), lo_security_follow_link = (\<lambda>_ _ _ _. None),
      lo_i_link = (\<lambda>_ _. Some ''d''), lo_get_link = (\<lambda>_ _ st. (Link_none, st)),
      lo_mnt_want_write = (\<lambda>_ st. (True, st)), lo_mnt_drop_write = (\<lambda>_ st. st),
      lo_lookup_open = (\<lambda>_ _ _ st. (Open_found 12, st)), lo_break_deleg_wait = (\<lambda>st. (None, st))\<rparr>"

definition example_walk_env :: walk_env where
  "example_walk_env =
     \<lparr>we_dc = example_dcache, we_mo = example_mounts, we_lo = example_link_ops,
      we_fl = \<lparr>wf_cached = 0x200000, wf_beneath = 0x8000000, wf_in_root = 0x10000000, wf_no_symlinks = 0x4000000,
        wf_no_magiclinks = 0x2000000, wf_parent = 0x10, wf_down = 0x8000, wf_mountpoint = 0x80, wf_reval = 0x20,
        wf_linkat_empty = 0x400000\<rparr>\<rparr>"

definition example_start :: "bytes \<Rightarrow> nameidata" where
  "example_start name = set_nameidata (-100) name None None (example_nd [])"

lemma example_lookup:
  "fst (filename_lookup (example_hook pass_only_policy) example_walk_env (\<lambda>_. example_rd) (-100) (Inr ''/l/../l/f'') 1 None None
     (example_nd []) (kernel_boot 1) ()) = Inr \<lparr>p_mnt = 1, p_dentry = 12\<rparr>"
  by code_simp

subsection \<open>An open\<close>

text \<open>
  Every dentry but \<^verbatim>\<open>/d\<close> and the root is a regular file with an inode, files can be created and
  opened, and opening marks the file.
\<close>

definition example_open_env :: open_env where
  "example_open_env =
     \<lparr>oe_o_trunc = 0x200, oe_o_append = 0x400, oe_o_noatime = 0x40000, oe_o_directory = 0x10000, oe_o_path = 0x200000,
      oe_o_tmpfile = 0x400000, oe_may_exec = 1, oe_may_write = 2, oe_may_open = 0x20,
      oe_i_mode = (\<lambda>_. 0x81A4), oe_i_uid = (\<lambda>_ _. Some 0), oe_is_append = (\<lambda>_. False), oe_fsuid = 0,
      oe_protected_symlinks = 1, oe_protected_fifos = 1, oe_protected_regular = 1,
      oe_mnt_nodev = (\<lambda>_. False), oe_sb_nodev = (\<lambda>_. False), oe_path_noexec = (\<lambda>_. False),
      oe_inode_permission = (\<lambda>_ _ _ _. None), oe_owner_or_capable = (\<lambda>_ _. True),
      oe_security_path_mknod = (\<lambda>_ _ _ _. None), oe_has_mapping = (\<lambda>_. True), oe_security_create = (\<lambda>_ _ _ _. None),
      oe_strip_sgid = (\<lambda>_ _ m. m), oe_strip_umask = (\<lambda>_ m. m), oe_is_deaddir = (\<lambda>_ _. False),
      oe_d_inode = (\<lambda>d _. example_inode d), oe_d_is_dir = (\<lambda>d _. d \<in> {1, 10}), oe_d_is_reg = (\<lambda>d _. d \<notin> {1, 10}),
      oe_d_alloc_parallel = (\<lambda>_ _ st. (Inr 40, st)), oe_d_in_lookup = (\<lambda>_ _. False), oe_d_lookup_done = (\<lambda>_ st. st),
      oe_atomic_open = (\<lambda>_. None), oe_i_lookup = (\<lambda>_ _ _ st. (Inr None, st)),
      oe_i_create = (\<lambda>_. Some (\<lambda>_ _ _ st. (None, st))), oe_try_break_deleg = (\<lambda>_ st. (None, st)),
      oe_mnt_want_write = (\<lambda>_ st. (None, st)), oe_mnt_drop_write = (\<lambda>_ st. st),
      oe_get_write_access = (\<lambda>_ st. (None, st)), oe_put_write_access = (\<lambda>_ st. st),
      oe_security_truncate = (\<lambda>_ _. None), oe_do_truncate = (\<lambda>_ st. (None, st)),
      oe_vfs_open = (\<lambda>_ st. (None, st\<lparr>ks_f_opened := True\<rparr>)), oe_post_open = (\<lambda>_ _. None),
      oe_alloc_file = (\<lambda>st. (None, st)), oe_fput = (\<lambda>st. st), oe_d_alloc = (\<lambda>_ st. (Some 41, st)),
      oe_i_tmpfile = (\<lambda>_. None), oe_set_linkable = (\<lambda>_ st. st)\<rparr>"

definition example_op :: open_flags where
  "example_op = \<lparr>op_open_flag = 0x42, op_mode = 0x1A4, op_acc_mode = 2, op_intent = 0x30000, op_lookup_flags = 1\<rparr>"

definition example_open_walk :: walk_env where
  "example_open_walk = open_walk_env (example_hook hide_secret_policy) example_walk_env example_open_env (op_mode example_op)"

definition example_open_start :: nameidata where
  "example_open_start = (example_nd [])\<lparr>nd_path := \<lparr>p_mnt = 1, p_dentry = 1\<rparr>, nd_inode := example_inode 1\<rparr>"

lemma example_settled: "settled (example_hook policy) example_walk_env example_open_env"
  by (simp add: settled_def example_hook_def example_walk_env_def example_dcache_def example_open_env_def Let_def)

lemma example_open:
  "map_option fst (do_file_open (example_hook pass_only_policy) example_walk_env example_open_env (\<lambda>_. example_rd) (-100)
     (Inr ''l/f'') example_op None (example_nd []) (kernel_boot 1) ()) = Some (Inr ())"
  by code_simp

text \<open>The walk to the parent of a hidden name, and the answer of the hook there.\<close>

definition example_hidden_nd :: nameidata where
  "example_hidden_nd =
     example_open_start\<lparr>nd_last := \<lparr>q_name = ''secret'' @ [NUL], q_len = 6, q_hash = 0\<rparr>, nd_last_type := LAST_NORM,
       nd_dir := Some (1, \<lparr>i_sb_dev = Some 1, i_ino = 1, i_generation = 0\<rparr>), nd_flags := 0\<rparr>"

lemma example_hidden_walk:
  "link_path_walk (example_hook hide_secret_policy) example_open_walk (\<lambda>_. example_rd) (Inr ''secret'')
     example_open_start st () = (None, example_hidden_nd, st, ())"
proof -
  have l: "lastword ''secret'' \<noteq> LAST_WORD_IS_DOTDOT" "lastword ''secret'' \<noteq> LAST_WORD_IS_DOT"
    by (simp_all add: LAST_WORD_IS_DOT_def LAST_WORD_IS_DOTDOT_def lastword_dot lastword_dotdot)
  let ?nd = "example_open_start\<lparr>nd_last_type := LAST_ROOT,
    nd_flags := nd_flags example_open_start OR wf_parent (we_fl example_open_walk)\<rparr>"
  have r: "walk_round (example_hook hide_secret_policy) example_open_walk (\<lambda>_. example_rd) ([], ''secret'', ?nd, st, ()) =
      Inl (None, example_hidden_nd, st, ())"
    using l
    by (simp add: walk_round_def may_lookup_def hash_name_def classify_last_def component_def skip_slashes_def
        example_open_walk_def open_walk_env_def example_walk_env_def example_link_ops_def example_dcache_def example_hook_def
        example_hidden_nd_def example_open_start_def example_nd_def example_inode_def rcu_walk_def has_flag_def Let_def)
  show ?thesis
    by (subst link_path_walk_def) (simp add: skip_slashes_def Let_def link_walk.simps r)
qed

lemma example_hidden_lookup:
  "hook_lookup (example_hook hide_secret_policy) (example_hidden_nd\<lparr>nd_flags := nd_flags example_hidden_nd OR op_intent example_op\<rparr>)
     example_rd example_state () = (Some ENOENT, example_rd, ())"
  by code_simp

lemma example_hidden_managed:
  "namei_ext_parent_maybe_managed (hk_hash (example_hook hide_secret_policy)) (nd_path example_hidden_nd) example_state"
  by code_simp

subsection \<open>A link\<close>

definition example_sys_env :: sys_env where
  "example_sys_env =
     \<lparr>se_cgroup_fd = (\<lambda>fd. if fd = 4 then Inr 1 else Inl EBADF), se_prog_fd = (\<lambda>_. Inl EBADF),
      se_attach = example_attach_env, se_delete_at = (\<lambda>n ps. ps), se_alloc = (\<lambda>_. True), se_link_alloc = True,
      se_prime = None\<rparr>"

definition example_link_attr :: link_create_attr where
  "example_link_attr = \<lparr>lk_target_fd = 4, lk_flags = 0, lk_relative_fd = 0, lk_expected_revision = 0\<rparr>"

definition example_linked :: kstate where
  "example_linked = snd (cgroup_bpf_link_attach example_sys_env example_link_attr 100 7 (kernel_boot 1))"

lemma example_link: "fst (cgroup_bpf_link_attach example_sys_env example_link_attr 100 7 (kernel_boot 1)) = None"
  by code_simp

lemma example_boot_unlinked: "ks_link_cgroup (kernel_boot 1) l = None"
  by (simp add: kernel_boot_def)

lemma example_linked_reachable: "sys_reachable example_hash (kernel_boot 1) example_linked"
  unfolding example_linked_def
  by (rule sys_reachable.step [OF sys_reachable.start sys_step.link_attach [OF example_boot_unlinked]])

subsection \<open>A directory and contexts for policies\<close>

definition example_entries :: "dirent list" where
  "example_entries =
     [\<lparr>de_name = ''a'', de_offset = 0, de_ino = 4, de_type = 8\<rparr>,
      \<lparr>de_name = ''secret'', de_offset = 1, de_ino = 5, de_type = 8\<rparr>,
      \<lparr>de_name = ''b'', de_offset = 2, de_ino = 6, de_type = 4\<rparr>]"

definition example_ctx :: "bytes list dir_context" where
  "example_ctx = \<lparr>dc_pos = 0, dc_count = 1, dc_dt_flags_mask = 0, dc_owner = []\<rparr>"

definition example_named :: "bytes \<Rightarrow> ctx" where
  "example_named s =
     (namei_ext_init_ctx (\<lambda>_. None) None None BPF_NAMEI_EXT_LOOKUP 0 (literal_qstr s))\<lparr>c_cgroup_id := 1\<rparr>"

lemma example_named_ctx: "length s \<le> 64 \<Longrightarrow> ctx_named (example_named s) s"
  unfolding example_named_def by (rule literal_ctx_named)

definition example_cache_rule :: cache_rule where
  "example_cache_rule =
     (let none = \<lparr>r_action = 0, r_target_len = 0, r_branch = 0, r_flags = 0, r_target = replicate 64 NUL\<rparr>;
          h = cache_component_name_hash (example_named ''0123456789abcdef0123456789abcdeM'')
      in \<lparr>cr_verified_hit = none, cr_canonical = none, cr_reject = none, cr_expected_hash = [h, 0, 0, 0],
          cr_observed_hash = [0, 0, 0, 0], cr_state = CACHE_STATE_VERIFIED_HIT, cr_witness_count = 1\<rparr>)"

subsection \<open>The harness and the litmus\<close>

definition example_policy :: "harness_policy option" where
  "example_policy =
     Some \<lparr>hp_obj = Some [''grants'' \<mapsto> \<lparr>bm_fd = 3, bm_key_size = 96, bm_value_size = 4, bm_max_entries = 4\<rparr>],
           hp_cgroup_fd = 4, hp_prog_fd = 5, hp_attached = True\<rparr>"

definition example_load_env :: load_env where
  "example_load_env =
     \<lparr>le_open_file = Inr Map.empty, le_load = None, le_next_program = Some 5, le_open_cgroup = Inr 4,
      le_sys = example_sys_env\<lparr>se_prog_fd := (\<lambda>_. Inr 100)\<rparr>\<rparr>"

lemma example_load:
  "\<not> isl (fst (namei_ext_policy_load_attach example_load_env example_policy \<lparr>h_objects = 0, h_fds = 3\<rparr> (kernel_boot 1)))"
  by code_simp

text \<open>A control child that opens every path as descriptor 3 on the target, and whose
  environment reads back the one line it writes.\<close>

definition example_child :: control_child where
  "example_child =
     \<lparr>ch_fork = None, ch_move = None, ch_open_control = True,
      ch_open_path = (\<lambda>_. Inr (3, example_target)), ch_close = (\<lambda>_. None), ch_close_control = True,
      ch_env = example_write_env\<lparr>we_scan_uu := (\<lambda>s. if s = ''9 3'' @ [CHR 10] then Some (9, 3) else None)\<rparr>,
      ch_waits = (\<lambda>code. \<lparr>wv_wait = (\<lambda>_. W_exited code), wv_clock = (\<lambda>_. Inr 0), wv_kill = None\<rparr>)\<rparr>"

definition example_batch :: "target_registration list" where
  "example_batch = [\<lparr>tr_path = Some ''/srv/target'', tr_target_id = 9\<rparr>]"

definition example_case :: litmus_case where
  "example_case =
     \<lparr>lc_cookie = 77, lc_mode = LITMUS_REPLACE, lc_cgroup_id = 1, lc_deadline_ns = 1000, lc_reader_tid = 10,
      lc_writer_tid = 11, lc_target_id = 9\<rparr>"

definition example_events :: "litmus_event list" where
  "example_events =
     [Ev_capture 10 4096 1,
      Ev_hold 10 0 5 False (Some \<lparr>lr_target_pending = False, lr_target_active = True, lr_target_borrowed = True,
        lr_target_id = 9, lr_target_cgroup_id = 1, lr_mnt = 2, lr_dentry = 20\<rparr>),
      Ev_poll 6, Ev_update_entry 11 1 7, Ev_poll 8, Ev_grace 11 9, Ev_poll 10, Ev_leave 11, Ev_update_exit 11 12]"

end
