(* ===== verification/Fuse_Counter.thy ===== *)
theory Fuse_Counter
  imports Namei_Prelude
begin

text \<open>
  The tracing program \<open>bpf/tracing/application_file_sharing_fuse_counter.bpf.c\<close>: it counts the
  FUSE requests of one connection by opcode. Both maps are arrays, so a lookup succeeds exactly
  below the number of entries.
\<close>

definition AFS_RQ2_FUSE_OPCODE_COUNT :: u32 where "AFS_RQ2_FUSE_OPCODE_COUNT = 64"

record trace_event_raw_fuse_request_send =
  te_common_type :: "16 word"
  te_common_flags :: "8 word"
  te_common_preempt_count :: "8 word"
  te_common_pid :: "32 word"
  te_connection :: u32
  te_padding :: u32
  te_unique :: u64
  te_opcode :: u32
  te_len :: u32

record fuse_maps =
  fuse_connection :: "u32 list"
  fuse_opcode_counts :: "u64 list"

definition array_lookup :: "'a list \<Rightarrow> u32 \<Rightarrow> 'a option" where
  "array_lookup xs key = (if unat key < length xs then Some (xs ! unat key) else None)"

definition count_fuse_request :: "trace_event_raw_fuse_request_send \<Rightarrow> fuse_maps \<Rightarrow> int \<times> fuse_maps" where
  "count_fuse_request ctx m =
     (case array_lookup (fuse_connection m) 0 of
        None \<Rightarrow> (0, m)
      | Some connection \<Rightarrow>
          if te_connection ctx \<noteq> connection \<or> te_opcode ctx \<ge> AFS_RQ2_FUSE_OPCODE_COUNT then (0, m)
          else
            let key = te_opcode ctx in
            case array_lookup (fuse_opcode_counts m) key of
              None \<Rightarrow> (0, m)
            | Some count \<Rightarrow>
                (0, m\<lparr>fuse_opcode_counts := (fuse_opcode_counts m)[unat key := count + 1]\<rparr>))"

definition fuse_trace :: "trace_event_raw_fuse_request_send list \<Rightarrow> fuse_maps \<Rightarrow> fuse_maps" where
  "fuse_trace evs m = fold (\<lambda>e m. snd (count_fuse_request e m)) evs m"

text \<open>
  Over any sequence of requests every counter grows by the number of requests of the connection
  with its opcode, modulo its width, and the connection is not touched.
\<close>

lemma count_fuse_request_step:
  assumes "fuse_connection m = [conn]" "length (fuse_opcode_counts m) = 64" "i < 64"
  shows "fuse_connection (snd (count_fuse_request e m)) = [conn]"
    "length (fuse_opcode_counts (snd (count_fuse_request e m))) = 64"
    "fuse_opcode_counts (snd (count_fuse_request e m)) ! i =
       fuse_opcode_counts m ! i + of_bool (te_connection e = conn \<and> unat (te_opcode e) = i)"
  using assms
  by (auto simp: count_fuse_request_def array_lookup_def Let_def nth_list_update word_le_nat_alt
      AFS_RQ2_FUSE_OPCODE_COUNT_def)

lemma fuse_trace_counts:
  assumes "fuse_connection m = [conn]" "length (fuse_opcode_counts m) = 64" "i < 64"
  shows "fuse_opcode_counts (fuse_trace evs m) ! i =
           fuse_opcode_counts m ! i + of_nat (length (filter (\<lambda>e. te_connection e = conn \<and> unat (te_opcode e) = i) evs))"
  using assms(1,2)
proof (induction evs arbitrary: m)
  case (Cons e evs)
  note s = count_fuse_request_step [OF Cons.prems assms(3), of e]
  have "fuse_trace (e # evs) m = fuse_trace evs (snd (count_fuse_request e m))" by (simp add: fuse_trace_def)
  then show ?case using Cons.IH [OF s(1,2)] s(3) by simp
qed (simp add: fuse_trace_def)

lemma fuse_trace_keeps:
  assumes "fuse_connection m = [conn]" "length (fuse_opcode_counts m) = 64"
  shows "fuse_connection (fuse_trace evs m) = [conn] \<and> length (fuse_opcode_counts (fuse_trace evs m)) = 64"
  using assms count_fuse_request_step(1,2) [of _ conn 0]
  by (induction evs arbitrary: m) (simp_all add: fuse_trace_def)

end
