(* ===== verification/Fuse_Workspace.thy ===== *)
theory Fuse_Workspace
  imports Policies_Agent
begin

text \<open>
  The FUSE baseline of the agent workspace
  (\<open>experiments/agent_workspace/namei_ext_agent_workspace_fuse.c\<close>): the view it serves, its
  counters, the control thread and the wait for quiescence; and how far the view agrees with
  the policy \<open>agent_workspace_view\<close>. File system calls are parameters.
\<close>

subsection \<open>State and counters\<close>

record fuse_workspace_state =
  fw_base :: bytes
  fw_upper :: bytes
  fw_active_epoch :: int
  fw_counters :: "u64 list"

abbreviation FUSE_COUNTER_GETATTR :: nat where "FUSE_COUNTER_GETATTR \<equiv> 0"
abbreviation FUSE_COUNTER_READDIR :: nat where "FUSE_COUNTER_READDIR \<equiv> 1"
abbreviation FUSE_COUNTER_OPEN :: nat where "FUSE_COUNTER_OPEN \<equiv> 2"
abbreviation FUSE_COUNTER_CREATE :: nat where "FUSE_COUNTER_CREATE \<equiv> 3"
abbreviation FUSE_COUNTER_READ :: nat where "FUSE_COUNTER_READ \<equiv> 4"
abbreviation FUSE_COUNTER_WRITE :: nat where "FUSE_COUNTER_WRITE \<equiv> 5"
abbreviation FUSE_COUNTER_READLINK :: nat where "FUSE_COUNTER_READLINK \<equiv> 6"
abbreviation FUSE_COUNTER_HIDDEN_LOOKUP :: nat where "FUSE_COUNTER_HIDDEN_LOOKUP \<equiv> 7"
abbreviation FUSE_COUNTER_HIDDEN_READDIR :: nat where "FUSE_COUNTER_HIDDEN_READDIR \<equiv> 8"
abbreviation FUSE_COUNTER_UNLINK :: nat where "FUSE_COUNTER_UNLINK \<equiv> 9"
abbreviation FUSE_COUNTER_RENAME :: nat where "FUSE_COUNTER_RENAME \<equiv> 10"
abbreviation FUSE_COUNTER_MKNOD :: nat where "FUSE_COUNTER_MKNOD \<equiv> 11"
abbreviation FUSE_COUNTER_INVALIDATE_ATTEMPT :: nat where "FUSE_COUNTER_INVALIDATE_ATTEMPT \<equiv> 12"
abbreviation FUSE_COUNTER_INVALIDATE_ERROR :: nat where "FUSE_COUNTER_INVALIDATE_ERROR \<equiv> 13"
abbreviation FUSE_COUNTER_TRUNCATE :: nat where "FUSE_COUNTER_TRUNCATE \<equiv> 14"
abbreviation FUSE_COUNTER_RELEASE :: nat where "FUSE_COUNTER_RELEASE \<equiv> 15"
abbreviation FUSE_COUNTER_REQUEST_TOTAL :: nat where "FUSE_COUNTER_REQUEST_TOTAL \<equiv> 16"
abbreviation FUSE_COUNTER_HANDLE_OPENED :: nat where "FUSE_COUNTER_HANDLE_OPENED \<equiv> 17"
abbreviation FUSE_COUNTER_RELEASE_COMPLETED :: nat where "FUSE_COUNTER_RELEASE_COMPLETED \<equiv> 18"
abbreviation FUSE_COUNTER_MAX :: nat where "FUSE_COUNTER_MAX \<equiv> 19"

definition fuse_count_state :: "nat \<Rightarrow> fuse_workspace_state \<Rightarrow> fuse_workspace_state" where
  "fuse_count_state key st =
     (if key < FUSE_COUNTER_MAX
      then st\<lparr>fw_counters := (fw_counters st)[key := fw_counters st ! key + 1]\<rparr> else st)"

definition fuse_count_request :: "nat \<Rightarrow> fuse_workspace_state \<Rightarrow> fuse_workspace_state" where
  "fuse_count_request key st = fuse_count_state key (fuse_count_state FUSE_COUNTER_REQUEST_TOTAL st)"

subsection \<open>The view\<close>

definition active_target :: "fuse_workspace_state \<Rightarrow> bytes" where
  "active_target st = (if fw_active_epoch st \<noteq> 0 then fw_upper st else fw_base st)"

definition is_hidden_path :: "bytes \<Rightarrow> bool" where
  "is_hidden_path path \<longleftrightarrow> path = ''/ws/deleted.txt''"

text \<open>\<open>snprintf\<close> into a buffer of \<open>sz\<close> bytes: too long a text is an error.\<close>

definition backing_path ::
  "bytes \<Rightarrow> nat \<Rightarrow> fuse_workspace_state \<Rightarrow> (errno + bytes) \<times> fuse_workspace_state" where
  "backing_path path sz st =
     (let fit = (\<lambda>s. if length s \<ge> sz then Inl ENAMETOOLONG else Inr s) in
      if is_hidden_path path then (Inl ENOENT, fuse_count_state FUSE_COUNTER_HIDDEN_LOOKUP st)
      else if path = ''/ws'' then (fit (active_target st), st)
      else if take 4 path \<noteq> ''/ws/'' then (Inl ENOENT, st)
      else
        let suffix = drop 4 path in
        if suffix = [] then (Inl ENOENT, st)
        else (fit (active_target st @ ''/'' @ suffix), st))"

subsection \<open>Operations\<close>

record posix =
  px_lstat :: "bytes \<Rightarrow> errno option"
  px_opendir :: "bytes \<Rightarrow> errno + bytes list"
  px_open :: "bytes \<Rightarrow> u32 \<Rightarrow> errno + nat"
  px_mknod :: "bytes \<Rightarrow> errno option"
  px_pread :: "nat \<Rightarrow> errno + nat"
  px_pwrite :: "nat \<Rightarrow> errno + nat"
  px_truncate :: "bytes \<Rightarrow> errno option"
  px_readlink :: "bytes \<Rightarrow> errno + bytes"
  px_unlink :: "bytes \<Rightarrow> errno option"
  px_rename :: "bytes \<Rightarrow> bytes \<Rightarrow> errno option"
  px_close :: "nat \<Rightarrow> errno option"

abbreviation PATH_MAX :: nat where "PATH_MAX \<equiv> 4096"

text \<open>A call on one backing path.\<close>

definition on_backing ::
  "bytes \<Rightarrow> (bytes \<Rightarrow> fuse_workspace_state \<Rightarrow> (errno + 'r) \<times> fuse_workspace_state) \<Rightarrow> fuse_workspace_state \<Rightarrow>
     (errno + 'r) \<times> fuse_workspace_state" where
  "on_backing path f st =
     (case backing_path path PATH_MAX st of
        (Inl e, st) \<Rightarrow> (Inl e, st)
      | (Inr backing, st) \<Rightarrow> f backing st)"

definition result_of :: "errno option \<Rightarrow> errno + unit" where
  "result_of e = (case e of Some e \<Rightarrow> Inl e | None \<Rightarrow> Inr ())"

definition agent_fuse_getattr :: "posix \<Rightarrow> bytes \<Rightarrow> fuse_workspace_state \<Rightarrow> (errno + unit) \<times> fuse_workspace_state" where
  "agent_fuse_getattr px path st =
     (let st = fuse_count_request FUSE_COUNTER_GETATTR st in
      if path = ''/'' then (Inr (), st)
      else on_backing path (\<lambda>b st. (result_of (px_lstat px b), st)) st)"

text \<open>The names handed to the filler, in order; its answers are ignored.\<close>

fun list_entries :: "bytes list \<Rightarrow> fuse_workspace_state \<Rightarrow> bytes list \<times> fuse_workspace_state" where
  "list_entries [] st = ([], st)"
| "list_entries (d # ds) st =
     (if d = ''.'' \<or> d = ''..'' then list_entries ds st
      else if d = ''deleted.txt'' then list_entries ds (fuse_count_state FUSE_COUNTER_HIDDEN_READDIR st)
      else let (ns, st) = list_entries ds st in (d # ns, st))"

definition agent_fuse_readdir ::
  "posix \<Rightarrow> bytes \<Rightarrow> fuse_workspace_state \<Rightarrow> (errno option \<times> bytes list) \<times> fuse_workspace_state" where
  "agent_fuse_readdir px path st =
     (let st = fuse_count_request FUSE_COUNTER_READDIR st;
          dots = [''.'', ''..'']
      in
      if path = ''/'' then ((None, dots @ [''ws'']), st)
      else case backing_path path PATH_MAX st of
             (Inl e, st) \<Rightarrow> ((Some e, dots), st)
           | (Inr backing, st) \<Rightarrow>
               (case px_opendir px backing of
                  Inl e \<Rightarrow> ((Some e, dots), st)
                | Inr ds \<Rightarrow> let (ns, st) = list_entries ds st in ((None, dots @ ns), st)))"

definition agent_fuse_open ::
  "posix \<Rightarrow> bytes \<Rightarrow> u32 \<Rightarrow> fuse_workspace_state \<Rightarrow> (errno + nat) \<times> fuse_workspace_state" where
  "agent_fuse_open px path flags st =
     on_backing path (\<lambda>b st. case px_open px b flags of
                              Inl e \<Rightarrow> (Inl e, st)
                            | Inr fd \<Rightarrow> (Inr fd, fuse_count_state FUSE_COUNTER_HANDLE_OPENED st))
       (fuse_count_request FUSE_COUNTER_OPEN st)"

definition agent_fuse_create ::
  "posix \<Rightarrow> u32 \<Rightarrow> bytes \<Rightarrow> u32 \<Rightarrow> fuse_workspace_state \<Rightarrow> (errno + nat) \<times> fuse_workspace_state" where
  "agent_fuse_create px o_creat path flags st =
     on_backing path (\<lambda>b st. case px_open px b (flags OR o_creat) of
                              Inl e \<Rightarrow> (Inl e, st)
                            | Inr fd \<Rightarrow> (Inr fd, fuse_count_state FUSE_COUNTER_HANDLE_OPENED st))
       (fuse_count_request FUSE_COUNTER_CREATE st)"

definition agent_fuse_mknod :: "posix \<Rightarrow> bytes \<Rightarrow> fuse_workspace_state \<Rightarrow> (errno + unit) \<times> fuse_workspace_state" where
  "agent_fuse_mknod px path st =
     on_backing path (\<lambda>b st. (result_of (px_mknod px b), st)) (fuse_count_request FUSE_COUNTER_MKNOD st)"

definition agent_fuse_read :: "posix \<Rightarrow> nat \<Rightarrow> fuse_workspace_state \<Rightarrow> (errno + nat) \<times> fuse_workspace_state" where
  "agent_fuse_read px fh st = (px_pread px fh, fuse_count_request FUSE_COUNTER_READ st)"

definition agent_fuse_write :: "posix \<Rightarrow> nat \<Rightarrow> fuse_workspace_state \<Rightarrow> (errno + nat) \<times> fuse_workspace_state" where
  "agent_fuse_write px fh st = (px_pwrite px fh, fuse_count_request FUSE_COUNTER_WRITE st)"

definition agent_fuse_truncate :: "posix \<Rightarrow> bytes \<Rightarrow> fuse_workspace_state \<Rightarrow> (errno + unit) \<times> fuse_workspace_state" where
  "agent_fuse_truncate px path st =
     on_backing path (\<lambda>b st. (result_of (px_truncate px b), st)) (fuse_count_request FUSE_COUNTER_TRUNCATE st)"

definition agent_fuse_readlink ::
  "posix \<Rightarrow> bytes \<Rightarrow> nat \<Rightarrow> fuse_workspace_state \<Rightarrow> (errno + bytes) \<times> fuse_workspace_state" where
  "agent_fuse_readlink px path sz st =
     on_backing path (\<lambda>b st. (map_sum id (\<lambda>l. take (sz - 1) l @ [NUL]) (px_readlink px b), st))
       (fuse_count_request FUSE_COUNTER_READLINK st)"

definition agent_fuse_unlink :: "posix \<Rightarrow> bytes \<Rightarrow> fuse_workspace_state \<Rightarrow> (errno + unit) \<times> fuse_workspace_state" where
  "agent_fuse_unlink px path st =
     on_backing path (\<lambda>b st. (result_of (px_unlink px b), st)) (fuse_count_request FUSE_COUNTER_UNLINK st)"

definition agent_fuse_rename ::
  "posix \<Rightarrow> bytes \<Rightarrow> bytes \<Rightarrow> u32 \<Rightarrow> fuse_workspace_state \<Rightarrow> (errno + unit) \<times> fuse_workspace_state" where
  "agent_fuse_rename px src dst flags st =
     (let st = fuse_count_request FUSE_COUNTER_RENAME st in
      if flags \<noteq> 0 then (Inl EINVAL, st)
      else on_backing src (\<lambda>a. on_backing dst (\<lambda>b st. (result_of (px_rename px a b), st))) st)"

definition agent_fuse_release :: "posix \<Rightarrow> nat \<Rightarrow> fuse_workspace_state \<Rightarrow> (errno + unit) \<times> fuse_workspace_state" where
  "agent_fuse_release px fh st =
     (result_of (px_close px fh),
      fuse_count_state FUSE_COUNTER_RELEASE_COMPLETED (fuse_count_request FUSE_COUNTER_RELEASE st))"

subsection \<open>The control thread\<close>

datatype fuse_control_command = FUSE_CONTROL_SET_EPOCH | FUSE_CONTROL_STOP | FUSE_CONTROL_OTHER

definition epoch_paths :: "bytes list" where
  "epoch_paths = [''/ws'', ''/ws/main.txt'', ''/ws/src/app.txt'', ''/ws/.git/HEAD'', ''/ws/link.txt'', ''/ws/denied.txt'']"

text \<open>One path: the invalidation is attempted and counted; the first error is kept.\<close>

definition invalidate_one ::
  "(bytes \<Rightarrow> errno option) \<Rightarrow> bytes \<Rightarrow> errno option \<times> nat \<times> fuse_workspace_state \<Rightarrow>
     errno option \<times> nat \<times> fuse_workspace_state" where
  "invalidate_one inval path = (\<lambda>(status, n, st).
     let st = fuse_count_state FUSE_COUNTER_INVALIDATE_ATTEMPT st in
     case inval path of
       None \<Rightarrow> (status, n + 1, st)
     | Some e \<Rightarrow> (if status = None then Some e else status, n + 1, fuse_count_state FUSE_COUNTER_INVALIDATE_ERROR st))"

text \<open>One request: the response (status and number of invalidations), and whether the loop ends.\<close>

definition fuse_control_step ::
  "(bytes \<Rightarrow> errno option) \<Rightarrow> fuse_control_command \<Rightarrow> int \<Rightarrow> fuse_workspace_state \<Rightarrow>
     (errno option \<times> nat) \<times> bool \<times> fuse_workspace_state" where
  "fuse_control_step inval command epoch st =
     (if command = FUSE_CONTROL_STOP then ((None, 0), True, st)
      else if command \<noteq> FUSE_CONTROL_SET_EPOCH \<or> (epoch \<noteq> 0 \<and> epoch \<noteq> 1) then ((Some EINVAL, 0), False, st)
      else
        let (status, n, st) = fold (invalidate_one inval) epoch_paths (None, 0, st\<lparr>fw_active_epoch := epoch\<rparr>)
        in ((status, n), False, st))"

subsection \<open>Waiting for quiescence\<close>

text \<open>What one turn of the loop reads: the clock for the deadline, the counters, the clock again.\<close>

record quiescence_read =
  qr_check :: u64
  qr_handles :: u64
  qr_releases :: u64
  qr_total :: u64
  qr_now :: u64

fun quiescent_loop :: "u64 \<Rightarrow> quiescence_read list \<Rightarrow> u64 \<Rightarrow> u64 \<Rightarrow> errno option option" where
  "quiescent_loop deadline [] stable_since previous_total = None"
| "quiescent_loop deadline (r # rs) stable_since previous_total =
     (if \<not> qr_check r < deadline then Some (Some ETIMEDOUT)
      else if qr_releases r > qr_handles r then Some (Some EOVERFLOW)
      else if qr_releases r = qr_handles r \<and> qr_total r = previous_total then
        (if stable_since = 0 then quiescent_loop deadline rs (qr_now r) (qr_total r)
         else if qr_now r - stable_since \<ge> 20000000 then Some None
         else quiescent_loop deadline rs stable_since (qr_total r))
      else quiescent_loop deadline rs 0 (qr_total r))"

definition wait_fuse_quiescent :: "u64 \<Rightarrow> quiescence_read list \<Rightarrow> errno option option" where
  "wait_fuse_quiescent start rs = quiescent_loop (start + 5000000000) rs 0 (-1)"

text \<open>The requests a control thread reads one after the other, with the responses it writes.\<close>

fun fuse_control_loop ::
  "(bytes \<Rightarrow> errno option) \<Rightarrow> (fuse_control_command \<times> int) list \<Rightarrow> fuse_workspace_state \<Rightarrow>
     (errno option \<times> nat) list \<times> fuse_workspace_state" where
  "fuse_control_loop inval [] st = ([], st)"
| "fuse_control_loop inval ((command, epoch) # reqs) st =
     (let (response, stop, st) = fuse_control_step inval command epoch st in
      if stop then ([response], st)
      else let (rs, st) = fuse_control_loop inval reqs st in (response # rs, st))"

subsection \<open>The counters balance\<close>

text \<open>
  Every request is counted once in the total and once under its kind, and every release is
  counted as completed.
\<close>

abbreviation request_kinds :: "nat list" where
  "request_kinds \<equiv> [0, 1, 2, 3, 4, 5, 6, 9, 10, 11, 14, 15]"

definition requests_balanced :: "fuse_workspace_state \<Rightarrow> bool" where
  "requests_balanced st \<longleftrightarrow>
     length (fw_counters st) = 19 \<and>
     fw_counters st ! FUSE_COUNTER_REQUEST_TOTAL = sum_list (map (\<lambda>k. fw_counters st ! k) request_kinds) \<and>
     fw_counters st ! FUSE_COUNTER_RELEASE = fw_counters st ! FUSE_COUNTER_RELEASE_COMPLETED"

lemma side_counters:
  assumes "requests_balanced st" "k \<in> {7, 8, 12, 13, 17}"
  shows "requests_balanced (fuse_count_state k st)"
  using assms by (auto simp: requests_balanced_def fuse_count_state_def)

lemma request_kinds_counted:
  assumes "requests_balanced st" "k \<in> {0, 1, 2, 3, 4, 5, 6, 9, 10, 11, 14}"
  shows "requests_balanced (fuse_count_request k st)"
  using assms by (auto simp: requests_balanced_def fuse_count_request_def fuse_count_state_def)

lemma release_counters:
  assumes "requests_balanced st"
  shows "requests_balanced (fuse_count_state FUSE_COUNTER_RELEASE_COMPLETED (fuse_count_request FUSE_COUNTER_RELEASE st))"
  using assms by (simp add: requests_balanced_def fuse_count_request_def fuse_count_state_def)

lemma backing_path_counters:
  assumes "requests_balanced st"
  shows "requests_balanced (snd (backing_path path sz st))"
  using assms side_counters [of st 7] by (auto simp: backing_path_def Let_def split: if_splits)

lemma on_backing_counters:
  assumes "requests_balanced st" "\<And>b s. requests_balanced s \<Longrightarrow> requests_balanced (snd (f b s))"
  shows "requests_balanced (snd (on_backing path f st))"
  using assms(2) backing_path_counters [OF assms(1), of path PATH_MAX]
  by (auto simp: on_backing_def split_beta split: sum.split)

lemma list_entries_counters: "requests_balanced st \<Longrightarrow> requests_balanced (snd (list_entries ds st))"
  by (induction ds arbitrary: st) (auto simp: split_beta side_counters)

datatype fuse_op =
    Fuse_getattr bytes | Fuse_readdir bytes | Fuse_open bytes u32 | Fuse_create bytes u32 | Fuse_mknod bytes
  | Fuse_read nat | Fuse_write nat | Fuse_truncate bytes | Fuse_readlink bytes nat | Fuse_unlink bytes
  | Fuse_rename bytes bytes u32 | Fuse_release nat | Fuse_control fuse_control_command int

definition fuse_step :: "posix \<Rightarrow> u32 \<Rightarrow> (bytes \<Rightarrow> errno option) \<Rightarrow> fuse_op \<Rightarrow> fuse_workspace_state \<Rightarrow> fuse_workspace_state" where
  "fuse_step px o_creat inval op st =
     (case op of
        Fuse_getattr p \<Rightarrow> snd (agent_fuse_getattr px p st)
      | Fuse_readdir p \<Rightarrow> snd (agent_fuse_readdir px p st)
      | Fuse_open p fl \<Rightarrow> snd (agent_fuse_open px p fl st)
      | Fuse_create p fl \<Rightarrow> snd (agent_fuse_create px o_creat p fl st)
      | Fuse_mknod p \<Rightarrow> snd (agent_fuse_mknod px p st)
      | Fuse_read fh \<Rightarrow> snd (agent_fuse_read px fh st)
      | Fuse_write fh \<Rightarrow> snd (agent_fuse_write px fh st)
      | Fuse_truncate p \<Rightarrow> snd (agent_fuse_truncate px p st)
      | Fuse_readlink p n \<Rightarrow> snd (agent_fuse_readlink px p n st)
      | Fuse_unlink p \<Rightarrow> snd (agent_fuse_unlink px p st)
      | Fuse_rename a b fl \<Rightarrow> snd (agent_fuse_rename px a b fl st)
      | Fuse_release fh \<Rightarrow> snd (agent_fuse_release px fh st)
      | Fuse_control c e \<Rightarrow> snd (snd (fuse_control_step inval c e st)))"

lemma invalidate_counters:
  assumes "requests_balanced st"
  shows "requests_balanced (snd (snd (fold (invalidate_one inval) ps (status, n, st))))"
  using assms
  by (induction ps arbitrary: status n st) (auto simp: invalidate_one_def Let_def side_counters split: option.split)

lemma fuse_step_balanced:
  assumes "requests_balanced st"
  shows "requests_balanced (fuse_step px oc inval op st)"
proof (cases op)
  case (Fuse_readdir p)
  have r: "requests_balanced (fuse_count_request 1 st)" using request_kinds_counted [OF assms, of 1] by simp
  show ?thesis
    using r backing_path_counters [OF r, of p PATH_MAX] list_entries_counters
    by (auto simp: Fuse_readdir fuse_step_def agent_fuse_readdir_def Let_def split_beta split: sum.split)
next
  case (Fuse_control c e)
  have "requests_balanced (st\<lparr>fw_active_epoch := e\<rparr>)" using assms by (simp add: requests_balanced_def)
  then show ?thesis
    using assms invalidate_counters by (auto simp: Fuse_control fuse_step_def fuse_control_step_def Let_def split_beta)
qed (auto simp: fuse_step_def agent_fuse_getattr_def agent_fuse_open_def agent_fuse_create_def agent_fuse_mknod_def
    agent_fuse_read_def agent_fuse_write_def agent_fuse_truncate_def agent_fuse_readlink_def agent_fuse_unlink_def
    agent_fuse_rename_def agent_fuse_release_def Let_def assms request_kinds_counted release_counters side_counters
    intro!: on_backing_counters split: sum.split)

lemma fuse_trace_balanced:
  "requests_balanced st \<Longrightarrow> requests_balanced (fold (fuse_step px oc inval) ops st)"
  by (rule fold_inv [of requests_balanced]) (simp_all add: fuse_step_balanced)

subsection \<open>The view and the policy\<close>

text \<open>
  A walk below the workspace with the verdicts of a policy: a hidden component ends it, a
  selected one starts again at the target, any other goes down.
\<close>

fun policy_walk :: "(bytes \<Rightarrow> u32) \<Rightarrow> bytes \<Rightarrow> bytes \<Rightarrow> bytes list \<Rightarrow> bytes option" where
  "policy_walk verdict target dir [] = Some dir"
| "policy_walk verdict target dir (c # cs) =
     (if verdict c = BPF_NAMEI_EXT_HIDE then None
      else if verdict c = BPF_NAMEI_EXT_SELECT_TARGET then policy_walk verdict target target cs
      else policy_walk verdict target (dir @ ''/'' @ c) cs)"

definition join_path :: "bytes list \<Rightarrow> bytes" where
  "join_path cs = concat (map (\<lambda>c. ''/'' @ c) cs)"

lemma join_single:
  assumes "join_path cs = ''/'' @ d" "CHR ''/'' \<notin> set d"
  shows "cs = [d]"
proof (cases cs)
  case (Cons c cs')
  then have "c @ join_path cs' = d" using assms(1) by (simp add: join_path_def)
  moreover then have "cs' = []" using assms(2) by (cases cs') (auto simp: join_path_def)
  ultimately show ?thesis using Cons by (simp add: join_path_def)
qed (use assms(1) in \<open>simp add: join_path_def\<close>)

lemma policy_walk_pass:
  assumes "\<forall>c\<in>set cs. verdict c \<noteq> BPF_NAMEI_EXT_HIDE \<and> verdict c \<noteq> BPF_NAMEI_EXT_SELECT_TARGET"
  shows "policy_walk verdict target dir cs = Some (dir @ join_path cs)"
  using assms by (induction cs arbitrary: dir) (auto simp: join_path_def)

lemma view_verdict:
  assumes "ctx_named c s" "c_event c = BPF_NAMEI_EXT_LOOKUP"
  shows "fst (agent_workspace_view_policy c m) =
    (if s = ''ws'' then BPF_NAMEI_EXT_SELECT_TARGET else if s = ''deleted.txt'' then BPF_NAMEI_EXT_HIDE else BPF_NAMEI_EXT_PASS)"
  using assms by (simp add: agent_workspace_view_policy_def Let_def namei_ext_is_named)

lemma backing_path_join:
  assumes "\<forall>c\<in>set cs. c \<noteq> [] \<and> CHR ''/'' \<notin> set c"
  shows "fst (backing_path (join_path (''ws'' # cs)) sz st) =
    (if cs = [''deleted.txt''] then Inl ENOENT
     else if length (active_target st @ join_path cs) \<ge> sz then Inl ENAMETOOLONG
     else Inr (active_target st @ join_path cs))"
proof -
  have hid: "is_hidden_path (join_path (''ws'' # cs)) \<longleftrightarrow> cs = [''deleted.txt'']"
  proof
    assume "is_hidden_path (join_path (''ws'' # cs))"
    then have "join_path cs = ''/'' @ ''deleted.txt''" by (simp add: is_hidden_path_def join_path_def)
    then show "cs = [''deleted.txt'']" by (rule join_single) simp
  qed (simp add: is_hidden_path_def join_path_def)
  show ?thesis
  proof (cases cs)
    case Nil
    then show ?thesis using hid by (simp add: backing_path_def join_path_def Let_def)
  next
    case (Cons c cs')
    then show ?thesis using hid assms by (cases c) (simp_all add: backing_path_def join_path_def Let_def)
  qed
qed

text \<open>
  FUSE view and policy resolve a path below \<^verbatim>\<open>/ws\<close> alike, unless a deeper component is named
  \<^verbatim>\<open>ws\<close> or a component below the first \<^verbatim>\<open>deleted.txt\<close>.
\<close>

lemma fuse_view_is_policy_view:
  fixes m :: aw_maps
  assumes "\<forall>c\<in>set cs. c \<noteq> [] \<and> CHR ''/'' \<notin> set c" "''ws'' \<notin> set cs" "''deleted.txt'' \<notin> set (tl cs)"
    and "length (active_target st @ join_path cs) < sz"
    and "\<And>c. c \<in> set cs \<Longrightarrow> ctx_named (ctx c) c \<and> c_event (ctx c) = BPF_NAMEI_EXT_LOOKUP"
    and "hd cs = ''deleted.txt'' \<Longrightarrow> tl cs = []"
  defines "verdict \<equiv> \<lambda>c. fst (agent_workspace_view_policy (ctx c) m)"
  shows "fst (backing_path (join_path (''ws'' # cs)) sz st) =
    (case policy_walk verdict (active_target st) (active_target st) cs of None \<Rightarrow> Inl ENOENT | Some p \<Rightarrow> Inr p)"
proof (cases "cs = [''deleted.txt'']")
  case True
  then have "verdict ''deleted.txt'' = BPF_NAMEI_EXT_HIDE"
    using assms(5) [of "''deleted.txt''"] view_verdict [of "ctx ''deleted.txt''" "''deleted.txt''" m] by (simp add: verdict_def)
  then show ?thesis using True backing_path_join [OF assms(1), of sz st] by simp
next
  case False
  have nd: "''deleted.txt'' \<notin> set cs"
    using assms(3,6) False by (cases cs) auto
  have "verdict c \<noteq> BPF_NAMEI_EXT_HIDE \<and> verdict c \<noteq> BPF_NAMEI_EXT_SELECT_TARGET" if "c \<in> set cs" for c
  proof -
    have "c \<noteq> ''ws''" "c \<noteq> ''deleted.txt''" using that nd assms(2) by auto
    then show ?thesis using view_verdict [of "ctx c" c m] assms(5) [OF that]
      by (simp add: verdict_def BPF_NAMEI_EXT_PASS_def BPF_NAMEI_EXT_HIDE_def BPF_NAMEI_EXT_SELECT_TARGET_def)
  qed
  then have "policy_walk verdict (active_target st) (active_target st) cs = Some (active_target st @ join_path cs)"
    by (intro policy_walk_pass) blast
  then show ?thesis using backing_path_join [OF assms(1), of sz st] False assms(4) by simp
qed

text \<open>
  Below a subdirectory the FUSE view disagrees with itself: listings leave out every entry
  \<^verbatim>\<open>deleted.txt\<close>, while only the one at the top of the workspace cannot be looked up.
\<close>

lemma listed_names: "fst (list_entries ds st) = filter (\<lambda>d. d \<notin> {''.'', ''..'', ''deleted.txt''}) ds"
  by (induction ds arbitrary: st) (auto simp: split_beta)

lemma hidden_listing_incoherent:
  assumes "length (active_target st) + 20 < sz"
  shows "fst (backing_path ''/ws/src/deleted.txt'' sz st) = Inr (active_target st @ ''/src/deleted.txt'')"
    and "''deleted.txt'' \<notin> set (fst (list_entries ds st))"
  using assms by (simp_all add: backing_path_def is_hidden_path_def Let_def listed_names)

subsection \<open>Soundness of the wait\<close>

text \<open>
  A successful wait has seen, over at least twenty milliseconds of its own clock, turns that all
  read the same number of requests with every handle released.
\<close>

definition steady :: "u64 \<Rightarrow> quiescence_read \<Rightarrow> bool" where
  "steady tot r \<longleftrightarrow> qr_total r = tot \<and> qr_releases r = qr_handles r"

lemma quiescent_loop_sound:
  assumes "quiescent_loop deadline rs since prev = Some None"
  shows "(since \<noteq> 0 \<and> (\<exists>turns last after. rs = turns @ last # after \<and> list_all (steady prev) (turns @ [last]) \<and>
            qr_now last - since \<ge> 20000000)) \<or>
         (\<exists>before turns last after tot. rs = before @ turns @ last # after \<and> turns \<noteq> [] \<and>
            list_all (steady tot) (turns @ [last]) \<and> qr_now last - qr_now (hd turns) \<ge> 20000000)"
    (is "?since since prev rs \<or> ?turns rs")
  using assms
proof (induction rs arbitrary: since prev)
  case (Cons r rs)
  have more: "?turns rs \<Longrightarrow> ?turns (r # rs)" by (metis append_Cons)
  have start: "?turns (r # rs)" if "?since (qr_now r) (qr_total r) rs" "steady (qr_total r) r"
  proof -
    from that(1) obtain turns last after where t: "rs = turns @ last # after" "list_all (steady (qr_total r)) (turns @ [last])"
      "qr_now last - qr_now r \<ge> 20000000" by blast
    have "r # rs = [] @ (r # turns) @ last # after" "list_all (steady (qr_total r)) ((r # turns) @ [last])"
      "qr_now last - qr_now (hd (r # turns)) \<ge> 20000000" using t that(2) by simp_all
    then show ?thesis by blast
  qed
  have goes_on: "?since since prev (r # rs)" if "?since since (qr_total r) rs" "steady prev r"
  proof -
    have "qr_total r = prev" using that(2) by (simp add: steady_def)
    with that(1) obtain turns last after where t: "rs = turns @ last # after" "list_all (steady prev) (turns @ [last])"
      "qr_now last - since \<ge> 20000000" "since \<noteq> 0" by blast
    have "r # rs = (r # turns) @ last # after" "list_all (steady prev) ((r # turns) @ [last])" using t that(2) by simp_all
    then show ?thesis using t(3,4) by blast
  qed
  consider (ended) "steady prev r" "since \<noteq> 0" "qr_now r - since \<ge> 20000000"
    | (first) "steady (qr_total r) r" "quiescent_loop deadline rs (qr_now r) (qr_total r) = Some None"
    | (stays) "steady prev r" "quiescent_loop deadline rs since (qr_total r) = Some None"
    | (reset) "quiescent_loop deadline rs 0 (qr_total r) = Some None"
    using Cons.prems by (auto simp: steady_def split: if_splits)
  then show ?case
  proof cases
    case ended
    then have "r # rs = [] @ r # rs" "list_all (steady prev) ([] @ [r])" by simp_all
    then show ?thesis using ended(2,3) by blast
  next
    case first
    then show ?thesis using Cons.IH [OF first(2)] start more by blast
  next
    case stays
    then show ?thesis using Cons.IH [OF stays(2)] goes_on more by blast
  next
    case reset
    then show ?thesis using Cons.IH [OF reset] more by blast
  qed
qed simp

lemma wait_fuse_quiescent_sound:
  assumes "wait_fuse_quiescent start rs = Some None"
  shows "\<exists>before turns last after tot. rs = before @ turns @ last # after \<and> turns \<noteq> [] \<and>
    list_all (steady tot) (turns @ [last]) \<and> qr_now last - qr_now (hd turns) \<ge> 20000000"
  using quiescent_loop_sound [OF assms [unfolded wait_fuse_quiescent_def]] by blast

text \<open>It ends once its clock has passed the deadline.\<close>

lemma wait_fuse_quiescent_ends:
  assumes "r \<in> set rs" "\<not> qr_check r < start + 5000000000"
  shows "wait_fuse_quiescent start rs \<noteq> None"
proof -
  have "quiescent_loop deadline rs since prev \<noteq> None" if "r \<in> set rs" "\<not> qr_check r < deadline" for deadline since prev
    using that by (induction rs arbitrary: since prev) auto
  then show ?thesis using assms by (simp add: wait_fuse_quiescent_def)
qed

end
