(* ===== verification/Fxmark_Fuse.thy ===== *)
theory Fxmark_Fuse
  imports Fuse_Workspace
begin

text \<open>
  The pass-through file system of the FxMark benchmark (\<open>bench/fxmark/fxmark_fuse.c\<close>): the phase
  protocol of its control socket, the request counters per phase, and the mapping of paths below
  the lower root.
\<close>

subsection \<open>Phases and counters\<close>

abbreviation PHASE_SETUP :: nat where "PHASE_SETUP \<equiv> 0"
abbreviation PHASE_MEASURED :: nat where "PHASE_MEASURED \<equiv> 1"
abbreviation PHASE_AFTER :: nat where "PHASE_AFTER \<equiv> 2"
abbreviation PHASE_MAX :: nat where "PHASE_MAX \<equiv> 3"
abbreviation REQUEST_MAX :: nat where "REQUEST_MAX \<equiv> 11"

datatype request_counter =
    REQUEST_GETATTR | REQUEST_ACCESS | REQUEST_MKDIR | REQUEST_CREATE | REQUEST_OPEN | REQUEST_RELEASE
  | REQUEST_READ | REQUEST_WRITE | REQUEST_OPENDIR | REQUEST_READDIR | REQUEST_RELEASEDIR

definition request_counters :: "request_counter list" where
  "request_counters =
     [REQUEST_GETATTR, REQUEST_ACCESS, REQUEST_MKDIR, REQUEST_CREATE, REQUEST_OPEN, REQUEST_RELEASE,
      REQUEST_READ, REQUEST_WRITE, REQUEST_OPENDIR, REQUEST_READDIR, REQUEST_RELEASEDIR]"

record fx_state =
  fx_lower_root :: bytes
  fx_current_phase :: nat
  fx_measured_acks :: u64
  fx_after_acks :: u64
  fx_invalid_commands :: u64
  fx_counters :: "nat \<Rightarrow> request_counter \<Rightarrow> u64"

text \<open>
  One client of the control socket: the byte it sent, or the error of \<open>read_byte\<close>. The reply is
  written in any case.
\<close>

definition serve_client :: "errno + char \<Rightarrow> fx_state \<Rightarrow> char \<times> fx_state" where
  "serve_client received st =
     (case received of
        Inl e \<Rightarrow> (CHR ''E'', st)
      | Inr command \<Rightarrow>
          if command = CHR ''M'' \<and> fx_current_phase st = PHASE_SETUP
          then (CHR ''O'', st\<lparr>fx_current_phase := PHASE_MEASURED, fx_measured_acks := fx_measured_acks st + 1\<rparr>)
          else if command = CHR ''A'' \<and> fx_current_phase st = PHASE_MEASURED
          then (CHR ''O'', st\<lparr>fx_current_phase := PHASE_AFTER, fx_after_acks := fx_after_acks st + 1\<rparr>)
          else (CHR ''E'', st\<lparr>fx_invalid_commands := fx_invalid_commands st + 1\<rparr>))"

text \<open>
  Reading and writing one byte, over what the calls return in turn: the byte (or one written),
  nothing, or an error. Only an interrupted call is repeated; \<open>None\<close> when every call given was.
\<close>

fun read_byte :: "(errno + char option) list \<Rightarrow> (errno + char) option" where
  "read_byte [] = None"
| "read_byte (r # rs) =
     (case r of
        Inr (Some value) \<Rightarrow> Some (Inr value)
      | Inr None \<Rightarrow> Some (Inl EPIPE)
      | Inl e \<Rightarrow> if e \<noteq> EINTR then Some (Inl e) else read_byte rs)"

fun write_byte :: "(errno + bool) list \<Rightarrow> (errno + unit) option" where
  "write_byte [] = None"
| "write_byte (w # ws) =
     (case w of
        Inr written \<Rightarrow> Some (if written then Inr () else Inl EIO)
      | Inl e \<Rightarrow> if e \<noteq> EINTR then Some (Inl e) else write_byte ws)"

text \<open>
  The control thread: what \<open>poll\<close> and \<open>accept4\<close> answer in each turn, until the thread is asked to
  stop (the end of the list) or a call fails for good. The replies are collected.
\<close>

datatype control_turn = Poll_failed errno | Poll_idle | Accept_failed errno | Client "errno + char"

fun serve_control :: "control_turn list \<Rightarrow> fx_state \<Rightarrow> char list \<times> fx_state" where
  "serve_control [] st = ([], st)"
| "serve_control (t # ts) st =
     (case t of
        Poll_failed e \<Rightarrow> if e = EINTR then serve_control ts st else ([], st)
      | Poll_idle \<Rightarrow> serve_control ts st
      | Accept_failed e \<Rightarrow> if e = EINTR then serve_control ts st else ([], st)
      | Client received \<Rightarrow>
          let (reply, st) = serve_client received st; (replies, st) = serve_control ts st in (reply # replies, st))"

text \<open>
  The client of the socket: the results of the calls it makes, the byte exchange as a function of
  the command. \<^verbatim>\<open>sun_path\<close> has 108 bytes.
\<close>

record send_env =
  sd_socket :: "errno option"
  sd_connect :: "errno option"
  sd_write :: "char \<Rightarrow> errno + unit"
  sd_read :: "errno + char"
  sd_close :: "errno option"

definition send_phase :: "send_env \<Rightarrow> bytes \<Rightarrow> bytes \<Rightarrow> errno option" where
  "send_phase env path phase =
     (if phase \<noteq> ''measured'' \<and> phase \<noteq> ''after'' then Some EINVAL
      else if length path \<ge> 108 then Some ENAMETOOLONG
      else case sd_socket env of
        Some e \<Rightarrow> Some e
      | None \<Rightarrow>
          let command = (if phase = ''measured'' then CHR ''M'' else CHR ''A'');
              ret = (case sd_connect env of
                       Some e \<Rightarrow> Some e
                     | None \<Rightarrow>
                         (case sd_write env command of
                            Inl e \<Rightarrow> Some e
                          | Inr _ \<Rightarrow>
                              (case sd_read env of
                                 Inl e \<Rightarrow> Some e
                               | Inr reply \<Rightarrow> if reply \<noteq> CHR ''O'' then Some EPROTO else None)))
          in if ret = None then sd_close env else ret)"

definition count_request :: "request_counter \<Rightarrow> fx_state \<Rightarrow> fx_state" where
  "count_request k st =
     (let phase = (if fx_current_phase st \<ge> PHASE_MAX then PHASE_AFTER else fx_current_phase st);
          row = fx_counters st phase
      in st\<lparr>fx_counters := (fx_counters st)(phase := row(k := row k + 1))\<rparr>)"

text \<open>The totals of \<open>write_stats\<close>.\<close>

definition phase_total :: "fx_state \<Rightarrow> nat \<Rightarrow> u64" where
  "phase_total st phase = sum_list (map (fx_counters st phase) request_counters)"

subsection \<open>Paths\<close>

fun strstr :: "bytes \<Rightarrow> bytes \<Rightarrow> bool" where
  "strstr [] pat \<longleftrightarrow> pat = []"
| "strstr (x # xs) pat \<longleftrightarrow> take (length pat) (x # xs) = pat \<or> strstr xs pat"

definition lower_path :: "bytes option \<Rightarrow> nat \<Rightarrow> fx_state \<Rightarrow> errno + bytes" where
  "lower_path path sz st =
     (case path of
        None \<Rightarrow> Inl EINVAL
      | Some p \<Rightarrow>
          if p = [] \<or> hd p \<noteq> CHR ''/'' \<or> strstr p ''/../'' \<or> p = ''/..'' then Inl EINVAL
          else let lower = fx_lower_root st @ p in if length lower \<ge> sz then Inl ENAMETOOLONG else Inr lower)"

text \<open>The operations that take a path: counted, mapped, and done on the lower path.\<close>

definition fx_on_path ::
  "request_counter \<Rightarrow> (bytes \<Rightarrow> errno + 'r) \<Rightarrow> bytes option \<Rightarrow> fx_state \<Rightarrow> (errno + 'r) \<times> fx_state" where
  "fx_on_path k call path st =
     (let st = count_request k st
      in (case lower_path path PATH_MAX st of Inl e \<Rightarrow> Inl e | Inr lower \<Rightarrow> call lower, st))"

definition fx_getattr :: "(bytes \<Rightarrow> errno + unit) \<Rightarrow> bytes option \<Rightarrow> fx_state \<Rightarrow> (errno + unit) \<times> fx_state" where
  "fx_getattr lstat = fx_on_path REQUEST_GETATTR lstat"

definition fx_access :: "(bytes \<Rightarrow> errno + unit) \<Rightarrow> bytes option \<Rightarrow> fx_state \<Rightarrow> (errno + unit) \<times> fx_state" where
  "fx_access access = fx_on_path REQUEST_ACCESS access"

definition fx_mkdir :: "(bytes \<Rightarrow> errno + unit) \<Rightarrow> bytes option \<Rightarrow> fx_state \<Rightarrow> (errno + unit) \<times> fx_state" where
  "fx_mkdir mkdir = fx_on_path REQUEST_MKDIR mkdir"

definition fx_create :: "(bytes \<Rightarrow> errno + nat) \<Rightarrow> bytes option \<Rightarrow> fx_state \<Rightarrow> (errno + nat) \<times> fx_state" where
  "fx_create open_creat = fx_on_path REQUEST_CREATE open_creat"

definition fx_open :: "(bytes \<Rightarrow> errno + nat) \<Rightarrow> bytes option \<Rightarrow> fx_state \<Rightarrow> (errno + nat) \<times> fx_state" where
  "fx_open open_file = fx_on_path REQUEST_OPEN open_file"

definition fx_opendir :: "(bytes \<Rightarrow> errno + nat) \<Rightarrow> bytes option \<Rightarrow> fx_state \<Rightarrow> (errno + nat) \<times> fx_state" where
  "fx_opendir opendir = fx_on_path REQUEST_OPENDIR opendir"

text \<open>\<open>statfs\<close> is not counted.\<close>

definition fx_statfs :: "(bytes \<Rightarrow> errno + unit) \<Rightarrow> bytes option \<Rightarrow> fx_state \<Rightarrow> errno + unit" where
  "fx_statfs statvfs path st = (case lower_path path PATH_MAX st of Inl e \<Rightarrow> Inl e | Inr lower \<Rightarrow> statvfs lower)"

definition fx_on_handle :: "request_counter \<Rightarrow> (nat \<Rightarrow> errno + 'r) \<Rightarrow> nat \<Rightarrow> fx_state \<Rightarrow> (errno + 'r) \<times> fx_state" where
  "fx_on_handle k call fh st = (call fh, count_request k st)"

text \<open>
  \<open>fx_readdir\<close>: the entries from the offset on, with the positions behind them, until the filler
  is full; \<open>rest\<close> is what \<open>readdir\<close> ends with.
\<close>

fun fx_fill :: "(bytes \<Rightarrow> nat \<Rightarrow> bool) \<Rightarrow> (bytes \<times> (errno + nat)) list \<Rightarrow> errno option \<Rightarrow> errno option \<times> (bytes \<times> nat) list" where
  "fx_fill full [] rest = (rest, [])"
| "fx_fill full ((name, next) # es) rest =
     (case next of
        Inl e \<Rightarrow> (Some e, [])
      | Inr pos \<Rightarrow>
          if full name pos then (None, [(name, pos)])
          else let (r, out) = fx_fill full es rest in (r, (name, pos) # out))"

definition fx_readdir ::
  "(bytes \<Rightarrow> nat \<Rightarrow> bool) \<Rightarrow> (nat \<Rightarrow> (bytes \<times> (errno + nat)) list) \<Rightarrow> errno option \<Rightarrow> nat \<Rightarrow> fx_state \<Rightarrow>
     (errno option \<times> (bytes \<times> nat) list) \<times> fx_state" where
  "fx_readdir full dir rest offset st = (fx_fill full (dir offset) rest, count_request REQUEST_READDIR st)"

subsection \<open>The protocol\<close>

text \<open>The phases only go forward, each step is acknowledged once.\<close>

definition phase_inv :: "fx_state \<Rightarrow> bool" where
  "phase_inv st \<longleftrightarrow>
     fx_current_phase st < PHASE_MAX \<and>
     fx_measured_acks st = of_bool (fx_current_phase st \<ge> PHASE_MEASURED) \<and>
     fx_after_acks st = of_bool (fx_current_phase st = PHASE_AFTER)"

lemma serve_control_inv:
  assumes "phase_inv st"
  shows "phase_inv (snd (serve_control ts st))"
    "fx_current_phase (snd (serve_control ts st)) =
       fx_current_phase st + length (filter ((=) CHR ''O'') (fst (serve_control ts st)))"
proof -
  have "phase_inv (snd (serve_control ts st)) \<and>
    fx_current_phase (snd (serve_control ts st)) =
      fx_current_phase st + length (filter ((=) CHR ''O'') (fst (serve_control ts st)))"
    using assms
  proof (induction ts arbitrary: st)
    case (Cons t ts)
    show ?case
    proof (cases t)
      case (Client c)
      have step: "phase_inv (snd (serve_client c st))"
        "fx_current_phase (snd (serve_client c st)) = fx_current_phase st + of_bool (fst (serve_client c st) = CHR ''O'')"
        using Cons.prems by (auto simp: phase_inv_def serve_client_def split: sum.splits)
      show ?thesis using Cons.IH [OF step(1)] step(2) by (auto simp: Client Let_def split_beta)
    qed (use Cons in auto)
  qed simp
  then show "phase_inv (snd (serve_control ts st))"
    "fx_current_phase (snd (serve_control ts st)) =
       fx_current_phase st + length (filter ((=) CHR ''O'') (fst (serve_control ts st)))" by simp_all
qed

text \<open>So at most two commands are ever acknowledged, however many clients call.\<close>

lemma acknowledged_at_most_twice:
  assumes "phase_inv st"
  shows "length (filter ((=) CHR ''O'') (fst (serve_control ts st))) \<le> 2"
  using serve_control_inv [OF assms, of ts] by (simp add: phase_inv_def)

text \<open>A client told that its command worked has moved the phase of the server it talked to.\<close>

lemma send_phase_moves:
  assumes "send_phase env path phase = None" "phase_inv st"
    and "sd_read env = Inr (fst (serve_client (Inr (if phase = ''measured'' then CHR ''M'' else CHR ''A'')) st))"
  shows "fx_current_phase (snd (serve_client (Inr (if phase = ''measured'' then CHR ''M'' else CHR ''A'')) st)) =
    (if phase = ''measured'' then PHASE_MEASURED else PHASE_AFTER)"
  using assms
  by (auto simp: send_phase_def serve_client_def Let_def split: if_splits option.splits sum.splits)

lemma read_byte_ends:
  assumes "r \<in> set rs" "r \<noteq> Inl EINTR"
  shows "read_byte rs \<noteq> None"
  using assms by (induction rs) (auto split: sum.split option.split)

lemma write_byte_ends:
  assumes "w \<in> set ws" "w \<noteq> Inl EINTR"
  shows "write_byte ws \<noteq> None"
  using assms by (induction ws) (auto split: sum.split)

text \<open>A request is counted in the phase it arrives in, and only there.\<close>

lemma distinct_request_counters: "distinct request_counters" "k \<in> set request_counters"
  by (cases k; simp add: request_counters_def)+

lemma count_request_total:
  assumes "phase_inv st"
  shows "phase_total (count_request k st) p = phase_total st p + of_bool (p = fx_current_phase st)"
proof -
  have upd: "sum_list (map (f(k := f k + 1)) ks) = sum_list (map f ks) + 1" if "distinct ks" "k \<in> set ks" for f :: "request_counter \<Rightarrow> u64" and ks
  proof -
    have "sum_list (map (f(k := f k + 1)) xs) = sum_list (map f xs)" if "k \<notin> set xs" for xs
      using that by (induction xs) auto
    then show ?thesis using that by (induction ks) (auto simp: add.commute add.left_commute)
  qed
  have "fx_current_phase st < PHASE_MAX" using assms by (simp add: phase_inv_def)
  then show ?thesis
    using upd [OF distinct_request_counters]
    by (auto simp: phase_total_def count_request_def Let_def)
qed

subsection \<open>Confinement\<close>

text \<open>
  Where the components of a path lead, counted in levels below the lower root: \<open>None\<close> when one
  of them climbs out.
\<close>

fun levels :: "bytes list \<Rightarrow> nat \<Rightarrow> nat option" where
  "levels [] d = Some d"
| "levels (c # cs) d =
     (if c = [] \<or> c = ''.'' then levels cs d
      else if c = ''..'' then (case d of 0 \<Rightarrow> None | Suc d' \<Rightarrow> levels cs d')
      else levels cs (Suc d))"

lemma strstr_append: "strstr xs pat \<Longrightarrow> strstr (ys @ xs) pat"
  by (induction ys) auto

lemma strstr_prefix: "strstr (pat @ zs) pat"
proof (cases "pat @ zs")
  case (Cons a xs)
  then have "take (length pat) (a # xs) = pat" by (metis append_eq_conv_conj)
  then show ?thesis using Cons by simp
qed simp

lemma levels_normal:
  assumes "\<forall>c\<in>set cs. c \<noteq> [] \<and> c \<noteq> ''.'' \<and> c \<noteq> ''..''"
  shows "levels cs d = Some (d + length cs)"
  using assms by (induction cs arbitrary: d) auto

lemma levels_append: "levels (xs @ ys) d = (case levels xs d of None \<Rightarrow> None | Some e \<Rightarrow> levels ys e)"
  by (induction xs arbitrary: d) (auto split: nat.split)

text \<open>
  Every accepted path that FUSE can hand down, whose components are neither empty nor dot, stays
  below the lower root.
\<close>

lemma lower_path_confined:
  assumes "lower_path (Some (join_path cs)) sz st = Inr p" "cs \<noteq> []" "\<forall>c\<in>set cs. c \<noteq> [] \<and> c \<noteq> ''.''"
  shows "p = fx_lower_root st @ join_path cs" "levels cs 0 \<noteq> None"
proof -
  have ok: "\<not> strstr (join_path cs) ''/../''" "join_path cs \<noteq> ''/..''" "p = fx_lower_root st @ join_path cs"
    using assms(1) by (auto simp: lower_path_def Let_def split: if_splits)
  show "p = fx_lower_root st @ join_path cs" by (rule ok(3))
  obtain xs c where cs: "cs = xs @ [c]" using assms(2) by (metis rev_exhaust)
  have "''..'' \<notin> set xs"
  proof
    assume "''..'' \<in> set xs"
    then obtain ys zs where xs: "xs = ys @ ''..'' # zs" by (meson split_list)
    obtain z rest where z: "zs @ [c] = z # rest" by (cases zs) auto
    have "join_path cs = join_path ys @ ''/../'' @ z @ join_path rest"
      by (simp add: cs xs join_path_def flip: z) (use z in \<open>auto simp: Cons_eq_append_conv append_eq_Cons_conv\<close>)
    then show False using ok(1) strstr_append [OF strstr_prefix [of "''/../''" "z @ join_path rest"], of "join_path ys"] by simp
  qed
  then have n: "levels xs 0 = Some (length xs)" using assms(3) cs levels_normal [of xs 0] by auto
  have "xs \<noteq> [] \<or> c \<noteq> ''..''" using ok(2) cs by (auto simp: join_path_def)
  then show "levels cs 0 \<noteq> None" using n assms(3) cs by (auto simp: levels_append split: nat.splits)
qed

text \<open>The check itself is weaker: it accepts paths that climb out behind an empty or a dot component.\<close>

lemma lower_path_escape:
  assumes "length (fx_lower_root st) + 5 < sz"
  shows "lower_path (Some ''/./..'') sz st = Inr (fx_lower_root st @ ''/./..'')" "levels [''.'', ''..''] 0 = None"
    "lower_path (Some ''//..'') sz st = Inr (fx_lower_root st @ ''//..'')" "levels [[], ''..''] 0 = None"
  using assms by (simp_all add: lower_path_def Let_def)

end
