(* ===== verification/Spec2Isabelle.thy ===== *)
theory Spec2Isabelle
  imports Example_System Policies_View Policy_Cache Litmus Scope_Seq Attach_Spec Fuse_Counter Fxmark_Fuse
begin

text \<open>
  A verification library of namei\_ext: a kernel hook that lets a BPF program attached to a
  cgroup steer name resolution one path component at a time, the policies written for it,
  the harness that drives it, and the litmus test of its target lifetime.

  \<^bold>\<open>The program and its parts.\<close> The kernel mechanism is modelled from the kernel snapshot
  under \<^verbatim>\<open>src/results/experiments/agent-workspace-rq3-formal/20260728-rq3-formal-v3/artifacts/source/kernel\<close>
  (written \<^verbatim>\<open>K/\<close> below). The policies are \<^verbatim>\<open>src/bpf/policies\<close> over \<^verbatim>\<open>src/bpf/include\<close>, the harness
  \<^verbatim>\<open>src/runner/src/namei_ext_harness.c\<close>, the litmus
  \<^verbatim>\<open>src/experiments/namei_ext_target_lifetime\<close>. A path walk (\<^verbatim>\<open>K/fs/namei.c\<close>) or a directory
  listing (\<^verbatim>\<open>K/fs/readdir.c\<close>) asks a lock-free filter whether its directory is managed; if so
  \<^verbatim>\<open>K/fs/namei_ext.c\<close> builds a context, \<^verbatim>\<open>K/kernel/bpf/cgroup.c\<close> runs the effective programs of
  the current cgroup on it, and the answer (pass, redirect, hide, select a target) is applied.
  Which directories are managed, and which paths a target id stands for, is written through two
  control files; which programs run is decided by attaching and detaching them.

  \<^bold>\<open>The theories.\<close>
  \<^item> \<^verbatim>\<open>Namei_Prelude\<close>: types, error codes, loops over arrays and shared lemmas.
  \<^item> \<^verbatim>\<open>Namei_Abi\<close>: the context, its construction (\<open>namei_ext_init_ctx\<close>), the check of a
    replacement name and the verifier's access check.
  \<^item> \<^verbatim>\<open>Policy_Lib\<close>: the policy helpers, component keys, and the interfaces of policies as
    locales: \<open>namei_policy\<close> (what the hook relies on), \<open>counting_policy\<close> (balanced event
    counters) and \<open>coherent_policy\<close> (lookup and listing verdicts agree), each interpreted on the
    policies of \<^verbatim>\<open>Policies_Basic\<close>, \<^verbatim>\<open>Policies_Agent\<close>, \<^verbatim>\<open>Policies_Sharing\<close>, \<^verbatim>\<open>Policies_Staging\<close>,
    \<^verbatim>\<open>Policies_View\<close> and \<^verbatim>\<open>Policy_Cache\<close>.
  \<^item> \<^verbatim>\<open>Kernel_State\<close>: the kernel's tables in one record \<open>kstate\<close> with explicit reference counts.
  \<^item> \<^verbatim>\<open>Targets\<close>: the target registry and its control file; the locale \<open>target_registry\<close> is its
    contract, the plain map \<open>registry_spec\<close> its specification.
  \<^item> \<^verbatim>\<open>Scopes\<close>: scope sets, the global index and its counters, the \<open>policy_parent\<close> file;
    \<^verbatim>\<open>Scope_Seq\<close>: the seqcount reader interleaved with writers.
  \<^item> \<^verbatim>\<open>Effective\<close>, \<^verbatim>\<open>Cgroup_Attach\<close>, \<^verbatim>\<open>Attach_Inv\<close>, \<^verbatim>\<open>Attach_Spec\<close>: the effective array against a
    reference order, attach, detach, link update, inheritance and release, and what they keep.
  \<^item> \<^verbatim>\<open>Reach\<close>: all control-plane operations as a step relation, and the invariant of every
    reachable state.
  \<^item> \<^verbatim>\<open>Cgroup_Links\<close>: the system calls on programs, links and queries; \<^verbatim>\<open>Link_Inv\<close>, \<^verbatim>\<open>Link_Calls\<close>,
    \<^verbatim>\<open>Link_Reach\<close>: the agreement between links and program lists (\<open>links_inv\<close>), its preservation by
    every call and by the life of a cgroup, and the step relation \<open>sys_step\<close> of all of them.
  \<^item> \<^verbatim>\<open>Retirement\<close>: replacing and clearing targets split at the grace period, interleaved with
    RCU readers.
  \<^item> \<^verbatim>\<open>Dispatch\<close>: running the programs, \<open>namei_ext_lookup\<close>, \<open>namei_ext_resolve_target\<close>.
  \<^item> \<^verbatim>\<open>Walk\<close>, \<^verbatim>\<open>Walk_Props\<close>: a component of the walk, the last component of an open.
  \<^item> \<^verbatim>\<open>Vfs_Walk\<close>: what a component is walked with (leaving RCU mode, fast lookup, mounts, links,
    dots), from the dcache upwards; \<^verbatim>\<open>Link_Stack\<close>: its contract, the locale \<open>walk_vfs\<close>, whose client
    is \<open>walk_component\<close> with the hook in it; \<^verbatim>\<open>Path_Walk\<close>: \<open>link_path_walk\<close>, \<open>path_lookupat\<close> and the
    lookups by name, with the configurations a walk goes through.
  \<^item> \<^verbatim>\<open>Vfs_Open\<close>: the last component of an open below the hook (\<open>lookup_open\<close>, creation, the checks of
    \<open>may_open\<close> and of sticky directories, \<open>do_open\<close>), put into the walk by \<open>open_walk_env\<close>; \<^verbatim>\<open>Path_Open\<close>:
    \<open>path_openat\<close> and \<open>do_file_open\<close>, and further lemmas of the locale \<open>walk_vfs\<close> for opens.
  \<^item> \<^verbatim>\<open>Readdir\<close>: the wrapped directory context and its actor; the locale \<open>listing_policy\<close>.
  \<^item> \<^verbatim>\<open>Harness_Maps\<close>, \<^verbatim>\<open>Harness_Control\<close>, \<^verbatim>\<open>Harness_Load\<close>: the map interface, the control children,
    loading and destroying a policy, the latter two acting on the kernel model.
  \<^item> \<^verbatim>\<open>Litmus\<close>: the probes of the retirement litmus as steps on its shared record.
  \<^item> \<^verbatim>\<open>Fuse_Workspace\<close>, \<^verbatim>\<open>Fxmark_Fuse\<close>, \<^verbatim>\<open>Fuse_Counter\<close>: the FUSE file systems the experiments compare
    with (\<^verbatim>\<open>src/experiments/agent_workspace/namei_ext_agent_workspace_fuse.c\<close>,
    \<^verbatim>\<open>src/bench/fxmark/fxmark_fuse.c\<close>) and the tracing program that counts requests
    (\<^verbatim>\<open>src/bpf/tracing\<close>): their counters balance, the waits are sound and end, and the view agrees
    with the policy where the lemma \<open>fuse_view_is_policy_view\<close> says.
  \<^item> \<^verbatim>\<open>Example_System\<close>: a concrete system for the closed instances below.

  \<^bold>\<open>What the properties show.\<close> C1 to C5: the control plane keeps its invariant, the filter in
  front of the hooks is exact enough never to change a result, and attaching yields the
  reference order. C6 to C8: links and queries. C9 to C14: the registry is a map, isolates
  cgroups, leaks no reference and keeps borrowed targets pinned; the lock-free reader is
  linearizable. C15 to C21: what the hook accepts from a program, how a step of the walk
  ends on each answer, and what it leaves behind. C22 to C26: whole paths: the stack of links
  stays in bounds, every lookup ends, dots are recognised, a refused name is not opened, and
  files are created and truncated only where allowed. C27 to C29: directory listings. C30 to
  C34: the policy interface and the policies. C35 to C39: the harness. C40: the litmus.

  \<^bold>\<open>Modelling choices.\<close> Words are kept at their width; user counts and sequence numbers wrap as
  in the code, with exactness stated through \<open>counts\<close>. Locks are atomicity: one operation
  is one step, except where the code runs unlocked (\<^verbatim>\<open>Scope_Seq\<close>, \<^verbatim>\<open>Retirement\<close>), where the
  reads and the publications are separate steps. Pointers are numbers. Allocation failure is an
  argument of the operations that allocate. Loops that depend on the outside carry a bound on
  their rounds and return \<open>None\<close> beyond it: \<open>hk_rounds\<close> for the delegation retry and the
  revalidation loop of an open (one round is enough under \<open>settled\<close>, C23), the rounds of
  \<open>count_loop\<close>, \<open>wait_loop\<close> and \<open>copy_loop\<close> (the lemmas \<open>component_map_count\<close> and
  \<open>wait_control_child_ends\<close> and C39 state how many are enough), those of the lock-free reader
  (lemma \<open>reader_ends\<close>). The loops of \<open>link_path_walk\<close>, \<open>path_lookupat\<close> and \<open>path_openat\<close> are total
  because every link followed counts towards \<open>MAXSYMLINKS\<close> (40). Every other loop is a total
  function.

  Code outside the sources is a parameter: the dcache, the mount tree,
  permissions and the operations of the file systems (records \<open>dcache_ops\<close>, \<open>mount_ops\<close>, \<open>link_ops\<close>, \<open>open_env\<close>),
  the hash functions, \<open>sscanf\<close> and \<open>sysfs_streq\<close>, allocation, the directory iterator of the file
  system (a decision tree \<open>iter_tree\<close>), the system calls of the harness, and the programs behind
  a program number (\<open>runner\<close>).

  \<^bold>\<open>Not modelled.\<close> The rest of the kernel files (directories and their removal, the verifier, FUSE), which the
  project only patches; the experiment drivers around the modelled parts, which are sequences of
  system calls and measurements; loading of BPF objects by libbpf; the historical oracle under
  \<^verbatim>\<open>src/experiments/legacy_oracle\<close>; wrapfs, which is third-party; scripts, data and documents.
\<close>

section \<open>The control plane\<close>

text \<open>
  C1. Every state the kernel reaches from boot by attach, detach, link update, writes to
  the two control files and the creation, death and release of cgroups satisfies the
  invariant: the scope index holds exactly the nodes of the published scope sets in their
  buckets, the two user counters are exact, the target table holds each key once in its
  bucket, and the cached policy owners are ancestors whose scope is active.
\<close>

theorem reachable_kernel_inv:
  assumes "reachable hb (kernel_boot root) st"
  shows "kernel_inv hb st"
  using assms kernel_boot_inv by (rule reachable_inv)

theorem reachable_kernel_inv_witness: "kernel_inv example_hash example_state"
  by (rule reachable_kernel_inv [OF example_reachable])

text \<open>
  C2. No false negative of the lock-free filter: in a reachable state, if the policy owner
  cached for a live cgroup claims a directory, \<open>namei_ext_parent_maybe_managed\<close> says so.
\<close>

theorem filter_no_false_negative:
  assumes "reachable hb (kernel_boot root) st" "live st cg"
    and "cb_owner (ks_cgroups st cg) = Some owner"
    and "namei_ext_policy_parent_matches owner parent st"
  shows "namei_ext_parent_maybe_managed hb parent st"
  using reachable_inv [OF assms(1) kernel_boot_inv] assms(2-4) by (rule reachable_no_false_negative)

theorem filter_no_false_negative_witness:
  "namei_ext_parent_maybe_managed example_hash example_parent example_state"
  by (rule filter_no_false_negative [OF example_reachable example_facts(1,2) example_matches])

text \<open>
  C3. The filters in front of the hooks never change a result: in a reachable state a step of a
  live cgroup and the last component of an open give, with the hook enabled, the result they
  would give if every component were sent through the hook; and where the filter of a listing
  says no, the hook would have listed the directory as the file system gives it and left the
  state alone.
\<close>

theorem filters_transparent:
  assumes "reachable (hk_hash hk) (kernel_boot root) st" "live st (hk_current hk)"
  shows "(namei_ext_enabled st \<and> nd_last_type nd = LAST_NORM \<longrightarrow>
            walk_component hk v nd flags rd st m = walk_component_namei_ext hk v nd flags rd st m) \<and>
         (namei_ext_enabled st \<longrightarrow>
            open_last_lookups hk v fl intent nd rd st m = open_last_lookups_namei_ext hk v fl intent nd rd st m) \<and>
         (\<not> namei_ext_parent_maybe_managed (hk_hash hk) (f_path file) st \<longrightarrow>
            namei_ext_iterate_dir run backing fnh (hk_current hk) tryget file actor iter ctx st m =
              (let (ret, ctx) = run_iter (iter (dc_pos ctx)) actor ctx in (ret, ctx, st, m)))"
proof -
  note inv = reachable_inv [OF assms(1) kernel_boot_inv]
  show ?thesis
    by (intro conjI impI; (elim conjE)?;
        (rule walk_prefilter [OF inv assms(2)] open_prefilter [OF inv assms(2)] iterate_dir_unmanaged [OF inv assms(2)]);
        assumption)
qed

theorem filters_transparent_witness:
  "walk_component (example_hook select_portal_policy) example_vfs (example_nd ''portal'') 0 example_rd example_state () =
   walk_component_namei_ext (example_hook select_portal_policy) example_vfs (example_nd ''portal'') 0 example_rd
     example_state ()"
proof -
  let ?hk = "example_hook select_portal_policy"
  have h: "reachable (hk_hash ?hk) (kernel_boot 1) example_state" "live example_state (hk_current ?hk)"
    by (simp_all add: example_hook_def example_reachable example_facts)
  show ?thesis
    by (rule filters_transparent [OF h, THEN conjunct1, THEN mp]) (simp add: example_facts example_nd_def)
qed

text \<open>
  C4. The array \<open>compute_effective_progs\<close> fills in two passes, with its in-place reversal of
  the pre-order part, is the reference order: pre-order programs from the root down, then
  the others from the cgroup up, over the levels that take part.
\<close>

theorem effective_progs_reference:
  "compute_effective_progs True cgrp st = Inr (map Some (effective_spec cgrp st))"
  by (rule compute_effective_spec)

text \<open>
  C5. An attach is all or nothing: when it succeeds, every live descendant of the cgroup has the
  effective array and the nearest owner that its programs call for; when it is refused, the
  effective array and the owner of every cgroup are what they were.
\<close>

theorem attach_all_or_nothing:
  assumes "cgroup_bpf_attach env cg a st = (r, st')"
  shows "(r = None \<longrightarrow> (\<forall>d\<in>set (live_descendants cg st').
            cb_effective (ks_cgroups st' d) = map Some (effective_spec d st') \<and>
            cb_owner (ks_cgroups st' d) = nearest_owner d st')) \<and>
         (r \<noteq> None \<longrightarrow> (\<forall>c. cb_effective (ks_cgroups st' c) = cb_effective (ks_cgroups st c) \<and>
            cb_owner (ks_cgroups st' c) = cb_owner (ks_cgroups st c)))"
  using attach_up_to_date [of env cg a st st'] attach_refused [of env cg a st _ st'] assms
  by (auto simp: up_to_date_def)

theorem attach_all_or_nothing_witness:
  "cb_effective (ks_cgroups example_attached 1) = map Some (effective_spec 1 example_attached) \<and>
   cb_owner (ks_cgroups example_attached 1) = nearest_owner 1 example_attached"
proof -
  have "cgroup_bpf_attach example_attach_env 1 example_attach_args (kernel_boot 1) = (None, example_attached)"
    using example_attach by (simp add: example_attached_def prod_eq_iff)
  moreover have "1 \<in> set (live_descendants 1 example_attached)" by code_simp
  ultimately show ?thesis using attach_all_or_nothing by blast
qed

text \<open>
  C6. No system call on links trips over the state other calls left: in every reachable state
  releasing a link finds its entry (its warning never fires), an update of a link finds its
  slot in the effective arrays (its assertion holds), and a query meets no entry without
  program. The three keep every reference that is not the link's own.
\<close>

theorem link_calls_safe:
  assumes "sys_reachable hb (kernel_boot root) st"
  shows "\<not> fst (bpf_cgroup_link_release env l st) \<and>
         unlinked_refs (snd (bpf_cgroup_link_release env l st)) = unlinked_refs st \<and>
         (\<exists>r st'. cgroup_bpf_link_update ok l new old st = Some (r, st') \<and> unlinked_refs st' = unlinked_refs st) \<and>
         cgroup_bpf_query qenv attr c st \<noteq> None"
proof -
  have inv: "links_inv st" using sys_reachable_inv [OF assms kernel_boot_inv kernel_boot_links] by blast
  then have "lists_ok st" by (simp add: links_inv_def)
  then have q: "cgroup_bpf_query qenv attr c st \<noteq> None" by (rule query_total)
  note r = link_release_links(1,3) [OF inv prod.collapse [symmetric], of env l]
  obtain r' st' where u: "cgroup_bpf_link_update ok l new old st = Some (r', st')" "unlinked_refs st' = unlinked_refs st"
    using link_update_links [OF inv, of ok l new old] by blast
  show ?thesis by (intro conjI r q exI [of _ r'] exI [of _ st'] u)
qed

theorem link_calls_safe_witness:
  "\<not> fst (bpf_cgroup_link_release example_sys_env 7 example_linked) \<and>
   unlinked_refs (snd (bpf_cgroup_link_release example_sys_env 7 example_linked)) = unlinked_refs example_linked"
  by (intro conjI link_calls_safe [OF example_linked_reachable, THEN conjunct1]
      link_calls_safe [OF example_linked_reachable, THEN conjunct2, THEN conjunct1])

text \<open>
  C7. Creating a link is all or nothing: in every reachable state a successful creation settles
  the link on the cgroup of the descriptor, which it pins by one reference; a failed one leaves
  no link and no reference behind. No other link is touched.
\<close>

theorem link_create_all_or_nothing:
  assumes "sys_reachable hb (kernel_boot root) st" "ks_link_cgroup st l = None"
    and "cgroup_bpf_link_attach env attr prog l st = (r, st')"
  shows "ks_link_cgroup st' = (ks_link_cgroup st)(l :=
           if r = None then (case se_cgroup_fd env (lk_target_fd attr) of Inl e \<Rightarrow> None | Inr cg \<Rightarrow> Some cg) else None) \<and>
         unlinked_refs st' = unlinked_refs st"
  using sys_reachable_inv [OF assms(1) kernel_boot_inv kernel_boot_links] link_attach_links [OF _ assms(2,3)] by blast

theorem link_create_all_or_nothing_witness:
  "ks_link_cgroup example_linked 7 = Some 1 \<and> unlinked_refs example_linked = unlinked_refs (kernel_boot 1)"
proof -
  have "cgroup_bpf_link_attach example_sys_env example_link_attr 100 7 (kernel_boot 1) = (None, example_linked)"
    using example_link by (simp add: example_linked_def prod_eq_iff)
  from link_create_all_or_nothing [OF sys_reachable.start example_boot_unlinked this]
  show ?thesis by (simp add: example_sys_env_def example_link_attr_def)
qed

text \<open>
  C8. What a query of a cgroup's own programs reports, in every reachable state: the attach flags,
  the number of entries and the revision of the list, and as many program ids as fit into the
  caller's array, in the order of the list, with \<open>ENOSPC\<close> exactly when not all of them fit.
\<close>

theorem query_reports_list:
  fixes c :: u64
  assumes "sys_reachable hb (kernel_boot root) st" "\<not> qa_effective attr" "qa_want_ids attr"
    and "\<not> qa_want_attach_flags attr" "qa_prog_cnt attr > 0" "qe_copy_flags env" "qe_copy_cnt env" "qe_copy_revision env"
    and "\<And>j. qe_copy_id env j"
  shows "cgroup_bpf_query env attr c st =
    Some (if qa_prog_cnt attr < length (cb_progs (ks_cgroups st c)) then Some ENOSPC else None,
          \<lparr>qo_attach_flags = cb_flags (ks_cgroups st c), qo_prog_cnt = length (cb_progs (ks_cgroups st c)),
           qo_revision = cb_revision (ks_cgroups st c),
           qo_ids = map (\<lambda>pl. qe_prog_id env (entry_prog (ks_links st) pl))
                      (take (qa_prog_cnt attr) (cb_progs (ks_cgroups st c))),
           qo_prog_attach_flags = []\<rparr>)"
  using sys_reachable_inv [OF assms(1) kernel_boot_inv kernel_boot_links] query_list [OF _ assms(2-9)]
  by (simp add: links_inv_def)

theorem query_reports_list_witness:
  "map_option (\<lambda>(r, out). (r, qo_prog_cnt out, qo_ids out))
     (cgroup_bpf_query \<lparr>qe_copy_flags = True, qe_copy_cnt = True, qe_copy_revision = True, qe_copy_id = (\<lambda>_. True),
        qe_copy_attach_flag = (\<lambda>_. True), qe_prog_id = ucast, qe_array_length = length, qe_array_copy = (\<lambda>_ _. (None, []))\<rparr>
      \<lparr>qa_effective = False, qa_want_ids = True, qa_want_attach_flags = False, qa_prog_cnt = 4\<rparr> 1 example_linked) =
   Some (None, 1, [100])"
proof -
  have "map (entry_prog (ks_links example_linked)) (cb_progs (ks_cgroups example_linked 1)) = [100]" by code_simp
  then obtain pl where "cb_progs (ks_cgroups example_linked 1) = [pl]" "entry_prog (ks_links example_linked) pl = 100" by auto
  then show ?thesis by (subst query_reports_list [OF example_linked_reachable]) simp_all
qed

section \<open>The target registry\<close>

definition registry_exec :: "hashfn \<Rightarrow> bool \<Rightarrow> registry_cmd \<Rightarrow> kstate \<Rightarrow> kstate" where
  "registry_exec hb alloc c st =
     (case c of
        Register cg tid p \<Rightarrow> snd (namei_ext_register_target hb alloc cg tid p st)
      | Clear cg \<Rightarrow> namei_ext_clear_targets cg st)"

definition registry_accepts :: "bool \<Rightarrow> kstate \<Rightarrow> registry_cmd \<Rightarrow> bool" where
  "registry_accepts alloc st c =
     (case c of Register cg tid p \<Rightarrow> register_accepts alloc cg tid p st | Clear cg \<Rightarrow> True)"

lemma registry_exec_eq: "registry_exec hb alloc = registry.exec hb alloc"
  by (intro ext) (simp add: registry_exec_def split: registry_cmd.split)

lemma registry_accepts_eq: "registry_accepts alloc = registry.accepted alloc"
  by (intro ext) (simp add: registry_accepts_def split: registry_cmd.split)

text \<open>
  C9. The hash table of pinned targets refines a plain map from cgroup and id to a path: any
  history of registrations and clears leaves what the accepted commands describe, however
  the hash function spreads the keys.
\<close>

theorem registry_refines_map:
  "target_path hb (fold (registry_exec hb alloc) cs st) =
     fold registry_spec (filter (registry_accepts alloc st) cs) (target_path hb st)"
  unfolding registry_exec_eq registry_accepts_eq by (rule registry.history_refines)

text \<open>
  C10. Writes to the control file by the members of other cgroups never change the targets a
  cgroup sees.
\<close>

theorem target_writes_isolate_cgroups:
  assumes "\<forall>(env, count)\<in>set ws. we_current env \<noteq> cg"
  shows "target_path hb (target_writes hb ws st) cg = target_path hb st cg"
  using assms by (rule target_writes_isolated)

theorem target_writes_isolate_cgroups_witness:
  "target_path example_hash
     (target_writes example_hash [(example_write_env\<lparr>we_current := 2, we_copy := (\<lambda>_. Some ''clear'')\<rparr>, 5)] example_state) 1 =
   target_path example_hash example_state 1"
  by (rule target_writes_isolate_cgroups) simp

text \<open>
  C11. Whatever is written to the control file, valid or not, every path reference taken is
  held by the table or dropped again, and every cgroup reference is dropped.
\<close>

theorem target_writes_leak_nothing:
  "outside_refs (target_writes hb ws st) = outside_refs st \<and>
   ks_cgroup_refs (target_writes hb ws st) = ks_cgroup_refs st \<and>
   ks_bpf_refs (target_writes hb ws st) = ks_bpf_refs st"
  using target_writes_outside [of hb ws st] target_writes_refs [of hb ws st] by blast

text \<open>
  C12. A borrowed target stays pinned: for any interleaving of RCU readers with
  registrations, replacements, clears and retirements, the path of a target that a reader
  still looks at has a reference besides all those outside the table.
\<close>

theorem borrowed_target_pinned:
  assumes "rcu_steps hb (rcu_start st) s" "rs_readers s r = Some (Some t)"
  shows "ks_path_refs (rs_st s) (t_path t) \<ge> outside_refs st (t_path t) + 1"
  by (rule borrowed_pinned [OF assms])

theorem borrowed_target_pinned_witness:
  "\<exists>ts st'. clear_publish 1 example_state = (ts, st') \<and> target_path example_hash st' 1 1 = None \<and>
     ks_path_refs st' example_target \<ge> outside_refs example_state example_target + 1"
proof -
  let ?hb = example_hash and ?s0 = "rcu_start example_state"
  obtain t where t: "namei_ext_find_target_rcu ?hb 1 1 example_state = Some t" "t_path t = example_target"
    using example_target_path by (auto simp: target_path_def)
  obtain ts st' where c: "clear_publish 1 example_state = (ts, st')" by fastforce
  let ?s1 = "?s0\<lparr>rs_readers := (rs_readers ?s0)(0 := Some None)\<rparr>"
  let ?s2 = "?s1\<lparr>rs_readers := (rs_readers ?s1)(0 := Some (Some t))\<rparr>"
  let ?s3 = "?s2\<lparr>rs_st := st', rs_retired := (ts, inside ?s2) # rs_retired ?s2\<rparr>"
  have "rcu_step ?hb ?s0 ?s1" by (rule rcu_step.read_lock) (simp add: rcu_start_def)
  moreover have "rcu_step ?hb ?s1 ?s2" using t(1) by (intro rcu_step.borrow [where cg = 1 and tid = 1]) (simp_all add: rcu_start_def)
  moreover have "rcu_step ?hb ?s2 ?s3" using c by (intro rcu_step.clear) (simp add: rcu_start_def)
  ultimately have "rcu_steps ?hb ?s0 ?s3" by (blast intro: rcu_steps.intros)
  then have "ks_path_refs (rs_st ?s3) (t_path t) \<ge> outside_refs example_state (t_path t) + 1"
    by (rule borrowed_target_pinned [where r = 0]) (simp add: rcu_start_def)
  moreover have "target_path ?hb st' 1 1 = None"
    using target_path_clear [of ?hb 1 example_state 1 1] clear_halves [of 1 example_state] c
    by (auto simp: retire_targets_def target_path_def path_put_list_eq namei_ext_find_target_rcu_def split: if_splits)
  ultimately show ?thesis using c t(2) by simp
qed

section \<open>The scope index and its lock-free reader\<close>

text \<open>
  C13. Every write to the \<open>policy_parent\<close> file accounts for its path references: apart from
  those the published scope sets hold, none is gained or lost, on success and on every error.
\<close>

theorem policy_parent_write_leaks_nothing:
  assumes "reachable hb (kernel_boot root) st"
  shows "unscoped_refs (snd (namei_ext_policy_parent_write hb env count st)) p = unscoped_refs st p"
  using reachable_inv [OF assms kernel_boot_inv] by (simp add: kernel_inv_def policy_parent_write_refs)

theorem policy_parent_write_leaks_nothing_witness:
  "unscoped_refs (snd (namei_ext_policy_parent_write example_hash
      (example_write_env\<lparr>we_copy := (\<lambda>_. Some ''exact 3''), we_scan_suc := (\<lambda>_. (''exact'', 3, 2))\<rparr>) 7 example_state))
      example_target = unscoped_refs example_state example_target"
  by (rule policy_parent_write_leaks_nothing [OF example_reachable])



section \<open>The lookup hook\<close>

text \<open>
  C15. A replacement component passes \<open>namei_ext_redirect_valid\<close> exactly when it is a single
  entry name of at most 64 bytes: not empty, neither dot nor dot-dot, without slash or nul.
\<close>

theorem redirect_valid_single_component:
  assumes "ctx_wf c"
  shows "namei_ext_redirect_valid c \<longleftrightarrow>
           unat (c_redirect_name_len c) \<le> 64 \<and> single_component (redirect_text c)"
  using assms by (rule redirect_valid_iff)

theorem redirect_valid_single_component_witness:
  "namei_ext_redirect_valid
     (namei_ext_redirect_literal (namei_ext_init_ctx (\<lambda>_. None) None None 0 0 \<lparr>q_name = ''a'', q_len = 1, q_hash = 0\<rparr>) ''tool'')"
proof -
  let ?c = "namei_ext_init_ctx (\<lambda>_. None) None None 0 0 \<lparr>q_name = ''a'', q_len = 1, q_hash = 0\<rparr>"
  have w: "ctx_wf ?c" by (rule namei_ext_init_ctx_wf) (simp add: qstr_wf_def)
  then have w': "ctx_wf (namei_ext_redirect_literal ?c ''tool'')" by simp
  show ?thesis
    using redirect_valid_single_component [OF w'] redirect_literal_text [OF w, of "''tool''"]
      redirect_literal_len [of "''tool''" ?c]
    by (simp add: single_component_def)
qed



text \<open>
  C17. The fault-injection policy is contained: each of its malformed redirects (empty, too
  long, dot, dot-dot, with a slash, with a nul) is refused and leaves the record cleared.
\<close>

theorem malformed_redirects_refused:
  assumes "bound_to st current parent p"
    and "RQ3_FAULT_REDIRECT_LEN_ZERO \<le> mode" "mode \<le> RQ3_FAULT_REDIRECT_EMBEDDED_NUL"
  shows "rq3_lookup backing fnh lm current parent pino ''rq3_redirect'' flags rd st mode =
           (Some (if has_flag flags (lm_create lm) then EOPNOTSUPP else EINVAL), cleared rd)"
  by (rule rq3_redirect_contained [OF assms])

theorem malformed_redirects_refused_witness:
  "rq3_lookup (\<lambda>_. None) (\<lambda>_ _ _. 0) (hk_masks (example_hook pass_only_policy)) 1 example_parent None ''rq3_redirect'' 0
     example_rd example_state 3 = (Some EINVAL, cleared example_rd)"
proof -
  have "RQ3_FAULT_REDIRECT_LEN_ZERO \<le> 3" "3 \<le> RQ3_FAULT_REDIRECT_EMBEDDED_NUL"
    by (simp_all add: RQ3_FAULT_REDIRECT_LEN_ZERO_def RQ3_FAULT_REDIRECT_EMBEDDED_NUL_def)
  from malformed_redirects_refused [OF example_bound this, where backing = "\<lambda>_. None" and fnh = "\<lambda>_ _ _. 0"
      and lm = "hk_masks (example_hook pass_only_policy)" and pino = None and flags = 0 and rd = example_rd]
  show ?thesis by (simp add: has_flag_def)
qed

section \<open>The path walk\<close>





text \<open>
  C20. The substitution of a name is invisible outside the step: whatever the policy answers
  and however the step ends, \<open>nd->last\<close> is again the name the caller asked for, both in
  \<open>walk_component_namei_ext\<close> and in \<open>open_last_lookups_namei_ext\<close>, with the lookup, mount and link
  handling of the kernel below them.
\<close>

theorem requested_name_restored:
  "nd_last (fst (snd (walk_component_namei_ext hk (kernel_vfs hk pr) nd flags rd st m))) = nd_last nd \<and>
   nd_last (fst (snd (open_last_lookups_namei_ext hk (kernel_vfs hk pr) fl intent nd rd st m))) = nd_last nd"
proof
  show "nd_last (fst (snd (walk_component_namei_ext hk (kernel_vfs hk pr) nd flags rd st m))) = nd_last nd"
    using walk_namei_ext_last [OF kernel.keeps_last] by (metis prod.collapse)
  show "nd_last (fst (snd (open_last_lookups_namei_ext hk (kernel_vfs hk pr) fl intent nd rd st m))) = nd_last nd"
    using open_namei_ext_last [OF kernel.keeps_last] by (metis prod.collapse)
qed

text \<open>
  C21. After a redirect the test for a trailing slash reads one byte past the replacement name:
  a byte \<open>namei_ext_fill_redirect\<close> never writes, left over in the array, or for a name of 64
  bytes the byte behind the array. Whether an open is taken to ask for a directory depends on it.
\<close>

theorem redirect_reads_stale_byte:
  assumes "unat (c_redirect_name_len c) \<le> 64" "length (rd_name rd) = 64" "length (c_redirect_name c) = 64"
    and "namei_ext_apply_redirect nd (namei_ext_fill_redirect fnh parent c rd) = (b, nd', saved)"
  shows "trailing_slashes hk nd' \<longleftrightarrow>
           (if unat (c_redirect_name_len c) < 64 then rd_name rd ! unat (c_redirect_name_len c) \<noteq> NUL
            else hk_beyond hk \<noteq> NUL)"
  by (rule redirect_trailing_byte [OF refl assms])

theorem redirect_reads_stale_byte_witness:
  "\<exists>rd nd' c. redirect_text c = ''tool'' \<and>
     namei_ext_apply_redirect (example_nd ''a'') (namei_ext_fill_redirect (\<lambda>_ _ _. 0) example_parent c rd) =
       (True, nd', nd_last (example_nd ''a'')) \<and>
     trailing_slashes (example_hook pass_only_policy) nd'"
proof -
  let ?ini = "namei_ext_init_ctx (\<lambda>_. None) None None 0 0 \<lparr>q_name = ''a'', q_len = 1, q_hash = 0\<rparr>"
  let ?c = "namei_ext_redirect_literal ?ini ''tool''" and ?rd = "example_rd\<lparr>rd_name := replicate 64 (CHR ''x'')\<rparr>"
  have w: "ctx_wf ?ini" by (rule namei_ext_init_ctx_wf) (simp add: qstr_wf_def)
  have len: "unat (c_redirect_name_len ?c) = 4" using redirect_literal_len [of "''tool''" ?ini] by simp
  have l64: "length (c_redirect_name ?c) = 64"
    using w redirect_literal_wf [of ?ini "''tool''"] unfolding ctx_wf_def by simp
  obtain nd' where nd': "namei_ext_apply_redirect (example_nd ''a'')
      (namei_ext_fill_redirect (\<lambda>_ _ _. 0) example_parent ?c ?rd) = (True, nd', nd_last (example_nd ''a''))"
    by (simp add: namei_ext_apply_redirect_def namei_ext_fill_redirect_def Let_def)
  have "trailing_slashes (example_hook pass_only_policy) nd'"
    using redirect_reads_stale_byte [OF _ _ l64 nd'] len by simp
  with nd' redirect_literal_text [OF w, of "''tool''"] show ?thesis by (intro exI conjI) simp_all
qed

text \<open>
  C22. The stack of symbolic links stays inside its array in the walk of any path, with any bodies
  of links, any answers of policies and in each of the three attempts of a lookup: the depth is
  within the two embedded entries or the forty allocated ones, every entry in use exists, and
  \<open>link_path_walk\<close> keeps its \<open>depth <= nd->depth\<close>. The names it works on are not empty and start
  with no slash.
\<close>

theorem link_stack_bounded:
  assumes "lookup_reach hk pr junk flags nd0 st0 m0 (names, name, nd, st, m)" "nd_depth nd0 = 0"
  shows "nd_depth nd \<le> (if nd_stack_big nd then MAXSYMLINKS else EMBEDDED_LEVELS) \<and>
         nd_depth nd \<le> length (nd_stack nd) \<and> nd_depth nd \<le> nd_total_link_count nd \<and>
         length names \<le> nd_depth nd \<and> (\<forall>n\<in>set (name # names). n \<noteq> [] \<and> hd n \<noteq> CHR ''/'')"
  by (rule reach_bounds [OF assms])

theorem link_stack_bounded_witness:
  "\<exists>nd st. lookup_reach (example_hook pass_only_policy) example_walk_env (\<lambda>_. example_rd) 1 (example_start ''/l/f'')
       (kernel_boot 1) () ([''f''], ''d'', nd, st, ()) \<and> nd_depth nd = 1 \<and> 1 \<le> length (nd_stack nd)"
proof -
  let ?hk = "example_hook pass_only_policy" and ?pr = example_walk_env and ?junk = "\<lambda>_. example_rd"
  let ?b = "lookup_begin ?hk ?pr 1 (example_start ''/l/f'') (kernel_boot 1)"
  let ?c = "([], ''l/f'', walk_entry ?pr (fst (snd ?b)), snd (snd ?b), ())"
  have "fst ?b = Inr ''/l/f''" by code_simp
  then have "?b = (Inr ''/l/f'', fst (snd ?b), snd (snd ?b))" by (simp add: prod_eq_iff)
  from lookup_reach.start [OF this, of ?junk "()"]
  have c: "lookup_reach ?hk ?pr ?junk 1 (example_start ''/l/f'') (kernel_boot 1) () ?c" by (simp add: skip_slashes_def)
  let ?r = "projr (walk_round ?hk ?pr ?junk ?c)"
  have r: "\<not> isl (walk_round ?hk ?pr ?junk ?c)" "fst ?r = [''f'']" "fst (snd ?r) = ''d''" "nd_depth (fst (snd (snd ?r))) = 1"
    by code_simp+
  then obtain nd st where w: "walk_round ?hk ?pr ?junk ?c = Inr ([''f''], ''d'', nd, st, ())" "nd_depth nd = 1"
    by (cases "walk_round ?hk ?pr ?junk ?c") auto
  note l = lookup_reach.step [OF c lookup_step.round [OF w(1)]]
  have "nd_depth (example_start ''/l/f'') = 0" by (simp add: example_start_def depth_zero)
  from link_stack_bounded [OF l this] l w(2) show ?thesis by metis
qed



text \<open>
  C24. The scan of a component, for a name without NUL of less than 4 GiB: the component is what
  precedes the next slash, \<open>nd->last\<close> holds it, and the word of shifted bytes tells dot and
  dot-dot from every other component, although it wraps for names longer than eight bytes.
\<close>

theorem hash_name_classifies:
  assumes "hash_name hk nd name = (nd', word, rest)"
    and "name \<noteq> []" "hd name \<noteq> CHR ''/''" "NUL \<notin> set name" "length name < 2 ^ 32"
  shows "name = component name @ rest \<and> CHR ''/'' \<notin> set (component name) \<and> (rest = [] \<or> hd rest = CHR ''/'') \<and>
         qstr_text (nd_last nd') = component name \<and>
         (word = LAST_WORD_IS_DOT \<longleftrightarrow> component name = ''.'') \<and>
         (word = LAST_WORD_IS_DOTDOT \<longleftrightarrow> component name = ''..'')"
  using hash_name_component [OF assms] by blast

theorem hash_name_classifies_witness:
  "\<exists>nd' word. hash_name (example_hook pass_only_policy) (example_nd []) ''........../x'' = (nd', word, ''/x'') \<and>
     qstr_text (nd_last nd') = ''..........'' \<and> word \<noteq> LAST_WORD_IS_DOTDOT"
proof -
  let ?h = "hash_name (example_hook pass_only_policy) (example_nd []) ''........../x''"
  have h: "?h = (fst ?h, fst (snd ?h), ''/x'')" by (simp add: hash_name_def component_def Let_def)
  have c: "component ''........../x'' = ''..........''" by (simp add: component_def)
  from hash_name_classifies [OF h] c
  have "qstr_text (nd_last (fst ?h)) = ''..........''" "fst (snd ?h) \<noteq> LAST_WORD_IS_DOTDOT" by simp_all
  with h show ?thesis by blast
qed

text \<open>
  C25. A name the hook refuses (one the policy hides, for instance) is neither opened nor created:
  when the walk of an open has come to the last name in a managed directory and the hook answers
  an error, the open ends with that error, or \<open>ECHILD\<close> to be tried again outside RCU mode, and
  nothing has happened since but leaving RCU mode.
\<close>

theorem refused_name_not_opened:
  assumes "link_path_walk hk pr junk s nd st m = (None, nd1, st1, m1)"
    and "namei_ext_enabled st1" "namei_ext_parent_maybe_managed (hk_hash hk) (nd_path nd1) st1" "nd_last_type nd1 = LAST_NORM"
    and "hook_lookup hk (nd1\<lparr>nd_flags := nd_flags nd1 OR op_intent op\<rparr>) (junk nd1) st1 m1 = (Some e, rd', m2)"
  shows "\<exists>e' nd' st'. open_loop hk pr junk op (s, nd, st, m) = Some (Some e', nd', st', m2) \<and> e' \<in> {e, ECHILD} \<and>
    st' \<in> {st1, snd (snd (try_to_unlazy hk pr (nd1\<lparr>nd_flags := nd_flags nd1 OR op_intent op\<rparr>) st1))}"
  by (rule open_loop_refused [OF assms])

theorem refused_name_not_opened_witness:
  "\<exists>e nd' st'. open_loop (example_hook hide_secret_policy) example_open_walk (\<lambda>_. example_rd) example_op
     (Inr ''secret'', example_open_start, example_state, ()) = Some (Some e, nd', st', ()) \<and> e \<in> {ENOENT, ECHILD}"
proof -
  have "nd_last_type example_hidden_nd = LAST_NORM" by (simp add: example_hidden_nd_def)
  from refused_name_not_opened [OF example_hidden_walk example_facts(4) example_hidden_managed this example_hidden_lookup]
  show ?thesis by blast
qed



section \<open>Directory listings\<close>

text \<open>
  C27. A hooked listing shows the caller what the file system would show if its entries had
  been edited first: passed entries as they are, hidden ones left out, redirected ones under
  their new name, with every position the same; the return value too, unless the policy made
  an entry fail.
\<close>

theorem readdir_is_edited_iteration:
  assumes "refuses_cleanly actor" "takes_cgroup current tryget (f_path file) st"
    and "namei_ext_iterate_dir run backing fnh current tryget file actor iter ctx st m = (ret, ctx', st', m')"
  shows "snd (run_iter (edit_tree (readdir_verdict run backing fnh file current st) (iter (dc_pos ctx)) m) actor ctx) = ctx' \<and>
         ((\<forall>e m err. offer_of (readdir_verdict run backing fnh file current st e m) (de_name e) \<noteq> Refuse err) \<longrightarrow>
          fst (run_iter (edit_tree (readdir_verdict run backing fnh file current st) (iter (dc_pos ctx)) m) actor ctx) = ret)"
  using iterate_dir_edits(1,3) [OF assms] by blast

theorem readdir_is_edited_iteration_witness:
  "\<exists>ret ctx' st' m'. namei_ext_iterate_dir (\<lambda>_. hide_secret_policy) (\<lambda>_. None) (\<lambda>_ _ _. 0) 1 True
       \<lparr>f_path = example_parent, f_inode = None, f_pos = 0\<rparr> collect (\<lambda>_. listing example_entries) example_ctx
       example_state () = (ret, ctx', st', m') \<and>
     dc_owner ctx' = [''a'', ''b'']"
proof -
  let ?f = "\<lparr>f_path = example_parent, f_inode = None, f_pos = 0\<rparr>"
  obtain ret ctx' st' m' where i: "namei_ext_iterate_dir (\<lambda>_. hide_secret_policy) (\<lambda>_. None) (\<lambda>_ _ _. 0) 1 True
      ?f collect (\<lambda>_. listing example_entries) example_ctx example_state () = (ret, ctx', st', m')"
    using prod_cases4 by blast
  have t: "takes_cgroup 1 True (f_path ?f) example_state" by (rule example_takes)
  have "dc_owner (snd (run_iter (edit_tree (readdir_verdict (\<lambda>_. hide_secret_policy) (\<lambda>_. None) (\<lambda>_ _ _. 0) ?f 1
      example_state) (listing example_entries) ()) collect example_ctx)) = [''a'', ''b'']" by code_simp
  with readdir_is_edited_iteration [OF collect_clean t i] i show ?thesis by auto
qed

text \<open>
  C28. A listing and lookups agree: under a policy whose listing verdicts only pass or hide and
  match its lookup verdicts, a directory lists exactly the entries whose lookup is not refused
  with \<open>ENOENT\<close> by the hook, whatever flags, hash and trailing path the lookups come with. The
  ten policies with per-cgroup views are of that kind.
\<close>

theorem listing_agrees_with_lookup:
  assumes "listing_policy run rules" "bound_to st current (f_path file) p"
    and "takes_cgroup current tryget (f_path file) st"
  shows "\<exists>ctx' m'. namei_ext_iterate_dir (\<lambda>_. run) backing fnh current tryget file collect (\<lambda>_. listing es) ctx st m =
           (None, ctx', st, m') \<and>
         dc_owner ctx' = dc_owner ctx @ map de_name
           (filter (\<lambda>e. \<not> lookup_hides (\<lambda>_. run) backing fnh lm current file flags rest h st m rd (de_name e)) es)"
proof -
  obtain ret ctx' st' m' where i: "namei_ext_iterate_dir (\<lambda>_. run) backing fnh current tryget file collect
      (\<lambda>_. listing es) ctx st m = (ret, ctx', st', m')"
    using prod_cases4 by blast
  show ?thesis
    using listing_policy.listing_is_lookup(1,2) [OF assms i]
      listing_policy.listing_is_lookup(3) [OF assms i, where lm = lm and flags = flags and rest = rest and h = h and rd = rd] i
    by auto
qed

theorem listing_agrees_with_lookup_witness:
  "\<exists>ctx' m'. namei_ext_iterate_dir (\<lambda>_. agent_workspace_view_policy) (\<lambda>_. None) (\<lambda>_ _ _. 0) 1 True
       \<lparr>f_path = example_parent, f_inode = None, f_pos = 0\<rparr> collect (\<lambda>_. listing example_entries) example_ctx
       example_state \<lparr>aw_counters = replicate 7 0\<rparr> = (None, ctx', example_state, m') \<and>
     dc_owner ctx' = dc_owner example_ctx @ map de_name
       (filter (\<lambda>e. \<not> lookup_hides (\<lambda>_. agent_workspace_view_policy) (\<lambda>_. None) (\<lambda>_ _ _. 0)
          (hk_masks (example_hook pass_only_policy)) 1 \<lparr>f_path = example_parent, f_inode = None, f_pos = 0\<rparr> 0 [] 0
          example_state \<lparr>aw_counters = replicate 7 0\<rparr> example_rd (de_name e)) example_entries)"
  by (rule listing_agrees_with_lookup [OF aw_listing.listing_policy_axioms example_bound]) (simp add: example_takes)

text \<open>
  C29. A listing leaves the kernel tables and every reference count as they were, on every way
  out of \<open>iterate_dir\<close>: the cgroup taken for the run of the policy is given back.
\<close>

theorem iterate_dir_releases_cgroup:
  "fst (snd (snd (snd (iterate_dir run backing fnh hb current tryget ck actor iter file ctx st m)))) = st"
  by (auto simp: iterate_dir_def Let_def dest: iterate_dir_refs split: prod.split option.split)

section \<open>The policy interface and the policies\<close>

text \<open>
  C30. The verifier's access check lets a program write only its answer: any accepted store
  touches no field but the replacement length, the target id and the replacement bytes.
\<close>

theorem policy_writes_only_answer:
  assumes "namei_ext_is_valid_access nw off sz BPF_WRITE" "touches off sz f"
  shows "f = F_redirect_name_len \<or> f = F_target_id \<or> f = F_redirect_name"
  by (rule valid_write_fields [OF assms])

theorem policy_writes_only_answer_witness:
  "\<exists>f. touches (ctx_offsetof F_target_id) 4 f \<and> f \<noteq> F_redirect_name_len \<and> f \<noteq> F_redirect_name \<and> f = F_target_id"
proof -
  have v: "namei_ext_is_valid_access nw (ctx_offsetof F_target_id) 4 BPF_WRITE" for nw
    by (simp add: namei_ext_is_valid_access_def bpf_ctx_range_def sizeof_bpf_namei_ext_ctx_def)
  have t: "touches (ctx_offsetof F_target_id) 4 F_target_id" by (simp add: touches_iff)
  from policy_writes_only_answer [OF v t] t show ?thesis by auto
qed



text \<open>
  C33. Component keys identify the component: for names that fit, two contexts build the same
  map key exactly when event, cgroup, parent device, parent inode and name agree.
\<close>

theorem component_key_injective:
  assumes "ctx_named c s" "ctx_named c' t"
  shows "namei_ext_build_component_key c zero_component_key = namei_ext_build_component_key c' zero_component_key \<longleftrightarrow>
           c_event c = c_event c' \<and> c_cgroup_id c = c_cgroup_id c' \<and> c_parent_dev c = c_parent_dev c' \<and>
           c_parent_ino c = c_parent_ino c' \<and> s = t"
  unfolding build_component_key_named [OF assms(1)] build_component_key_named [OF assms(2)]
  by (rule component_key_of_inject) (use assms in \<open>simp_all add: ctx_named_def\<close>)

theorem component_key_injective_witness:
  "namei_ext_build_component_key (example_named ''a'') zero_component_key \<noteq>
   namei_ext_build_component_key (example_named ''ab'') zero_component_key"
  using component_key_injective [OF example_named_ctx example_named_ctx, of "''a''" "''ab''"] by simp



section \<open>The harness\<close>

text \<open>
  C35. The key the harness writes into a policy's maps is the key the policy builds in the
  kernel, when \<open>stat\<close> and the kernel agree on the parent's device and inode.
\<close>

theorem harness_and_policy_keys_agree:
  assumes "ctx_named c s" "stat parent = Inr (c_parent_dev c, c_parent_ino c)"
  shows "fill_component_key stat (c_cgroup_id c) parent s =
           Inr ((namei_ext_build_component_key c zero_component_key)\<lparr>k_event := 0\<rparr>)"
  by (rule harness_key_is_policy_key [where stat = stat and parent = parent, OF assms])

theorem harness_and_policy_keys_agree_witness:
  "fill_component_key (\<lambda>_. Inr (0, 0)) 1 ''/srv'' ''document'' =
     Inr ((namei_ext_build_component_key (example_named ''document'') zero_component_key)\<lparr>k_event := 0\<rparr>)"
  using harness_and_policy_keys_agree [OF example_named_ctx, of "''document''" "\<lambda>_. Inr (0, 0)" "''/srv''"]
  by (simp add: example_named_def namei_ext_init_ctx_def)







text \<open>
  C39. Copying a file ends with the source's content in the copy, however the reads and writes
  are split, as long as no call fails and every write takes at least one byte.
\<close>

theorem copy_file_copies:
  assumes "fs_open_in fs = Inr src" "fs_open_out fs = None" "fs_close_out fs = None" "fs_close_in fs = None"
    and "\<And>k. \<exists>n. fs_write fs k = Inr n \<and> n > 0" "\<And>j. \<exists>n. fs_read fs j = Inr n"
    and "rounds \<ge> length src + 4096"
  shows "namei_ext_copy_file rounds fs = Some (None, src)"
  using copy_loop_copies [OF assms(5,6,7), where j = 0 and k = 0 and out = "[]"] assms(1-4) by (simp add: namei_ext_copy_file_def)

theorem copy_file_copies_witness:
  "namei_ext_copy_file 5000
     \<lparr>fs_open_in = Inr ''content'', fs_open_out = None, fs_read = (\<lambda>_. Inr 3), fs_write = (\<lambda>_. Inr 1),
      fs_close_out = None, fs_close_in = None\<rparr> = Some (None, ''content'')"
  by (rule copy_file_copies) simp_all

section \<open>The retirement litmus\<close>



end
